(* ===== verification/Prelude.thy ===== *)
theory Prelude
  imports Main "HOL-Library.Word" "HOL-Library.Char_ord" "HOL-Library.List_Lexorder"
begin

text \<open>
  Shared vocabulary of the development: byte strings, machine integers, errors as values and
  their sequencing, and decimal text of numbers.

  A Go \<open>string\<close> and a Go \<open>[]byte\<close> are both sequences of bytes; HOL's \<open>char\<close> has exactly 256
  values, so both are \<^typ>\<open>char list\<close> here and a Go literal is an Isabelle literal. Go's
  \<open>error\<close> results are the left side of a sum; each message of the code has a constructor of its
  own, carrying the values the message prints.
\<close>

section \<open>Types\<close>

type_synonym bytes = string
type_synonym uint64 = "64 word"
type_synonym uint32 = "32 word"
type_synonym int32 = "32 word"

text \<open>A Go slice that can be \<open>nil\<close>, where the difference from an empty slice is observable.\<close>

type_synonym 'a slice = "'a list option"

definition elems :: "'a slice \<Rightarrow> 'a list" where
  "elems s = (case s of None \<Rightarrow> [] | Some xs \<Rightarrow> xs)"

lemma elems_simps [simp]: "elems None = []" "elems (Some xs) = xs"
  by (simp_all add: elems_def)

section \<open>Errors as values\<close>

text \<open>\<open>parse.go\<close>: the strict decoder.\<close>

datatype parse_error =
    DocumentSize nat | NestingExceeded | ValueCountExceeded | InvalidJSON | StringExceeded
  | InvalidObjectKey | KeyNotString | KeyExceeded | DuplicateKey string
  | UnterminatedObject | UnterminatedArray | StrictDecode | MultipleValues | TrailingData
  | UnexpectedDelimiter | MarshalFailed | FuelExhausted

text \<open>\<open>parse.go\<close>: statements and policies.\<close>

datatype document_error =
    UnsupportedStatement string | NoSubjects | UnsupportedPolicy string
  | BadIncompleteDecision | MissingAllowlists

text \<open>\<open>evidence.go\<close>: \<open>validateEvent\<close> and \<open>eventDigest\<close>.\<close>

datatype event_error =
    UnsupportedEventSchema string | MissingIdentity | IncompleteKernelScope
  | MissingSource | NonPositiveSequence | UnsupportedOperation string
  | IncompleteSensor | ExecWithoutProcess | IncompleteProcess | MissingIntegrity

text \<open>\<open>evidence.go\<close>: the stream, its chain and the graph.\<close>

datatype stream_error =
    StreamSize nat | BlankLine | NotCanonical nat | TooManyEvents | ScanFailed | EmptyStream
  | SequenceMismatch uint64 uint64 | CrossesBuild uint64 | ChangesSensor uint64
  | ReversesTime uint64 | PreviousHashMismatch uint64 | HashMismatch uint64
  | EmptyGraphInput | GraphIncompleteProcess uint64 | ConflictingIdentity string

text \<open>\<open>chain.go\<close>.\<close>

datatype chain_error = IncompleteBuildScope | IncompleteSensorIdentity | ChainNil | CallerSuppliedFields

text \<open>\<open>verify.go\<close> and \<open>local_provenance.go\<close>.\<close>

datatype verify_error =
    UnexpectedPredicate string
  | BuildIdentityMismatch | SourceIdentityMismatch | SubjectMismatch
  | FinalizationDigestDiffers | FinalizationLacksProcess | FinalizationNotObserved
  | LocalInputsIncomplete | LocalSourceDiffers | FileError

datatype provenance_error =
    NoBuildDefinition | NoInternalParameters | NoBuildIdentity
  | IdentityIncomplete | StructureIncomplete | ExternalConflict | DependenciesOmitSource
  | RunDetailsConflict

text \<open>\<open>internal/sensor\<close>.\<close>

datatype sensor_error = SensorNotOpen | SampleSize nat | DecodeSample | UnsupportedKind uint32

text \<open>All errors, with the wrappers \<open>fmt.Errorf("event line %d: %w", ...)\<close> and the like.\<close>

datatype gerr =
    ParseErr parse_error | DocumentErr document_error | EventErr event_error
  | StreamErr stream_error | ChainErr chain_error | VerifyErr verify_error
  | ProvenanceErr provenance_error | SensorErr sensor_error
  | EventLine nat gerr | InPolicy gerr | InProvenance gerr | InBuildIdentity gerr

type_synonym 'a result = "gerr + 'a"

text \<open>Go's \<open>if err != nil { return err }\<close>.\<close>

definition and_then :: "'a result \<Rightarrow> ('a \<Rightarrow> 'b result) \<Rightarrow> 'b result" where
  "and_then m f = (case m of Inl e \<Rightarrow> Inl e | Inr x \<Rightarrow> f x)"

text \<open>The same with the error wrapped, \<open>fmt.Errorf("...: %w", err)\<close>.\<close>

definition wrap :: "(gerr \<Rightarrow> gerr) \<Rightarrow> 'a result \<Rightarrow> 'a result" where
  "wrap w m = (case m of Inl e \<Rightarrow> Inl (w e) | Inr x \<Rightarrow> Inr x)"

definition of_option :: "gerr \<Rightarrow> 'a option \<Rightarrow> 'a result" where
  "of_option e r = (case r of None \<Rightarrow> Inl e | Some x \<Rightarrow> Inr x)"

lemma and_then_simps [simp]:
  "and_then (Inl e) f = Inl e"
  "and_then (Inr x) f = f x"
  by (simp_all add: and_then_def)

lemma wrap_simps [simp]:
  "wrap w (Inl e) = Inl (w e)"
  "wrap w (Inr x) = Inr x"
  by (simp_all add: wrap_def)

lemma of_option_simps [simp]:
  "of_option e None = Inl e"
  "of_option e (Some x) = Inr x"
  by (simp_all add: of_option_def)

lemma and_then_eq_Inr: "and_then m f = Inr y \<longleftrightarrow> (\<exists>x. m = Inr x \<and> f x = Inr y)"
  by (cases m) auto

lemma wrap_eq_Inr [simp]: "wrap w m = Inr y \<longleftrightarrow> m = Inr y"
  by (cases m) auto

lemma of_option_eq_Inr [simp]: "of_option e r = Inr y \<longleftrightarrow> r = Some y"
  by (cases r) auto

lemma and_then_cong [fundef_cong]:
  "m = m' \<Longrightarrow> (\<And>x. m' = Inr x \<Longrightarrow> f x = f' x) \<Longrightarrow> and_then m f = and_then m' f'"
  by (cases m') auto

lemma if_Inl_eq_Inr [simp]: "(if b then Inl e else r) = Inr y \<longleftrightarrow> \<not> b \<and> r = Inr y"
  by simp

lemma Inr_exI: "m \<noteq> Inl e \<Longrightarrow> (\<And>e. m \<noteq> Inl e) \<Longrightarrow> \<exists>x. m = Inr x"
  by (cases m) auto

section \<open>Lists\<close>

lemma takeWhile_append_stop:
  "rest = [] \<or> \<not> P (hd rest) \<Longrightarrow> takeWhile P (xs @ rest) = takeWhile P xs"
  by (induction xs) (auto simp: takeWhile_eq_Nil_iff)

lemma dropWhile_append_stop:
  "rest = [] \<or> \<not> P (hd rest) \<Longrightarrow> dropWhile P (xs @ rest) = dropWhile P xs @ rest"
proof (induction xs)
  case Nil
  then show ?case by (cases rest) auto
qed auto

text \<open>\<open>strings.Join\<close> for the pieces of an encoded array or object.\<close>

fun join :: "string \<Rightarrow> string list \<Rightarrow> string" where
  "join sep [] = []"
| "join sep [x] = x"
| "join sep (x # y # zs) = x @ sep @ join sep (y # zs)"

lemma join_Cons: "join sep (x # xs) = x @ (if xs = [] then [] else sep @ join sep xs)"
  by (cases xs) auto

section \<open>Decimal text\<close>

definition is_digit :: "char \<Rightarrow> bool" where
  "is_digit c \<longleftrightarrow> CHR ''0'' \<le> c \<and> c \<le> CHR ''9''"

definition digit_char :: "nat \<Rightarrow> char" where
  "digit_char d = char_of (48 + d mod 10)"

definition digit_val :: "char \<Rightarrow> nat" where
  "digit_val c = of_char c - 48"

text \<open>\<open>strconv.FormatUint(n, 10)\<close>.\<close>

fun dec_nat :: "nat \<Rightarrow> string" where
  "dec_nat n = (if n < 10 then [digit_char n] else dec_nat (n div 10) @ [digit_char n])"

declare dec_nat.simps [simp del]

definition dec_int :: "int \<Rightarrow> string" where
  "dec_int i = (if i < 0 then CHR ''-'' # dec_nat (nat (- i)) else dec_nat (nat i))"

definition digits_val :: "string \<Rightarrow> nat" where
  "digits_val s = foldl (\<lambda>n c. 10 * n + digit_val c) 0 s"

text \<open>\<open>strconv.ParseUint(s, 10, 64)\<close> and \<open>strconv.ParseInt(s, 10, 64)\<close>.\<close>

definition parse_uint :: "string \<Rightarrow> nat option" where
  "parse_uint s = (if s \<noteq> [] \<and> list_all is_digit s \<and> digits_val s < 2 ^ 64
     then Some (digits_val s) else None)"

definition parse_int :: "string \<Rightarrow> int option" where
  "parse_int s = (case s of [] \<Rightarrow> None
     | c # t \<Rightarrow>
       let neg = (c = CHR ''-''); ds = (if neg \<or> c = CHR ''+'' then t else s)
       in if ds \<noteq> [] \<and> list_all is_digit ds
             \<and> (if neg then digits_val ds \<le> 2 ^ 63 else digits_val ds < 2 ^ 63)
          then Some (if neg then - int (digits_val ds) else int (digits_val ds)) else None)"

lemma of_char_digit [simp]: "of_char (digit_char d) = (48 + d mod 10 :: nat)"
  by (simp add: digit_char_def)

lemma is_digit_of_char: "is_digit c \<longleftrightarrow> 48 \<le> (of_char c :: nat) \<and> (of_char c :: nat) \<le> 57"
  by (simp add: is_digit_def less_eq_char_def)

lemma is_digit_digit_char [simp]: "is_digit (digit_char d)"
  by (simp add: is_digit_of_char)

lemma digit_val_digit_char [simp]: "digit_val (digit_char d) = d mod 10"
  by (simp add: digit_val_def)

lemma dec_nat_nonempty [simp]: "dec_nat n \<noteq> []"
  by (subst dec_nat.simps) simp

lemma dec_nat_digits: "list_all is_digit (dec_nat n)"
proof (induction n rule: dec_nat.induct)
  case (1 n)
  then show ?case by (subst dec_nat.simps) simp
qed

lemma digits_val_snoc: "digits_val (s @ [c]) = 10 * digits_val s + digit_val c"
  by (simp add: digits_val_def)

lemma digits_val_dec_nat [simp]: "digits_val (dec_nat n) = n"
proof (induction n rule: dec_nat.induct)
  case (1 n)
  show ?case
  proof (cases "n < 10")
    case True
    then show ?thesis by (subst dec_nat.simps) (simp add: digits_val_def)
  next
    case False
    with 1 show ?thesis by (subst dec_nat.simps) (simp add: digits_val_snoc)
  qed
qed

lemma dec_nat_inject [simp]: "dec_nat m = dec_nat n \<longleftrightarrow> m = n"
  by (metis digits_val_dec_nat)

lemma parse_uint_dec_nat: "n < 2 ^ 64 \<Longrightarrow> parse_uint (dec_nat n) = Some n"
  by (simp add: parse_uint_def dec_nat_digits)

lemma parse_uint_dec_word [simp]: "parse_uint (dec_nat (unat (w :: 64 word))) = Some (unat w)"
  using unsigned_less [of w] by (intro parse_uint_dec_nat) simp

lemma dec_nat_hd: "is_digit (hd (dec_nat n))"
  using dec_nat_digits [of n] by (cases "dec_nat n") auto

lemma dec_nat_first: "dec_nat n = c # t \<Longrightarrow> is_digit c"
  using dec_nat_hd [of n] by simp

lemma parse_int_dec_nat: "n < 2 ^ 63 \<Longrightarrow> parse_int (dec_nat n) = Some (int n)"
proof -
  assume n: "n < 2 ^ 63"
  obtain c t where ct: "dec_nat n = c # t" by (cases "dec_nat n") auto
  then have "is_digit c" by (rule dec_nat_first)
  then have "c \<noteq> CHR ''-''" "c \<noteq> CHR ''+''" by (auto simp: is_digit_of_char)
  then show ?thesis
    using n dec_nat_digits [of n] digits_val_dec_nat [of n]
    by (simp add: parse_int_def ct)
qed

end
