(* ===== verification/Kernel_Sensor.thy ===== *)
theory Kernel_Sensor
  imports Prelude
begin

text \<open>
  \<open>internal/sensor/sensor_linux.go\<close>: decoding of kernel records, the reading loop, the loss counters,
  and \<open>Open\<close> and \<open>Close\<close>. The kernel and the packages \<open>ebpf\<close>, \<open>link\<close> and \<open>ringbuf\<close> are outside of
  the repository: what their calls answer is a parameter (\<open>ebpf\<close>, the outcomes of polls, the
  per-CPU values of a map). \<open>Open\<close> returns beside its result what it acquired and released, in order.
\<close>

definition commLength :: nat where "commLength = 16"
definition pathLength :: nat where "pathLength = 256"

definition EventExec :: uint32 where "EventExec = 1"
definition EventOpen :: uint32 where "EventOpen = 2"
definition EventSensitive :: uint32 where "EventSensitive = 3"
definition EventConnect4 :: uint32 where "EventConnect4 = 4"

lemmas event_kinds = EventExec_def EventOpen_def EventSensitive_def EventConnect4_def

record KernelEvent =
  ke_MonotonicNS :: uint64
  ke_CgroupID :: uint64
  ke_StartTimeNS :: uint64
  ke_ParentStartTimeNS :: uint64
  ke_PID :: uint32
  ke_TGID :: uint32
  ke_PPID :: uint32
  ke_UID :: uint32
  ke_GID :: uint32
  ke_PIDNamespace :: uint32
  ke_MountNamespace :: uint32
  ke_ParentPIDNamespace :: uint32
  ke_Kind :: uint32
  ke_Flags :: uint32
  ke_DestinationIPv4 :: uint32
  ke_DestinationPort :: uint32
  ke_Protocol :: uint32
  ke_Command :: string
  ke_Filename :: string

record wireExecEvent =
  wi_MonotonicNS :: uint64
  wi_CgroupID :: uint64
  wi_StartTimeNS :: uint64
  wi_ParentStartTimeNS :: uint64
  wi_PID :: uint32
  wi_TGID :: uint32
  wi_PPID :: uint32
  wi_UID :: uint32
  wi_GID :: uint32
  wi_PIDNamespace :: uint32
  wi_MountNamespace :: uint32
  wi_ParentPIDNamespace :: uint32
  wi_Kind :: uint32
  wi_Flags :: uint32
  wi_DestinationIPv4 :: uint32
  wi_DestinationPort :: uint32
  wi_Protocol :: uint32
  wi_Command :: bytes
  wi_Filename :: bytes
  wi_Padding :: bytes

section \<open>Records of the ring buffer\<close>

text \<open>\<open>binary.LittleEndian\<close>.\<close>

fun le_nat :: "bytes \<Rightarrow> nat" where
  "le_nat [] = 0"
| "le_nat (c # s) = of_char c + 256 * le_nat s"

fun le_bytes :: "nat \<Rightarrow> nat \<Rightarrow> bytes" where
  "le_bytes 0 k = []"
| "le_bytes (Suc n) k = char_of (k mod 256) # le_bytes n (k div 256)"

text \<open>The field of \<open>n\<close> bytes at an offset.\<close>

definition bytes_at :: "bytes \<Rightarrow> nat \<Rightarrow> nat \<Rightarrow> bytes" where
  "bytes_at raw offset n = take n (drop offset raw)"

definition uint64_at :: "bytes \<Rightarrow> nat \<Rightarrow> uint64" where
  "uint64_at raw offset = of_nat (le_nat (bytes_at raw offset 8))"

definition uint32_at :: "bytes \<Rightarrow> nat \<Rightarrow> uint32" where
  "uint32_at raw offset = of_nat (le_nat (bytes_at raw offset 4))"

text \<open>\<open>binary.Size\<close> of a record, and \<open>binary.Read\<close> of one.\<close>

definition wire_size :: nat where
  "wire_size = 4 * 8 + 13 * 4 + commLength + pathLength + 4"

definition read_wire :: "bytes \<Rightarrow> wireExecEvent" where
  "read_wire raw =
     \<lparr>wi_MonotonicNS = uint64_at raw 0, wi_CgroupID = uint64_at raw 8,
      wi_StartTimeNS = uint64_at raw 16, wi_ParentStartTimeNS = uint64_at raw 24,
      wi_PID = uint32_at raw 32, wi_TGID = uint32_at raw 36, wi_PPID = uint32_at raw 40,
      wi_UID = uint32_at raw 44, wi_GID = uint32_at raw 48,
      wi_PIDNamespace = uint32_at raw 52, wi_MountNamespace = uint32_at raw 56,
      wi_ParentPIDNamespace = uint32_at raw 60, wi_Kind = uint32_at raw 64, wi_Flags = uint32_at raw 68,
      wi_DestinationIPv4 = uint32_at raw 72, wi_DestinationPort = uint32_at raw 76,
      wi_Protocol = uint32_at raw 80, wi_Command = bytes_at raw 84 commLength,
      wi_Filename = bytes_at raw 100 pathLength, wi_Padding = bytes_at raw 356 4\<rparr>"

definition IndexByte :: "bytes \<Rightarrow> char \<Rightarrow> nat option" where
  "IndexByte s c = (if c \<in> set s then Some (length (takeWhile (\<lambda>x. x \<noteq> c) s)) else None)"

definition cString :: "bytes \<Rightarrow> string" where
  "cString s = (case IndexByte s (CHR 0x00) of Some index \<Rightarrow> take index s | None \<Rightarrow> s)"

definition kernel_event :: "wireExecEvent \<Rightarrow> KernelEvent" where
  "kernel_event wire =
     \<lparr>ke_MonotonicNS = wi_MonotonicNS wire, ke_CgroupID = wi_CgroupID wire,
      ke_StartTimeNS = wi_StartTimeNS wire, ke_ParentStartTimeNS = wi_ParentStartTimeNS wire,
      ke_PID = wi_PID wire, ke_TGID = wi_TGID wire, ke_PPID = wi_PPID wire,
      ke_UID = wi_UID wire, ke_GID = wi_GID wire,
      ke_PIDNamespace = wi_PIDNamespace wire, ke_MountNamespace = wi_MountNamespace wire,
      ke_ParentPIDNamespace = wi_ParentPIDNamespace wire, ke_Kind = wi_Kind wire, ke_Flags = wi_Flags wire,
      ke_DestinationIPv4 = wi_DestinationIPv4 wire, ke_DestinationPort = wi_DestinationPort wire,
      ke_Protocol = wi_Protocol wire, ke_Command = cString (wi_Command wire),
      ke_Filename = cString (wi_Filename wire)\<rparr>"

definition decodeEvent :: "bytes \<Rightarrow> KernelEvent result" where
  "decodeEvent raw =
     (if length raw \<noteq> wire_size then Inl (SensorErr (SampleSize (length raw)))
      else
        (let wire = read_wire raw in
         if wi_Kind wire \<noteq> EventExec \<and> wi_Kind wire \<noteq> EventOpen \<and> wi_Kind wire \<noteq> EventSensitive \<and>
            wi_Kind wire \<noteq> EventConnect4 then
           Inl (SensorErr (UnsupportedKind (wi_Kind wire)))
         else Inr (kernel_event wire)))"

section \<open>Read\<close>

text \<open>
  The sensor: which of its parts it has, the links by the program they attach.
\<close>

record Monitor =
  mo_collection :: bool
  mo_links :: "string list"
  mo_reader :: bool

text \<open>
  One round of \<open>Read\<close>: whether the context is done when it starts, the time, and what the ring
  buffer answers when it waits up to a deadline. The deadline is 250 ms from now or the context's,
  whichever is earlier.
\<close>

datatype ring = DeadlineExceeded | RingFailed | Sample bytes

record poll =
  pl_done :: bool
  pl_now :: int
  pl_ring :: "int \<Rightarrow> ring"

datatype read_error = NotOpen | ContextDone | RingError | SampleError gerr

definition read_deadline :: "int \<Rightarrow> int option \<Rightarrow> int" where
  "read_deadline now contextDeadline =
     (case contextDeadline of
        Some d \<Rightarrow> if d < now + 250000000 then d else now + 250000000
      | None \<Rightarrow> now + 250000000)"

text \<open>The loop. \<open>None\<close>: still waiting when the rounds given are used up.\<close>

fun read_loop :: "int option \<Rightarrow> poll list \<Rightarrow> ((read_error + KernelEvent) \<times> poll list) option" where
  "read_loop contextDeadline [] = None"
| "read_loop contextDeadline (p # ps) =
     (if pl_done p then Some (Inl ContextDone, ps)
      else
        (case pl_ring p (read_deadline (pl_now p) contextDeadline) of
           DeadlineExceeded \<Rightarrow> read_loop contextDeadline ps
         | RingFailed \<Rightarrow> Some (Inl RingError, ps)
         | Sample raw \<Rightarrow>
             Some (case decodeEvent raw of Inl e \<Rightarrow> Inl (SampleError e) | Inr event \<Rightarrow> Inr event, ps)))"

definition Read ::
  "Monitor option \<Rightarrow> int option \<Rightarrow> poll list \<Rightarrow> ((read_error + KernelEvent) \<times> poll list) option" where
  "Read sensor contextDeadline polls =
     (case sensor of
        None \<Rightarrow> Some (Inl NotOpen, polls)
      | Some m \<Rightarrow>
          if \<not> mo_reader m then Some (Inl NotOpen, polls) else read_loop contextDeadline polls)"

section \<open>Loss\<close>

record LossCounters =
  lo_RingBuffer :: uint64
  lo_Correlation :: uint64
  lo_PathRead :: uint64
  lo_MapUpdate :: uint64
  lo_CgroupMismatch :: uint64

definition zero_counters :: LossCounters where
  "zero_counters = \<lparr>lo_RingBuffer = 0, lo_Correlation = 0, lo_PathRead = 0, lo_MapUpdate = 0, lo_CgroupMismatch = 0\<rparr>"

datatype loss_error = LossNotOpen | NoMap string | LookupFailed string

text \<open>
  The maps of a collection by name: \<open>None\<close> when the object has no such map, \<open>Some None\<close> when the lookup
  fails, else the values of all CPUs.
\<close>

type_synonym bpf_maps = "string \<Rightarrow> uint64 list option option"

definition read_counter :: "bpf_maps \<Rightarrow> string \<Rightarrow> loss_error + uint64" where
  "read_counter maps name =
     (case maps name of
        None \<Rightarrow> Inl (NoMap name)
      | Some None \<Rightarrow> Inl (LookupFailed name)
      | Some (Some perCPU) \<Rightarrow> Inr (foldl (+) 0 perCPU))"

definition Loss_of :: "bpf_maps option \<Rightarrow> loss_error + LossCounters" where
  "Loss_of collection =
     (case collection of
        None \<Rightarrow> Inl LossNotOpen
      | Some maps \<Rightarrow>
          (case read_counter maps ''ringbuf_drops'' of
             Inl e \<Rightarrow> Inl e
           | Inr ring \<Rightarrow>
          (case read_counter maps ''correlation_drops'' of
             Inl e \<Rightarrow> Inl e
           | Inr correlation \<Rightarrow>
          (case read_counter maps ''path_read_drops'' of
             Inl e \<Rightarrow> Inl e
           | Inr pathRead \<Rightarrow>
          (case read_counter maps ''map_update_drops'' of
             Inl e \<Rightarrow> Inl e
           | Inr mapUpdate \<Rightarrow>
          (case read_counter maps ''cgroup_mismatch_drops'' of
             Inl e \<Rightarrow> Inl e
           | Inr cgroupMismatch \<Rightarrow>
               Inr \<lparr>lo_RingBuffer = ring, lo_Correlation = correlation, lo_PathRead = pathRead,
                 lo_MapUpdate = mapUpdate, lo_CgroupMismatch = cgroupMismatch\<rparr>))))))"

section \<open>Open and Close\<close>

record Config =
  cf_CgroupID :: uint64
  cf_CgroupPath :: string
  cf_SensitivePath :: string

datatype open_error =
    ZeroCgroup | EmptyCgroupPath | StatFailed | CgroupMismatch | SensitivePathTooLong
  | LoadSpec | NoVariable string | SetVariable string | LoadCollection
  | NoProgram string | AttachFailed string | NoEventsMap | OpenRing

text \<open>
  What the operating system and the BPF packages answer: the inode of a path, whether the object
  loads, its variables with the answer of \<open>Set\<close>, the programs it has, which attachments succeed.
\<close>

record ebpf =
  eb_stat :: "string \<Rightarrow> uint64 option"
  eb_spec :: bool
  eb_variables :: "string \<Rightarrow> bool option"
  eb_collection :: bool
  eb_programs :: "string \<Rightarrow> bool"
  eb_tracepoint :: "string \<Rightarrow> string \<Rightarrow> bool"
  eb_cgroup :: bool
  eb_events :: bool
  eb_ring :: bool

text \<open>What \<open>Open\<close> holds: the collection, a link per program, the reader.\<close>

datatype held = Collection | Link string | Reader
datatype action = SetVar string bytes | Acquire held | Release held

definition tracepoints :: "(string \<times> string \<times> string) list" where
  "tracepoints =
     [(''sched'', ''sched_process_exec'', ''observe_exec''),
      (''syscalls'', ''sys_enter_openat'', ''observe_openat_enter''),
      (''syscalls'', ''sys_exit_openat'', ''observe_openat_exit'')]"

definition attach :: "ebpf \<Rightarrow> string \<times> string \<times> string \<Rightarrow> open_error option" where
  "attach env target =
     (case target of (category, name, programName) \<Rightarrow>
        if \<not> eb_programs env programName then Some (NoProgram programName)
        else if \<not> eb_tracepoint env category name then Some (AttachFailed programName)
        else None)"

fun attach_all :: "ebpf \<Rightarrow> (string \<times> string \<times> string) list \<Rightarrow> string list \<Rightarrow> open_error option \<times> string list" where
  "attach_all env [] links = (None, links)"
| "attach_all env (target # targets) links =
     (case attach env target of
        Some e \<Rightarrow> (Some e, links)
      | None \<Rightarrow> attach_all env targets (links @ [snd (snd target)]))"

text \<open>\<open>closeLinks\<close> closes every link, whatever the answers.\<close>

definition closeLinks :: "string list \<Rightarrow> action list" where
  "closeLinks links = map (\<lambda>l. Release (Link l)) links"

definition acquire_links :: "string list \<Rightarrow> action list" where
  "acquire_links links = map (\<lambda>l. Acquire (Link l)) links"

text \<open>The bytes of the sensitive path, \<open>copy(sensitivePath[:], config.SensitivePath)\<close>.\<close>

definition padded_path :: "string \<Rightarrow> bytes" where
  "padded_path path = take pathLength (path @ replicate pathLength (CHR 0x00))"

text \<open>\<open>Open\<close> from the loaded collection on: the links, the events map and the reader.\<close>

definition open_collection :: "ebpf \<Rightarrow> (open_error + Monitor) \<times> action list" where
  "open_collection env =
     (case attach_all env tracepoints [] of
        (Some e, links) \<Rightarrow> (Inl e, acquire_links links @ closeLinks links @ [Release Collection])
      | (None, links) \<Rightarrow>
          (let got = acquire_links links; back = closeLinks links @ [Release Collection] in
           if \<not> eb_programs env ''observe_connect4'' then (Inl (NoProgram ''observe_connect4''), got @ back)
           else if \<not> eb_cgroup env then (Inl (AttachFailed ''observe_connect4''), got @ back)
           else
             (let links = links @ [''observe_connect4''];
                  got = acquire_links links; back = closeLinks links @ [Release Collection] in
              if \<not> eb_events env then (Inl NoEventsMap, got @ back)
              else if \<not> eb_ring env then (Inl OpenRing, got @ back)
              else (Inr \<lparr>mo_collection = True, mo_links = links, mo_reader = True\<rparr>, got @ [Acquire Reader]))))"

definition Open :: "ebpf \<Rightarrow> Config \<Rightarrow> (open_error + Monitor) \<times> action list" where
  "Open env config =
     (if cf_CgroupID config = 0 then (Inl ZeroCgroup, [])
      else if cf_CgroupPath config = [] then (Inl EmptyCgroupPath, [])
      else
        (case eb_stat env (cf_CgroupPath config) of
           None \<Rightarrow> (Inl StatFailed, [])
         | Some inode \<Rightarrow>
             if inode \<noteq> cf_CgroupID config then (Inl CgroupMismatch, [])
             else if length (cf_SensitivePath config) \<ge> pathLength then (Inl SensitivePathTooLong, [])
             else if \<not> eb_spec env then (Inl LoadSpec, [])
             else
               (case eb_variables env ''target_cgroup_id'' of
                  None \<Rightarrow> (Inl (NoVariable ''target_cgroup_id''), [])
                | Some False \<Rightarrow> (Inl (SetVariable ''target_cgroup_id''), [])
                | Some True \<Rightarrow>
                    (let set1 = SetVar ''target_cgroup_id'' (le_bytes 8 (unat (cf_CgroupID config))) in
                     case eb_variables env ''target_sensitive_path'' of
                       None \<Rightarrow> (Inl (NoVariable ''target_sensitive_path''), [set1])
                     | Some False \<Rightarrow> (Inl (SetVariable ''target_sensitive_path''), [set1])
                     | Some True \<Rightarrow>
                         (let sets = [set1, SetVar ''target_sensitive_path'' (padded_path (cf_SensitivePath config))] in
                          if \<not> eb_collection env then (Inl LoadCollection, sets)
                          else (case open_collection env of
                                  (r, actions) \<Rightarrow> (r, sets @ Acquire Collection # actions)))))))"

text \<open>
  \<open>Close\<close>: the reader, the links, the collection; the errors of the closed are joined. \<open>fails\<close> says
  which of them answers with an error.
\<close>

definition Close_monitor :: "(held \<Rightarrow> bool) \<Rightarrow> Monitor option \<Rightarrow> held list \<times> action list" where
  "Close_monitor fails sensor =
     (case sensor of
        None \<Rightarrow> ([], [])
      | Some m \<Rightarrow>
          ((if mo_reader m then filter fails [Reader] else []) @ filter fails (map Link (mo_links m)),
           (if mo_reader m then [Release Reader] else []) @ closeLinks (mo_links m) @
           (if mo_collection m then [Release Collection] else [])))"

section \<open>Decoding\<close>

lemma length_le_bytes [simp]: "length (le_bytes n k) = n"
  by (induction n arbitrary: k) simp_all

lemma le_nat_bytes: "le_nat (le_bytes n k) = k mod 256 ^ n"
proof (induction n arbitrary: k)
  case (Suc n)
  have "(of_char (char_of (k mod 256) :: char) :: nat) = k mod 256" by (simp add: of_char_mod_256)
  then have "le_nat (le_bytes (Suc n) k) = k mod 256 + 256 * (k div 256 mod 256 ^ n)" by (simp add: Suc)
  also have "\<dots> = k mod 256 ^ Suc n" by (simp add: mod_mult2_eq)
  finally show ?case .
qed simp

lemma word_of_le_bytes [simp]:
  "of_nat (le_nat (le_bytes 8 (unat (w :: uint64)))) = w" "of_nat (le_nat (le_bytes 4 (unat (v :: uint32)))) = v"
proof -
  have "unat w < 256 ^ 8" "unat v < 256 ^ 4" using unsigned_less [of w] unsigned_less [of v] by simp_all
  then show "of_nat (le_nat (le_bytes 8 (unat w))) = w" "of_nat (le_nat (le_bytes 4 (unat v))) = v"
    by (simp_all add: le_nat_bytes)
qed

text \<open>A record as the kernel writes it.\<close>

definition write_wire :: "wireExecEvent \<Rightarrow> bytes" where
  "write_wire w =
     le_bytes 8 (unat (wi_MonotonicNS w)) @ le_bytes 8 (unat (wi_CgroupID w)) @
     le_bytes 8 (unat (wi_StartTimeNS w)) @ le_bytes 8 (unat (wi_ParentStartTimeNS w)) @
     le_bytes 4 (unat (wi_PID w)) @ le_bytes 4 (unat (wi_TGID w)) @ le_bytes 4 (unat (wi_PPID w)) @
     le_bytes 4 (unat (wi_UID w)) @ le_bytes 4 (unat (wi_GID w)) @
     le_bytes 4 (unat (wi_PIDNamespace w)) @ le_bytes 4 (unat (wi_MountNamespace w)) @
     le_bytes 4 (unat (wi_ParentPIDNamespace w)) @ le_bytes 4 (unat (wi_Kind w)) @ le_bytes 4 (unat (wi_Flags w)) @
     le_bytes 4 (unat (wi_DestinationIPv4 w)) @ le_bytes 4 (unat (wi_DestinationPort w)) @
     le_bytes 4 (unat (wi_Protocol w)) @ wi_Command w @ wi_Filename w @ wi_Padding w"

definition wire_ok :: "wireExecEvent \<Rightarrow> bool" where
  "wire_ok w \<longleftrightarrow> length (wi_Command w) = commLength \<and> length (wi_Filename w) = pathLength \<and> length (wi_Padding w) = 4"

lemma read_write_wire: "wire_ok w \<Longrightarrow> read_wire (write_wire w) = w"
  by (cases w)
    (simp add: wire_ok_def read_wire_def write_wire_def uint64_at_def uint32_at_def bytes_at_def commLength_def pathLength_def)

lemma length_write_wire: "wire_ok w \<Longrightarrow> length (write_wire w) = wire_size"
  by (simp add: wire_ok_def write_wire_def wire_size_def)

definition known_kinds :: "uint32 set" where
  "known_kinds = {EventExec, EventOpen, EventSensitive, EventConnect4}"

lemma decodeEvent_ok_iff:
  "decodeEvent raw = Inr e \<longleftrightarrow>
   length raw = wire_size \<and> wi_Kind (read_wire raw) \<in> known_kinds \<and> e = kernel_event (read_wire raw)"
  by (auto simp: decodeEvent_def Let_def known_kinds_def)

lemma takeWhile_all: "c \<notin> set s \<Longrightarrow> takeWhile (\<lambda>x. x \<noteq> c) s = s"
  by (induction s) auto

lemma cString_eq: "cString s = takeWhile (\<lambda>c. c \<noteq> CHR 0x00) s"
proof (cases "CHR 0x00 \<in> set s")
  case True
  have "take (length (takeWhile P s)) s = takeWhile P s" for P by (simp add: takeWhile_eq_take [symmetric])
  with True show ?thesis by (simp add: cString_def IndexByte_def)
next
  case False
  then show ?thesis by (simp add: cString_def IndexByte_def takeWhile_all)
qed

lemma cString_no_NUL: "CHR 0x00 \<notin> set (cString s)"
  by (auto simp: cString_eq dest: set_takeWhileD)

lemma length_cString: "length (cString s) \<le> length s"
  by (simp add: cString_eq length_takeWhile_le)

lemma cString_padded:
  assumes "CHR 0x00 \<notin> set path" "length path < pathLength"
  shows "cString (padded_path path) = path"
proof -
  have "padded_path path = path @ CHR 0x00 # replicate (pathLength - length path - 1) (CHR 0x00)"
    using assms(2) by (cases "pathLength - length path") (auto simp: padded_path_def take_Cons' replicate_Suc [symmetric] simp del: replicate_Suc)
  then show ?thesis
    using assms(1) by (simp add: cString_eq takeWhile_append_stop takeWhile_all)
qed

text \<open>Every buffer of the right size is the record that it is read as.\<close>

lemma le_bytes_nat: "le_bytes (length s) (le_nat s) = s"
  by (induction s) simp_all

lemma le_nat_less: "le_nat s < 256 ^ length s"
proof (induction s)
  case (Cons c s)
  have "(of_char c :: nat) < 256" by (rule nat_of_char_less_256)
  then show ?case using Cons unfolding le_nat.simps length_Cons power_Suc by linarith
qed simp

lemma le_bytes_word:
  "length s = 8 \<Longrightarrow> le_bytes 8 (unat (of_nat (le_nat s) :: uint64)) = s"
  "length s = 4 \<Longrightarrow> le_bytes 4 (unat (of_nat (le_nat s) :: uint32)) = s"
  using le_nat_less [of s] le_bytes_nat [of s] by (simp_all add: unat_of_nat)

lemma take_bytes_at: "n + k \<le> length raw \<Longrightarrow> take (n + k) raw = take n raw @ bytes_at raw n k"
  by (simp add: bytes_at_def take_add)

lemma write_read_wire:
  assumes "length raw = wire_size"
  shows "write_wire (read_wire raw) = raw \<and> wire_ok (read_wire raw)"
proof -
  have l: "length raw = 360" using assms by (simp add: wire_size_def commLength_def pathLength_def)
  have at: "length (bytes_at raw n k) = k" if "n + k \<le> 360" for n k using that l by (simp add: bytes_at_def)
  have "raw = take 360 raw" using l by simp
  also have "\<dots> = bytes_at raw 0 8 @ bytes_at raw 8 8 @ bytes_at raw 16 8 @ bytes_at raw 24 8 @
      bytes_at raw 32 4 @ bytes_at raw 36 4 @ bytes_at raw 40 4 @ bytes_at raw 44 4 @ bytes_at raw 48 4 @
      bytes_at raw 52 4 @ bytes_at raw 56 4 @ bytes_at raw 60 4 @ bytes_at raw 64 4 @ bytes_at raw 68 4 @
      bytes_at raw 72 4 @ bytes_at raw 76 4 @ bytes_at raw 80 4 @ bytes_at raw 84 16 @ bytes_at raw 100 256 @
      bytes_at raw 356 4"
    using take_bytes_at [of 0 8 raw] take_bytes_at [of 8 8 raw] take_bytes_at [of 16 8 raw] take_bytes_at [of 24 8 raw]
      take_bytes_at [of 32 4 raw] take_bytes_at [of 36 4 raw] take_bytes_at [of 40 4 raw] take_bytes_at [of 44 4 raw]
      take_bytes_at [of 48 4 raw] take_bytes_at [of 52 4 raw] take_bytes_at [of 56 4 raw] take_bytes_at [of 60 4 raw]
      take_bytes_at [of 64 4 raw] take_bytes_at [of 68 4 raw] take_bytes_at [of 72 4 raw] take_bytes_at [of 76 4 raw]
      take_bytes_at [of 80 4 raw] take_bytes_at [of 84 16 raw] take_bytes_at [of 100 256 raw] take_bytes_at [of 356 4 raw] l
    by simp
  finally have r: "raw = \<dots>" .
  have "write_wire (read_wire raw) = \<dots>"
    by (simp add: write_wire_def read_wire_def uint64_at_def uint32_at_def le_bytes_word at commLength_def pathLength_def)
  moreover have "wire_ok (read_wire raw)"
    by (simp add: wire_ok_def read_wire_def at commLength_def pathLength_def)
  ultimately show ?thesis using r by simp
qed

text \<open>Every record the kernel writes is read back; text up to the first NUL.\<close>

lemma decodeEvent_write_wire:
  "wire_ok w \<Longrightarrow> decodeEvent (write_wire w) =
     (if wi_Kind w \<in> known_kinds then Inr (kernel_event w) else Inl (SensorErr (UnsupportedKind (wi_Kind w))))"
  by (auto simp: decodeEvent_def Let_def known_kinds_def length_write_wire read_write_wire)

section \<open>The reading loop\<close>

text \<open>A round that does not end \<open>Read\<close>, and the answer of one that does.\<close>

definition idle :: "int option \<Rightarrow> poll \<Rightarrow> bool" where
  "idle deadline p \<longleftrightarrow> \<not> pl_done p \<and> pl_ring p (read_deadline (pl_now p) deadline) = DeadlineExceeded"

definition answer :: "int option \<Rightarrow> poll \<Rightarrow> read_error + KernelEvent" where
  "answer deadline p =
     (if pl_done p then Inl ContextDone
      else (case pl_ring p (read_deadline (pl_now p) deadline) of
              Sample raw \<Rightarrow> (case decodeEvent raw of Inl e \<Rightarrow> Inl (SampleError e) | Inr event \<Rightarrow> Inr event)
            | _ \<Rightarrow> Inl RingError))"

lemma read_loop_eq:
  "read_loop deadline ps =
     (case dropWhile (idle deadline) ps of [] \<Rightarrow> None | p # rest \<Rightarrow> Some (answer deadline p, rest))"
  by (induction ps) (auto simp: idle_def answer_def split: ring.splits)

lemma read_deadline_bounds:
  "read_deadline now deadline \<le> now + 250000000" "deadline = Some d \<Longrightarrow> read_deadline now deadline \<le> d"
  by (auto simp: read_deadline_def split: option.splits)

lemma answer_Inr:
  "answer deadline p = Inr event \<longleftrightarrow>
   (\<exists>raw. \<not> pl_done p \<and> pl_ring p (read_deadline (pl_now p) deadline) = Sample raw \<and> decodeEvent raw = Inr event)"
  by (auto simp: answer_def split: ring.splits sum.splits)

lemma answer_ContextDone: "answer deadline p = Inl ContextDone \<longleftrightarrow> pl_done p"
  by (auto simp: answer_def split: ring.splits sum.splits)

section \<open>Loss counters\<close>

lemma foldl_add_word: "unat (foldl (+) (a :: uint64) ws) = (unat a + sum_list (map unat ws)) mod 2 ^ 64"
proof (induction ws arbitrary: a)
  case Nil
  have "unat a < 2 ^ 64" using unsigned_less [of a] by simp
  then show ?case by simp
next
  case (Cons w ws)
  then show ?case by (simp add: unat_word_ariths mod_simps add.assoc)
qed

lemma read_counter_ok_iff:
  "read_counter maps name = Inr w \<longleftrightarrow>
   (\<exists>perCPU. maps name = Some (Some perCPU) \<and> unat w = sum_list (map unat perCPU) mod 2 ^ 64)"
  using foldl_add_word [of 0] by (auto simp: read_counter_def word_unat_eq_iff split: option.splits)

lemma Loss_of_ok_iff:
  "Loss_of collection = Inr l \<longleftrightarrow>
   (\<exists>maps. collection = Some maps \<and> read_counter maps ''ringbuf_drops'' = Inr (lo_RingBuffer l) \<and>
      read_counter maps ''correlation_drops'' = Inr (lo_Correlation l) \<and>
      read_counter maps ''path_read_drops'' = Inr (lo_PathRead l) \<and>
      read_counter maps ''map_update_drops'' = Inr (lo_MapUpdate l) \<and>
      read_counter maps ''cgroup_mismatch_drops'' = Inr (lo_CgroupMismatch l))"
  by (auto simp: Loss_of_def split: option.splits sum.splits)

section \<open>What Open and Close hold\<close>

text \<open>
  The things held after a list of actions: \<open>None\<close> when it acquires something twice or releases
  something it does not hold.
\<close>

fun holds :: "held set \<Rightarrow> action list \<Rightarrow> held set option" where
  "holds H [] = Some H"
| "holds H (SetVar v b # as) = holds H as"
| "holds H (Acquire h # as) = (if h \<in> H then None else holds (insert h H) as)"
| "holds H (Release h # as) = (if h \<in> H then holds (H - {h}) as else None)"

lemma holds_append: "holds H (as @ bs) = (case holds H as of None \<Rightarrow> None | Some H' \<Rightarrow> holds H' bs)"
  by (induction H as rule: holds.induct) auto

lemma holds_acquire:
  "distinct ls \<Longrightarrow> Link ` set ls \<inter> H = {} \<Longrightarrow> holds H (acquire_links ls) = Some (Link ` set ls \<union> H)"
proof (induction ls arbitrary: H)
  case (Cons l ls)
  from Cons.prems have "Link ` set ls \<inter> insert (Link l) H = {}" by auto
  from Cons.IH [OF _ this] Cons.prems show ?case by (simp add: acquire_links_def insert_commute)
qed (simp add: acquire_links_def)

lemma holds_close:
  "distinct ls \<Longrightarrow> Link ` set ls \<subseteq> H \<Longrightarrow> holds H (closeLinks ls) = Some (H - Link ` set ls)"
proof (induction ls arbitrary: H)
  case (Cons l ls)
  from Cons.prems have "Link ` set ls \<subseteq> H - {Link l}" by auto
  from Cons.IH [OF _ this] Cons.prems have "holds (H - {Link l}) (closeLinks ls) = Some (H - {Link l} - Link ` set ls)"
    by simp
  moreover have "H - {Link l} - Link ` set ls = H - insert (Link l) (Link ` set ls)" by auto
  ultimately show ?case using Cons.prems by (simp add: closeLinks_def)
qed (simp add: closeLinks_def)

text \<open>The part of \<open>Open\<close> that gives everything back: links acquired, then closed, then the collection.\<close>

lemma holds_back:
  "distinct ls \<Longrightarrow> holds {Collection} (acquire_links ls @ closeLinks ls @ [Release Collection]) = Some {}"
proof -
  assume d: "distinct ls"
  have "holds {Collection} (acquire_links ls) = Some (Link ` set ls \<union> {Collection})"
    by (rule holds_acquire [OF d]) auto
  moreover have "holds (Link ` set ls \<union> {Collection}) (closeLinks ls) = Some (Link ` set ls \<union> {Collection} - Link ` set ls)"
    by (rule holds_close [OF d]) auto
  moreover have "Link ` set ls \<union> {Collection} - Link ` set ls = {Collection}" by auto
  ultimately show ?thesis by (simp add: holds_append)
qed

definition all_links :: "string list" where
  "all_links = [''observe_exec'', ''observe_openat_enter'', ''observe_openat_exit'', ''observe_connect4'']"

definition everything :: "held set" where
  "everything = insert Collection (insert Reader (Link ` set all_links))"

definition opened :: Monitor where
  "opened = \<lparr>mo_collection = True, mo_links = all_links, mo_reader = True\<rparr>"

text \<open>After a number of attachments, the links are those of a prefix of the targets.\<close>

lemma attach_all_links:
  "attach_all env targets links = (r, links') \<Longrightarrow>
   \<exists>k \<le> length targets. links' = links @ take k (map (\<lambda>t. snd (snd t)) targets) \<and>
     (r = None \<longleftrightarrow> (\<forall>t \<in> set targets. attach env t = None)) \<and> (r = None \<longrightarrow> k = length targets)"
proof (induction env targets links rule: attach_all.induct)
  case (2 env target targets links)
  show ?case
  proof (cases "attach env target")
    case None
    with 2 obtain k where "k \<le> length targets" "links' = (links @ [snd (snd target)]) @ take k (map (\<lambda>t. snd (snd t)) targets)"
      "r = None \<longleftrightarrow> (\<forall>t \<in> set targets. attach env t = None)" "r = None \<longrightarrow> k = length targets"
      by fastforce
    with None show ?thesis by (intro exI [of _ "Suc k"]) auto
  next
    case (Some e)
    with 2 have "r = Some e" "links' = links" by simp_all
    with Some show ?thesis by (intro exI [of _ 0]) auto
  qed
qed simp

lemma open_collection_result:
  "open_collection env = (r, actions) \<Longrightarrow>
   (case r of Inl e \<Rightarrow> holds {Collection} actions = Some {}
            | Inr m \<Rightarrow> m = opened \<and> holds {Collection} actions = Some everything)"
proof -
  assume eq: "open_collection env = (r, actions)"
  obtain e links where at: "attach_all env tracepoints [] = (e, links)" by fastforce
  define ts where "ts = map (\<lambda>t. snd (snd t)) tracepoints"
  have ts: "ts = [''observe_exec'', ''observe_openat_enter'', ''observe_openat_exit'']"
    by (simp add: ts_def tracepoints_def)
  from attach_all_links [OF at] obtain k where k: "links = take k ts" "e = None \<longrightarrow> k = length ts"
    by (auto simp: ts_def)
  have d: "distinct links" unfolding k(1) ts by (intro distinct_take) simp
  have links: "links @ [''observe_connect4''] = all_links" if "e = None"
    using k that by (simp add: ts all_links_def)
  have d': "distinct all_links" by (simp add: all_links_def)
  have "holds {Collection} (acquire_links all_links) = Some (Link ` set all_links \<union> {Collection})"
    by (rule holds_acquire [OF d']) auto
  then have all: "holds {Collection} (acquire_links all_links @ [Acquire Reader]) = Some everything"
    by (auto simp: holds_append everything_def)
  show ?thesis
  proof (cases e)
    case None
    show ?thesis
      using eq holds_back [OF d] holds_back [OF d'] all
      by (auto simp: open_collection_def Let_def at None links [OF None] opened_def split: if_splits)
  next
    case (Some err)
    then show ?thesis using eq at holds_back [OF d] by (auto simp: open_collection_def)
  qed
qed

lemma Open_holds:
  "Open env config = (r, actions) \<Longrightarrow>
   (case r of Inl e \<Rightarrow> holds {} actions = Some {} | Inr m \<Rightarrow> m = opened \<and> holds {} actions = Some everything)"
  using open_collection_result [of env]
  by (auto simp: Open_def Let_def split: if_splits option.splits bool.splits prod.splits sum.splits)

lemma Close_opened: "holds everything (snd (Close_monitor fails (Some opened))) = Some {}"
proof -
  have "holds (everything - {Reader}) (closeLinks all_links) = Some (everything - {Reader} - Link ` set all_links)"
    by (rule holds_close) (auto simp: all_links_def everything_def)
  moreover have "everything - {Reader} - Link ` set all_links = {Collection}" by (auto simp: everything_def)
  moreover have "Reader \<in> everything" by (simp add: everything_def)
  ultimately show ?thesis by (simp add: Close_monitor_def opened_def holds_append)
qed

text \<open>When \<open>Open\<close> succeeds, and what it tells the program.\<close>

lemma Open_ok_iff:
  "(\<exists>actions. Open env config = (Inr m, actions)) \<longleftrightarrow>
   m = opened \<and> cf_CgroupID config \<noteq> 0 \<and> cf_CgroupPath config \<noteq> [] \<and>
   eb_stat env (cf_CgroupPath config) = Some (cf_CgroupID config) \<and> length (cf_SensitivePath config) < pathLength \<and>
   eb_spec env \<and> eb_variables env ''target_cgroup_id'' = Some True \<and>
   eb_variables env ''target_sensitive_path'' = Some True \<and> eb_collection env \<and>
   (\<forall>p \<in> set all_links. eb_programs env p) \<and>
   (\<forall>(c, n, p) \<in> set tracepoints. eb_tracepoint env c n) \<and> eb_cgroup env \<and> eb_events env \<and> eb_ring env"
proof -
  obtain e links where at: "attach_all env tracepoints [] = (e, links)" by fastforce
  from attach_all_links [OF at] have
    n: "e = None \<longleftrightarrow> (\<forall>t \<in> set tracepoints. attach env t = None)" and
    l: "e = None \<longrightarrow> links @ [''observe_connect4''] = all_links"
    by (auto simp: tracepoints_def all_links_def)
  have targets: "(\<forall>t \<in> set tracepoints. attach env t = None) \<longleftrightarrow>
    (\<forall>p \<in> set all_links - {''observe_connect4''}. eb_programs env p) \<and> (\<forall>(c, n, p) \<in> set tracepoints. eb_tracepoint env c n)"
    by (auto simp: tracepoints_def all_links_def attach_def split: if_splits)
  have "(\<exists>actions. open_collection env = (Inr m, actions)) \<longleftrightarrow>
    m = opened \<and> e = None \<and> eb_programs env ''observe_connect4'' \<and> eb_cgroup env \<and> eb_events env \<and> eb_ring env"
    using at l by (cases e) (auto simp: open_collection_def Let_def opened_def)
  moreover have "(\<forall>p \<in> set all_links. eb_programs env p) \<longleftrightarrow>
    (\<forall>p \<in> set all_links - {''observe_connect4''}. eb_programs env p) \<and> eb_programs env ''observe_connect4''"
    by (auto simp: all_links_def)
  moreover have "(\<exists>actions. Open env config = (Inr m, actions)) \<longleftrightarrow>
    cf_CgroupID config \<noteq> 0 \<and> cf_CgroupPath config \<noteq> [] \<and>
    eb_stat env (cf_CgroupPath config) = Some (cf_CgroupID config) \<and> length (cf_SensitivePath config) < pathLength \<and>
    eb_spec env \<and> eb_variables env ''target_cgroup_id'' = Some True \<and>
    eb_variables env ''target_sensitive_path'' = Some True \<and> eb_collection env \<and>
    (\<exists>actions. open_collection env = (Inr m, actions))"
    by (cases "open_collection env") (simp add: Open_def Let_def not_le split: option.split bool.split)
  ultimately show ?thesis unfolding n targets by blast
qed

end
