(* ===== verification/Sha256.thy ===== *)
theory Sha256
  imports Prelude
begin

text \<open>
  The part of Go's \<open>crypto/sha256\<close> and \<open>encoding/hex\<close> that \<open>Digest\<close>
  (\<open>internal/rpf/parse.go\<close>) calls: SHA-256 on 32-bit words and lower-case hexadecimal text.
  The standard library is modelled, not assumed: \<open>sum256\<close> computes. No theorem of the development assumes that the hash is
  collision free; the ones that need it exhibit the two byte strings that would collide.
\<close>

unbundle bit_operations_syntax

section \<open>The compression function\<close>

text \<open>The round constants, eight to a row, the first in the highest bits.\<close>

definition row_words :: "int \<Rightarrow> 32 word list" where
  "row_words r = map (\<lambda>i. word_of_int (r div 2 ^ (32 * i))) [7, 6, 5, 4, 3, 2, 1, 0]"

definition K256 :: "32 word list" where
  "K256 = concat (map row_words
    [0x428a2f9871374491b5c0fbcfe9b5dba53956c25b59f111f1923f82a4ab1c5ed5,
     0xd807aa9812835b01243185be550c7dc372be5d7480deb1fe9bdc06a7c19bf174,
     0xe49b69c1efbe47860fc19dc6240ca1cc2de92c6f4a7484aa5cb0a9dc76f988da,
     0x983e5152a831c66db00327c8bf597fc7c6e00bf3d5a7914706ca635114292967,
     0x27b70a852e1b21384d2c6dfc53380d13650a7354766a0abb81c2c92e92722c85,
     0xa2bfe8a1a81a664bc24b8b70c76c51a3d192e819d6990624f40e3585106aa070,
     0x19a4c1161e376c082748774c34b0bcb5391c0cb34ed8aa4a5b9cca4f682e6ff3,
     0x748f82ee78a5636f84c878148cc7020890befffaa4506cebbef9a3f7c67178f2])"

type_synonym hash_state = "32 word \<times> 32 word \<times> 32 word \<times> 32 word \<times> 32 word \<times> 32 word \<times> 32 word \<times> 32 word"

definition H256 :: hash_state where
  "H256 = (0x6a09e667, 0xbb67ae85, 0x3c6ef372, 0xa54ff53a, 0x510e527f, 0x9b05688c, 0x1f83d9ab, 0x5be0cd19)"

definition rotr32 :: "nat \<Rightarrow> 32 word \<Rightarrow> 32 word" where
  "rotr32 n x = (drop_bit n x OR push_bit (32 - n) x)"

definition small_sigma0 :: "32 word \<Rightarrow> 32 word" where
  "small_sigma0 x = (rotr32 7 x XOR rotr32 18 x XOR drop_bit 3 x)"

definition small_sigma1 :: "32 word \<Rightarrow> 32 word" where
  "small_sigma1 x = (rotr32 17 x XOR rotr32 19 x XOR drop_bit 10 x)"

definition big_sigma0 :: "32 word \<Rightarrow> 32 word" where
  "big_sigma0 x = (rotr32 2 x XOR rotr32 13 x XOR rotr32 22 x)"

definition big_sigma1 :: "32 word \<Rightarrow> 32 word" where
  "big_sigma1 x = (rotr32 6 x XOR rotr32 11 x XOR rotr32 25 x)"

text \<open>
  The message schedule: the last sixteen words, newest first, and the words still to compute.
\<close>

fun schedule :: "nat \<Rightarrow> 32 word list \<Rightarrow> 32 word list" where
  "schedule 0 ws = ws"
| "schedule (Suc n) ws =
     schedule n ((small_sigma1 (ws ! 1) + ws ! 6 + small_sigma0 (ws ! 14) + ws ! 15) # ws)"

fun sha_round :: "hash_state \<Rightarrow> 32 word \<Rightarrow> 32 word \<Rightarrow> hash_state" where
  "sha_round (a, b, c, d, e, f, g, h) k w =
     (let t1 = h + big_sigma1 e + ((e AND f) XOR (NOT e AND g)) + k + w;
          t2 = big_sigma0 a + ((a AND b) XOR (a AND c) XOR (b AND c))
      in (t1 + t2, a, b, c, d + t1, e, f, g))"

fun sha_rounds :: "hash_state \<Rightarrow> 32 word list \<Rightarrow> 32 word list \<Rightarrow> hash_state" where
  "sha_rounds s (k # ks) (w # ws) = sha_rounds (sha_round s k w) ks ws"
| "sha_rounds s _ _ = s"

fun add_state :: "hash_state \<Rightarrow> hash_state \<Rightarrow> hash_state" where
  "add_state (a, b, c, d, e, f, g, h) (a', b', c', d', e', f', g', h') =
     (a + a', b + b', c + c', d + d', e + e', f + f', g + g', h + h')"

definition compress :: "hash_state \<Rightarrow> 32 word list \<Rightarrow> hash_state" where
  "compress s block = add_state s (sha_rounds s K256 (rev (schedule 48 (rev block))))"

section \<open>Padding and parsing of the message\<close>

fun be_word :: "string \<Rightarrow> 32 word" where
  "be_word cs = foldl (\<lambda>w c. push_bit 8 w OR of_char c) 0 cs"

text \<open>The words of one 64-byte block, then the blocks; \<open>n\<close> counts words or blocks.\<close>

fun words_of :: "nat \<Rightarrow> string \<Rightarrow> 32 word list" where
  "words_of 0 bs = []"
| "words_of (Suc n) bs = be_word (take 4 bs) # words_of n (drop 4 bs)"

fun sha_blocks :: "nat \<Rightarrow> hash_state \<Rightarrow> string \<Rightarrow> hash_state" where
  "sha_blocks 0 s bs = s"
| "sha_blocks (Suc n) s bs = sha_blocks n (compress s (words_of 16 bs)) (drop 64 bs)"

definition be_bytes :: "nat \<Rightarrow> int \<Rightarrow> string" where
  "be_bytes n x = map (\<lambda>i. char_of (x div 256 ^ (n - 1 - i))) [0..<n]"

definition sha_pad :: "string \<Rightarrow> string" where
  "sha_pad m = (let l = length m; z = (119 - l mod 64) mod 64
     in m @ CHR 0x80 # replicate z (CHR 0x00) @ be_bytes 8 (8 * int l mod 2 ^ 64))"

definition word_bytes :: "32 word \<Rightarrow> string" where
  "word_bytes w = be_bytes 4 (uint w)"

fun state_bytes :: "hash_state \<Rightarrow> string" where
  "state_bytes (a, b, c, d, e, f, g, h) = concat (map word_bytes [a, b, c, d, e, f, g, h])"

definition sum256 :: "string \<Rightarrow> string" where
  "sum256 m = (let p = sha_pad m in state_bytes (sha_blocks (length p div 64) H256 p))"

section \<open>Hexadecimal text\<close>

definition hex_digits :: string where
  "hex_digits = ''0123456789abcdef''"

definition hex_digit :: "nat \<Rightarrow> char" where
  "hex_digit n = hex_digits ! (n mod 16)"

definition hex_encode :: "string \<Rightarrow> string" where
  "hex_encode bs = concat (map (\<lambda>b. [hex_digit (of_char b div 16), hex_digit (of_char b)]) bs)"

lemma length_be_bytes [simp]: "length (be_bytes n x) = n"
  by (simp add: be_bytes_def)

lemma length_word_bytes [simp]: "length (word_bytes w) = 4"
  by (simp add: word_bytes_def)

lemma length_state_bytes [simp]: "length (state_bytes s) = 32"
  by (cases s rule: state_bytes.cases) simp

lemma length_sum256 [simp]: "length (sum256 m) = 32"
  by (simp add: sum256_def Let_def)

lemma length_hex_encode [simp]: "length (hex_encode bs) = 2 * length bs"
  by (induction bs) (auto simp: hex_encode_def)

lemma hex_digit_in: "hex_digit n \<in> set hex_digits"
proof -
  have "n mod 16 < length hex_digits" by (simp add: hex_digits_def)
  then show ?thesis unfolding hex_digit_def by (rule nth_mem)
qed

lemma hex_encode_digits: "set (hex_encode bs) \<subseteq> set hex_digits"
  by (induction bs) (auto simp: hex_encode_def hex_digit_in)

end
