(* ===== verification/Json_Text.thy ===== *)
theory Json_Text
  imports Sha256
begin

text \<open>
  The lexical part of Go's \<open>encoding/json\<close> as \<open>internal/rpf\<close> uses it: UTF-8 validation, the
  escaping of \<open>json.Marshal\<close> (HTML escaping on), the unescaping of the decoder, and the number
  grammar. Invalid UTF-8 becomes U+FFFD in both directions, so one round through encoder and
  decoder is \<open>sanitize\<close>, the identity on valid UTF-8.
\<close>

section \<open>UTF-8\<close>

definition cont_byte :: "char \<Rightarrow> bool" where
  "cont_byte c \<longleftrightarrow> CHR 0x80 \<le> c \<and> c \<le> CHR 0xBF"

text \<open>The second byte's range depends on the first: no overlong forms, surrogates or values past U+10FFFF.\<close>

definition second_ok :: "char \<Rightarrow> char \<Rightarrow> bool" where
  "second_ok a b \<longleftrightarrow> cont_byte b \<and> (a = CHR 0xE0 \<longrightarrow> CHR 0xA0 \<le> b) \<and> (a = CHR 0xED \<longrightarrow> b \<le> CHR 0x9F)
     \<and> (a = CHR 0xF0 \<longrightarrow> CHR 0x90 \<le> b) \<and> (a = CHR 0xF4 \<longrightarrow> b \<le> CHR 0x8F)"

text \<open>The length of the valid sequence at the head of a string, 0 when there is none.\<close>

fun utf8_len :: "string \<Rightarrow> nat" where
  "utf8_len [] = 0"
| "utf8_len (a # s) =
     (if a < CHR 0x80 then 1
      else if CHR 0xC2 \<le> a \<and> a \<le> CHR 0xDF then
        (case s of b # _ \<Rightarrow> if cont_byte b then 2 else 0 | _ \<Rightarrow> 0)
      else if CHR 0xE0 \<le> a \<and> a \<le> CHR 0xEF then
        (case s of b # c # _ \<Rightarrow> if second_ok a b \<and> cont_byte c then 3 else 0 | _ \<Rightarrow> 0)
      else if CHR 0xF0 \<le> a \<and> a \<le> CHR 0xF4 then
        (case s of b # c # d # _ \<Rightarrow> if second_ok a b \<and> cont_byte c \<and> cont_byte d then 4 else 0 | _ \<Rightarrow> 0)
      else 0)"

definition replacement :: string where
  "replacement = [CHR 0xEF, CHR 0xBF, CHR 0xBD]"

text \<open>One decoding step: the bytes to keep for the next rune, and the rest of the input.\<close>

definition utf8_next :: "string \<Rightarrow> string \<times> string" where
  "utf8_next s = (let n = utf8_len s in
     if n = 0 then (replacement, tl s) else (take n s, drop n s))"

lemma utf8_len_le: "utf8_len s \<le> length s"
  by (cases s) (auto split: list.splits)

lemma utf8_next_shorter [simp]: "length (snd (utf8_next (a # s))) \<le> length s"
  by (auto simp: utf8_next_def Let_def)

lemma utf8_next_shorter_Suc [simp]: "length (snd (utf8_next (a # s))) < Suc (length s)"
  by (simp add: less_Suc_eq_le)

function sanitize :: "string \<Rightarrow> string" where
  "sanitize [] = []"
| "sanitize (a # s) = fst (utf8_next (a # s)) @ sanitize (snd (utf8_next (a # s)))"
  by pat_completeness auto
termination
  by (relation "measure length") auto

definition valid_utf8 :: "string \<Rightarrow> bool" where
  "valid_utf8 s \<longleftrightarrow> sanitize s = s"

text \<open>\<open>utf8.AppendRune\<close>, for the code points of \<open>\uXXXX\<close> escapes.\<close>

definition encode_rune :: "nat \<Rightarrow> string" where
  "encode_rune r =
     (if r < 0x80 then [char_of r]
      else if r < 0x800 then [char_of (0xC0 + r div 64), char_of (0x80 + r mod 64)]
      else if 0xD800 \<le> r \<and> r < 0xE000 \<or> 0x110000 \<le> r then replacement
      else if r < 0x10000 then
        [char_of (0xE0 + r div 4096), char_of (0x80 + r div 64 mod 64), char_of (0x80 + r mod 64)]
      else [char_of (0xF0 + r div 262144), char_of (0x80 + r div 4096 mod 64),
            char_of (0x80 + r div 64 mod 64), char_of (0x80 + r mod 64)])"

section \<open>Escaping: the encoder\<close>

abbreviation backslash :: char where "backslash \<equiv> CHR 0x5C"
abbreviation dquote :: char where "dquote \<equiv> CHR 0x22"

definition escape :: "char \<Rightarrow> string" where
  "escape c =
     (if c = dquote \<or> c = backslash then [backslash, c]
      else if c = CHR 0x08 then backslash # ''b''
      else if c = CHR 0x0C then backslash # ''f''
      else if c = CHR 0x0A then backslash # ''n''
      else if c = CHR 0x0D then backslash # ''r''
      else if c = CHR 0x09 then backslash # ''t''
      else if c < CHR 0x20 \<or> c = CHR ''<'' \<or> c = CHR ''>'' \<or> c = CHR ''&'' then
        backslash # ''u00'' @ [hex_digit (of_char c div 16), hex_digit (of_char c)]
      else [c])"

definition line_separator :: string where
  "line_separator = [CHR 0xE2, CHR 0x80, CHR 0xA8]"

definition paragraph_separator :: string where
  "paragraph_separator = [CHR 0xE2, CHR 0x80, CHR 0xA9]"

text \<open>What the encoder writes for the multi-byte rune at the head, and the rest.\<close>

definition escape_rune :: "string \<Rightarrow> string" where
  "escape_rune s = (let n = utf8_len s in
     if n = 0 then backslash # ''ufffd''
     else if take n s = line_separator then backslash # ''u2028''
     else if take n s = paragraph_separator then backslash # ''u2029''
     else take n s)"

function quote_body :: "string \<Rightarrow> string" where
  "quote_body [] = []"
| "quote_body (a # s) =
     (if a < CHR 0x80 then escape a @ quote_body s
      else escape_rune (a # s) @ quote_body (snd (utf8_next (a # s))))"
  by pat_completeness auto
termination
  by (relation "measure length") auto

definition quote :: "string \<Rightarrow> string" where
  "quote s = dquote # quote_body s @ [dquote]"

section \<open>Unescaping: the decoder\<close>

definition hex_val :: "char \<Rightarrow> nat option" where
  "hex_val c =
     (if is_digit c then Some (of_char c - 48)
      else if CHR ''a'' \<le> c \<and> c \<le> CHR ''f'' then Some (of_char c - 87)
      else if CHR ''A'' \<le> c \<and> c \<le> CHR ''F'' then Some (of_char c - 55)
      else None)"

text \<open>Four hexadecimal digits, after \<open>\u\<close>.\<close>

fun getu4 :: "string \<Rightarrow> nat option" where
  "getu4 (a # b # c # d # _) =
     (case (hex_val a, hex_val b, hex_val c, hex_val d) of
        (Some i, Some j, Some k, Some l) \<Rightarrow> Some (4096 * i + 256 * j + 16 * k + l)
      | _ \<Rightarrow> None)"
| "getu4 _ = None"

definition is_surrogate :: "nat \<Rightarrow> bool" where
  "is_surrogate r \<longleftrightarrow> 0xD800 \<le> r \<and> r < 0xE000"

text \<open>
  The bytes of an escape with code \<open>r\<close>, given the input after its four digits, and the input
  that is left: a surrogate pair is one rune, an unpaired surrogate is U+FFFD.
\<close>

definition unescape_u :: "nat \<Rightarrow> string \<Rightarrow> string \<times> string" where
  "unescape_u r t =
     (if is_surrogate r then
        (case t of
           b # u # t' \<Rightarrow>
             (case (if b = backslash \<and> u = CHR ''u'' then getu4 t' else None) of
                Some r' \<Rightarrow>
                  if r < 0xDC00 \<and> 0xDC00 \<le> r' \<and> r' < 0xE000
                  then (encode_rune (0x10000 + (r - 0xD800) * 1024 + (r' - 0xDC00)), drop 4 t')
                  else (replacement, t)
              | None \<Rightarrow> (replacement, t))
         | _ \<Rightarrow> (replacement, t))
      else (encode_rune r, t))"

definition unescape_simple :: "char \<Rightarrow> char option" where
  "unescape_simple e =
     (if e = dquote \<or> e = backslash \<or> e = CHR ''/'' then Some e
      else if e = CHR ''b'' then Some (CHR 0x08)
      else if e = CHR ''f'' then Some (CHR 0x0C)
      else if e = CHR ''n'' then Some (CHR 0x0A)
      else if e = CHR ''r'' then Some (CHR 0x0D)
      else if e = CHR ''t'' then Some (CHR 0x09)
      else None)"

lemma unescape_u_shorter: "length (snd (unescape_u r t)) \<le> length t"
  by (auto simp: unescape_u_def split: list.splits option.splits if_splits)

text \<open>The text after an opening quote: the decoded string and the input after the closing quote.\<close>

definition cons_chunk :: "string \<Rightarrow> (string \<times> string) option \<Rightarrow> (string \<times> string) option" where
  "cons_chunk c r = map_option (map_prod (\<lambda>v. c @ v) id) r"

lemma cons_chunk_simps [simp]:
  "cons_chunk c None = None"
  "cons_chunk c (Some (v, r)) = Some (c @ v, r)"
  by (simp_all add: cons_chunk_def)

lemma cons_chunk_eq_Some:
  "cons_chunk c r = Some (v, u) \<longleftrightarrow> (\<exists>v'. r = Some (v', u) \<and> v = c @ v')"
  by (cases r) (auto simp: cons_chunk_def)

function scan_string :: "string \<Rightarrow> (string \<times> string) option" where
  "scan_string [] = None"
| "scan_string (a # s) =
     (if a = dquote then Some ([], s)
      else if a < CHR 0x20 then None
      else if a = backslash then
        (case s of
           [] \<Rightarrow> None
         | e # t \<Rightarrow>
             if e = CHR ''u'' then
               (case getu4 t of
                  None \<Rightarrow> None
                | Some r \<Rightarrow> (let x = unescape_u r (drop 4 t) in cons_chunk (fst x) (scan_string (snd x))))
             else (case unescape_simple e of None \<Rightarrow> None | Some c \<Rightarrow> cons_chunk [c] (scan_string t)))
      else (let x = utf8_next (a # s) in cons_chunk (fst x) (scan_string (snd x))))"
  by pat_completeness auto
termination
  by (relation "measure length")
     (auto simp: less_Suc_eq_le intro: order.trans [OF unescape_u_shorter])

section \<open>Facts about UTF-8\<close>

text \<open>The step at the head looks at no byte past the sequence it returns.\<close>

lemma utf8_len_append: "utf8_len s \<noteq> 0 \<Longrightarrow> utf8_len (take (utf8_len s) s @ t) = utf8_len s"
  by (cases s rule: utf8_len.cases) (auto split: list.splits if_splits)

lemma utf8_len_take: "utf8_len s \<noteq> 0 \<Longrightarrow> utf8_len (take (utf8_len s) s) = utf8_len s"
  using utf8_len_append [of s "[]"] by simp

lemma utf8_len_1_iff: "utf8_len (a # s) = 1 \<longleftrightarrow> a < CHR 0x80"
  by (auto split: list.splits)

lemma utf8_next_ascii [simp]: "a < CHR 0x80 \<Longrightarrow> utf8_next (a # s) = ([a], s)"
  by (simp add: utf8_next_def)

lemma utf8_len_replacement [simp]: "utf8_len (replacement @ t) = 3"
  by (simp add: replacement_def second_ok_def cont_byte_def)

lemma utf8_next_eq: "utf8_next s = (c, r) \<Longrightarrow> s \<noteq> [] \<Longrightarrow>
   c \<noteq> [] \<and> utf8_len (c @ t) = length c \<and> utf8_next (c @ t) = (c, t)"
proof (cases "utf8_len s = 0")
  case True
  moreover assume "utf8_next s = (c, r)"
  ultimately have "c = replacement" by (simp add: utf8_next_def)
  then show ?thesis by (simp add: utf8_next_def Let_def) (simp add: replacement_def)
next
  case False
  assume "utf8_next s = (c, r)"
  with False have c: "c = take (utf8_len s) s" by (simp add: utf8_next_def Let_def)
  moreover have "length c = utf8_len s" using c utf8_len_le [of s] by simp
  ultimately show ?thesis using False utf8_len_append [OF False, of t]
    by (auto simp: utf8_next_def Let_def)
qed

lemma sanitize_chunk: "utf8_next s = (c, r) \<Longrightarrow> s \<noteq> [] \<Longrightarrow> sanitize (c @ t) = c @ sanitize t"
  using utf8_next_eq [of s c r t] by (cases c) auto

lemma sanitize_step: "s \<noteq> [] \<Longrightarrow> sanitize s = fst (utf8_next s) @ sanitize (snd (utf8_next s))"
  by (cases s) simp_all

text \<open>What the decoder and the encoder produce is valid, and valid text is left alone.\<close>

lemma sanitize_idem [simp]: "sanitize (sanitize s) = sanitize s"
proof (induction s rule: sanitize.induct)
  case (2 a s)
  obtain c r where cr: "utf8_next (a # s) = (c, r)" by force
  have "sanitize (sanitize (a # s)) = sanitize (c @ sanitize r)" by (simp add: cr)
  also have "\<dots> = c @ sanitize (sanitize r)" by (rule sanitize_chunk [OF cr]) simp
  finally show ?case using 2 cr by simp
qed simp

lemma valid_utf8_sanitize [simp]: "valid_utf8 (sanitize s)"
  by (simp add: valid_utf8_def)

lemma sanitize_valid: "valid_utf8 s \<Longrightarrow> sanitize s = s"
  by (simp add: valid_utf8_def)

lemma sanitize_ascii: "list_all (\<lambda>c. c < CHR 0x80) s \<Longrightarrow> sanitize s = s"
  by (induction s) auto

lemma valid_utf8_ascii: "list_all (\<lambda>c. c < CHR 0x80) s \<Longrightarrow> valid_utf8 s"
  by (simp add: valid_utf8_def sanitize_ascii)

lemma sanitize_ascii_append:
  "list_all (\<lambda>c. c < CHR 0x80) s \<Longrightarrow> sanitize (s @ t) = s @ sanitize t"
  by (induction s) auto

lemma sanitize_eq_Nil [simp]: "sanitize s = [] \<longleftrightarrow> s = []"
proof (cases s)
  case (Cons a t)
  obtain c r where cr: "utf8_next (a # t) = (c, r)" by force
  then have "c \<noteq> []" using utf8_next_eq [OF cr, of "[]"] by simp
  with cr Cons show ?thesis by simp
qed simp

section \<open>Decoding what was encoded\<close>

lemma hex_val_hex_digit [simp]: "hex_val (hex_digit n) = Some (n mod 16)"
proof -
  define k where "k = n mod 16"
  then have "k = 0 \<or> k = 1 \<or> k = 2 \<or> k = 3 \<or> k = 4 \<or> k = 5 \<or> k = 6 \<or> k = 7 \<or>
    k = 8 \<or> k = 9 \<or> k = 10 \<or> k = 11 \<or> k = 12 \<or> k = 13 \<or> k = 14 \<or> k = 15"
    by presburger
  then have "hex_val (hex_digits ! k) = Some k"
    by (elim disjE) (simp_all add: hex_digits_def hex_val_def is_digit_def)
  then show ?thesis by (simp add: hex_digit_def k_def)
qed

lemma of_char_less_256: "of_char c < (256::nat)"
  by simp

lemma getu4_u00: "getu4 (CHR ''0'' # CHR ''0'' # c # d # t) =
    (case (hex_val c, hex_val d) of (Some k, Some l) \<Rightarrow> Some (16 * k + l) | _ \<Rightarrow> None)"
  by (simp add: hex_val_def is_digit_def split: option.splits)

lemma scan_string_escape_u00:
  assumes "a < CHR 0x80"
  shows "scan_string (backslash # ''u00'' @ hex_digit (of_char a div 16) # hex_digit (of_char a) # t)
    = cons_chunk [a] (scan_string t)"
proof -
  have less: "of_char a < (128::nat)" using assms by (simp add: less_char_def)
  then have "of_char a div 16 < (16::nat)" by (simp add: less_mult_imp_div_less)
  then have sum: "16 * (of_char a div 16 mod 16) + of_char a mod 16 = (of_char a :: nat)" by simp
  have u: "unescape_u (of_char a) t = ([a], t)"
    using less by (simp add: unescape_u_def is_surrogate_def encode_rune_def)
  show ?thesis by (simp add: getu4_u00 sum u del: getu4.simps)
qed

lemma scan_string_escape:
  assumes "a < CHR 0x80"
  shows "scan_string (escape a @ t) = cons_chunk [a] (scan_string t)"
proof (cases "a = dquote \<or> a = backslash \<or> a = CHR 0x08 \<or> a = CHR 0x0C \<or> a = CHR 0x0A
    \<or> a = CHR 0x0D \<or> a = CHR 0x09")
  case True
  then show ?thesis by (elim disjE) (simp_all add: escape_def unescape_simple_def)
next
  case no: False
  show ?thesis
  proof (cases "a < CHR 0x20 \<or> a = CHR ''<'' \<or> a = CHR ''>'' \<or> a = CHR ''&''")
    case True
    then have "escape a @ t = backslash # ''u00'' @ hex_digit (of_char a div 16) # hex_digit (of_char a) # t"
      using no by (auto simp: escape_def)
    then show ?thesis using scan_string_escape_u00 [OF assms, of t] by simp
  next
    case False
    then have "escape a = [a]" "\<not> a < CHR 0x20" using no by (auto simp: escape_def)
    then show ?thesis using assms no by simp
  qed
qed

lemma getu4_escapes [simp]:
  "getu4 (CHR ''f'' # CHR ''f'' # CHR ''f'' # CHR ''d'' # t) = Some 0xFFFD"
  "getu4 (CHR ''2'' # CHR ''0'' # CHR ''2'' # CHR ''8'' # t) = Some 0x2028"
  "getu4 (CHR ''2'' # CHR ''0'' # CHR ''2'' # CHR ''9'' # t) = Some 0x2029"
  by (simp_all add: hex_val_def is_digit_def)

lemma encode_rune_escapes [simp]:
  "encode_rune 0xFFFD = replacement"
  "encode_rune 0x2028 = line_separator"
  "encode_rune 0x2029 = paragraph_separator"
  by (simp_all add: encode_rune_def char_of_eq_iff replacement_def line_separator_def
      paragraph_separator_def)

lemma unescape_u_escapes [simp]:
  "unescape_u 0xFFFD t = (replacement, t)"
  "unescape_u 0x2028 t = (line_separator, t)"
  "unescape_u 0x2029 t = (paragraph_separator, t)"
  by (simp_all add: unescape_u_def is_surrogate_def)

lemma scan_string_chunk:
  assumes "utf8_next (a # s) = (c, r)" "\<not> a < CHR 0x80" "utf8_len (a # s) \<noteq> 0"
  shows "scan_string (c @ t) = cons_chunk c (scan_string t)"
proof -
  from utf8_next_eq [OF assms(1), of t] have step: "utf8_next (c @ t) = (c, t)" and "c \<noteq> []" by auto
  have "hd c = a" using assms(1,3) by (auto simp: utf8_next_def Let_def take_Cons')
  with \<open>c \<noteq> []\<close> obtain c' where c: "c = a # c'" by (cases c) auto
  have "a \<noteq> dquote" "a \<noteq> backslash" "\<not> a < CHR 0x20"
    using assms(2) by (auto dest: order.strict_trans [of a "CHR 0x20" "CHR 0x80"])
  then show ?thesis using step by (simp add: c Let_def)
qed

lemma escape_rune_eq:
  assumes "utf8_next (a # s) = (c, r)"
  shows "escape_rune (a # s) =
    (if utf8_len (a # s) = 0 then backslash # ''ufffd''
     else if c = line_separator then backslash # ''u2028''
     else if c = paragraph_separator then backslash # ''u2029'' else c)"
  using assms by (simp add: escape_rune_def utf8_next_def Let_def del: utf8_len.simps split: if_splits)

lemma scan_string_escape_rune:
  assumes cr: "utf8_next (a # s) = (c, r)" and a: "\<not> a < CHR 0x80"
  shows "scan_string (escape_rune (a # s) @ t) = cons_chunk c (scan_string t)"
proof (cases "utf8_len (a # s) = 0")
  case True
  with cr have "c = replacement" by (simp add: utf8_next_def del: utf8_len.simps)
  with True show ?thesis by (simp add: escape_rune_eq [OF cr] del: utf8_len.simps getu4.simps)
next
  case False
  then show ?thesis
    using scan_string_chunk [OF cr a False, of t]
    by (simp add: escape_rune_eq [OF cr] del: utf8_len.simps getu4.simps)
qed

theorem scan_quote_body:
  "scan_string (quote_body s @ dquote # rest) = Some (sanitize s, rest)"
proof (induction s rule: quote_body.induct)
  case 1
  show ?case by simp
next
  case (2 a s)
  show ?case
  proof (cases "a < CHR 0x80")
    case True
    with 2 show ?thesis by (simp add: scan_string_escape)
  next
    case False
    obtain c r where cr: "utf8_next (a # s) = (c, r)" by force
    with 2 False have "scan_string (quote_body r @ dquote # rest) = Some (sanitize r, rest)" by simp
    with cr False show ?thesis
      by (simp add: scan_string_escape_rune [OF cr False] del: scan_string.simps)
  qed
qed

end
