(* ===== verification/Json.thy ===== *)
theory Json
  imports Json_Text
begin

text \<open>
  JSON documents as Go's \<open>encoding/json\<close> reads and writes them: the syntax tree, the text of
  \<open>json.Marshal\<close>, and the decoder's grammar as a recursive-descent parser that returns the
  unread input, as \<open>json.Decoder\<close> does. An object's members are kept in order and with
  duplicates; what they mean is decided by the type decoded into. The parser's fuel bounds its
  recursion depth; \<open>parse_json\<close> uses twice the length of the input, and \<open>parse_fuel\<close> shows that any
  larger bound gives the same result.
\<close>

datatype json =
    JNull
  | JBool bool
  | JNum string
  | JStr string
  | JArr "json list"
  | JObj "(string \<times> json) list"

section \<open>Numbers\<close>

fun scan_int :: "string \<Rightarrow> (string \<times> string) option" where
  "scan_int [] = None"
| "scan_int (c # s) =
     (if c = CHR ''0'' then Some ([c], s)
      else if is_digit c then Some (c # takeWhile is_digit s, dropWhile is_digit s)
      else None)"

fun scan_frac :: "string \<Rightarrow> (string \<times> string) option" where
  "scan_frac [] = Some ([], [])"
| "scan_frac (c # s) =
     (if c = CHR ''.'' then
        (if takeWhile is_digit s = [] then None
         else Some (c # takeWhile is_digit s, dropWhile is_digit s))
      else Some ([], c # s))"

fun scan_sign :: "string \<Rightarrow> string \<times> string" where
  "scan_sign [] = ([], [])"
| "scan_sign (c # s) = (if c = CHR ''+'' \<or> c = CHR ''-'' then ([c], s) else ([], c # s))"

fun scan_exp :: "string \<Rightarrow> (string \<times> string) option" where
  "scan_exp [] = Some ([], [])"
| "scan_exp (c # s) =
     (if c = CHR ''e'' \<or> c = CHR ''E'' then
        (let x = scan_sign s in
         if takeWhile is_digit (snd x) = [] then None
         else Some (c # fst x @ takeWhile is_digit (snd x), dropWhile is_digit (snd x)))
      else Some ([], c # s))"

definition scan_minus :: "string \<Rightarrow> string \<times> string" where
  "scan_minus s = (case s of c # t \<Rightarrow> if c = CHR ''-'' then ([c], t) else ([], s) | [] \<Rightarrow> ([], []))"

definition scan_number :: "string \<Rightarrow> (string \<times> string) option" where
  "scan_number s = (let m = scan_minus s in
     case scan_int (snd m) of
       None \<Rightarrow> None
     | Some (i, s2) \<Rightarrow>
         (case scan_frac s2 of
            None \<Rightarrow> None
          | Some (f, s3) \<Rightarrow>
              (case scan_exp s3 of
                 None \<Rightarrow> None
               | Some (e, s4) \<Rightarrow> Some (fst m @ i @ f @ e, s4))))"

definition valid_number :: "string \<Rightarrow> bool" where
  "valid_number l \<longleftrightarrow> scan_number l = Some (l, [])"

text \<open>The end of a number: the end of the input or a character no number contains.\<close>

definition number_ends :: "string \<Rightarrow> bool" where
  "number_ends rest \<longleftrightarrow> (case rest of [] \<Rightarrow> True
     | c # _ \<Rightarrow> \<not> is_digit c \<and> c \<notin> {CHR ''.'', CHR ''e'', CHR ''E'', CHR ''+'', CHR ''-''})"

lemma number_ends_simps [simp]:
  "number_ends []"
  "number_ends (CHR '','' # s)" "number_ends (CHR '']'' # s)" "number_ends (CHR 0x7D # s)"
  "number_ends (CHR '':'' # s)" "number_ends (CHR 0x0A # s)"
  by (simp_all add: number_ends_def is_digit_def)

lemma number_ends_hd: "number_ends rest \<Longrightarrow> rest = [] \<or> \<not> is_digit (hd rest)"
  by (cases rest) (auto simp: number_ends_def)

lemma number_stop:
  "number_ends rest \<Longrightarrow> takeWhile is_digit (s @ rest) = takeWhile is_digit s"
  "number_ends rest \<Longrightarrow> dropWhile is_digit (s @ rest) = dropWhile is_digit s @ rest"
  by (rule takeWhile_append_stop dropWhile_append_stop, rule number_ends_hd, assumption)+

lemma scan_int_append:
  "scan_int s = Some (v, r) \<Longrightarrow> number_ends rest \<Longrightarrow> scan_int (s @ rest) = Some (v, r @ rest)"
  by (cases s) (auto simp: number_stop split: if_splits)

lemma scan_frac_append:
  "scan_frac s = Some (v, r) \<Longrightarrow> number_ends rest \<Longrightarrow> scan_frac (s @ rest) = Some (v, r @ rest)"
  by (cases s; cases rest) (auto simp: number_stop number_ends_def split: if_splits)

lemma scan_sign_append:
  "number_ends rest \<Longrightarrow> scan_sign (s @ rest) = (fst (scan_sign s), snd (scan_sign s) @ rest)"
  by (cases s; cases rest) (auto simp: number_ends_def)

lemma scan_exp_append:
  "scan_exp s = Some (v, r) \<Longrightarrow> number_ends rest \<Longrightarrow> scan_exp (s @ rest) = Some (v, r @ rest)"
proof (cases s)
  case Nil
  assume "scan_exp s = Some (v, r)" "number_ends rest"
  with Nil show ?thesis by (cases rest) (auto simp: number_ends_def)
next
  case (Cons c t)
  assume "scan_exp s = Some (v, r)" "number_ends rest"
  with Cons show ?thesis by (auto simp: number_stop scan_sign_append Let_def split: if_splits)
qed

lemma scan_minus_append: "s \<noteq> [] \<Longrightarrow> scan_minus (s @ t) = (fst (scan_minus s), snd (scan_minus s) @ t)"
  by (cases s) (auto simp: scan_minus_def)

lemma scan_number_append:
  assumes "scan_number s = Some (v, r)" "number_ends rest"
  shows "scan_number (s @ rest) = Some (v, r @ rest)"
proof -
  have "s \<noteq> []" using assms(1) by (auto simp: scan_number_def scan_minus_def)
  then show ?thesis using assms
    by (auto simp: scan_number_def Let_def scan_minus_append scan_int_append scan_frac_append
        scan_exp_append split: option.splits)
qed

lemma scan_valid_number: "valid_number l \<Longrightarrow> number_ends rest \<Longrightarrow> scan_number (l @ rest) = Some (l, rest)"
  using scan_number_append [of l l "[]" rest] by (simp add: valid_number_def)

lemma valid_number_first:
  assumes "valid_number (c # l)"
  shows "is_digit c \<or> c = CHR ''-''"
proof (rule ccontr)
  assume no: "\<not> (is_digit c \<or> c = CHR ''-'')"
  then have "c \<noteq> CHR ''0''" by (auto simp: is_digit_def)
  with no have "scan_number (c # l) = None" by (simp add: scan_number_def scan_minus_def)
  with assms show False by (simp add: valid_number_def)
qed

lemma not_valid_number_Nil [simp]: "\<not> valid_number []"
  by (simp add: valid_number_def scan_number_def scan_minus_def)

lemma dec_nat_first_nonzero: "0 < n \<Longrightarrow> hd (dec_nat n) \<noteq> CHR ''0''"
proof (induction n rule: dec_nat.induct)
  case (1 n)
  show ?case
  proof (cases "n < 10")
    case True
    with 1 have "of_char (digit_char n) \<noteq> (of_char (CHR ''0'') :: nat)" by simp
    with True show ?thesis by (subst dec_nat.simps) (auto simp del: of_char_digit)
  next
    case False
    with 1 show ?thesis by (subst dec_nat.simps) simp
  qed
qed

lemma dec_nat_0: "dec_nat 0 = ''0''"
  by (simp add: dec_nat.simps digit_char_def char_of_eq_iff)

lemma scan_int_dec_nat: "scan_int (dec_nat n) = Some (dec_nat n, [])"
proof (cases "n = 0")
  case True
  then show ?thesis by (simp add: dec_nat_0)
next
  case False
  obtain c t where ct: "dec_nat n = c # t" by (cases "dec_nat n") auto
  have c: "is_digit c" "c \<noteq> CHR ''0''"
    using dec_nat_first [OF ct] dec_nat_first_nonzero [of n] False ct by auto
  have "\<forall>x\<in>set t. is_digit x" using dec_nat_digits [of n] ct by (simp add: list_all_iff)
  then have "takeWhile is_digit t = t" "dropWhile is_digit t = []" by auto
  with c show ?thesis by (simp add: ct)
qed

lemma scan_minus_dec_nat: "scan_minus (dec_nat n) = ([], dec_nat n)"
proof -
  obtain c t where ct: "dec_nat n = c # t" by (cases "dec_nat n") auto
  have "c \<noteq> CHR ''-''" using dec_nat_first [OF ct] by (auto simp: is_digit_of_char)
  then show ?thesis by (simp add: ct scan_minus_def)
qed

lemma valid_number_dec_nat [simp]: "valid_number (dec_nat n)"
  by (simp add: valid_number_def scan_number_def scan_minus_dec_nat scan_int_dec_nat)

lemma scan_minus_minus [simp]: "scan_minus (CHR ''-'' # s) = (''-'', s)"
  by (simp add: scan_minus_def)

lemma valid_number_dec_int [simp]: "valid_number (dec_int i)"
  by (simp add: dec_int_def valid_number_def scan_number_def scan_minus_dec_nat scan_int_dec_nat)

section \<open>json.Marshal\<close>

definition open_brace :: char where "open_brace = CHR 0x7B"
definition close_brace :: char where "close_brace = CHR 0x7D"

text \<open>The text of a tree, members in the order given.\<close>

fun marshal :: "json \<Rightarrow> string" where
  "marshal JNull = ''null''"
| "marshal (JBool b) = (if b then ''true'' else ''false'')"
| "marshal (JNum l) = l"
| "marshal (JStr s) = quote s"
| "marshal (JArr xs) = CHR ''['' # join '','' (map marshal xs) @ '']''"
| "marshal (JObj ms) =
     open_brace # join '','' (map (\<lambda>(k, v). quote k @ CHR '':'' # marshal v) ms) @ [close_brace]"

text \<open>\<open>json.Number\<close> values are checked against the grammar when they are encoded.\<close>

fun numbers_ok :: "json \<Rightarrow> bool" where
  "numbers_ok (JNum l) = valid_number l"
| "numbers_ok (JArr xs) = (\<forall>x \<in> set xs. numbers_ok x)"
| "numbers_ok (JObj ms) = (\<forall>(k, v) \<in> set ms. numbers_ok v)"
| "numbers_ok _ = True"

definition json_marshal :: "json \<Rightarrow> string option" where
  "json_marshal j = (if numbers_ok j then Some (marshal j) else None)"

section \<open>The decoder\<close>

definition is_space :: "char \<Rightarrow> bool" where
  "is_space c \<longleftrightarrow> c = CHR '' '' \<or> c = CHR 0x09 \<or> c = CHR 0x0A \<or> c = CHR 0x0D"

definition skip_ws :: "string \<Rightarrow> string" where
  "skip_ws s = dropWhile is_space s"

text \<open>The rest of the input after a given literal.\<close>

definition strip :: "string \<Rightarrow> string \<Rightarrow> string option" where
  "strip l s = (if take (length l) s = l then Some (drop (length l) s) else None)"

fun parse_value :: "nat \<Rightarrow> string \<Rightarrow> (json \<times> string) option"
  and parse_elements :: "nat \<Rightarrow> string \<Rightarrow> (json list \<times> string) option"
  and parse_members :: "nat \<Rightarrow> string \<Rightarrow> ((string \<times> json) list \<times> string) option" where
  "parse_value 0 s = None"
| "parse_value (Suc n) s =
     (case skip_ws s of
        [] \<Rightarrow> None
      | c # t \<Rightarrow>
          if c = open_brace then
            (case skip_ws t of
               [] \<Rightarrow> None
             | d # u \<Rightarrow> if d = close_brace then Some (JObj [], u)
                        else map_option (map_prod JObj id) (parse_members n t))
          else if c = CHR ''['' then
            (case skip_ws t of
               [] \<Rightarrow> None
             | d # u \<Rightarrow> if d = CHR '']'' then Some (JArr [], u)
                        else map_option (map_prod JArr id) (parse_elements n t))
          else if c = dquote then map_option (map_prod JStr id) (scan_string t)
          else if c = CHR ''n'' then map_option (Pair JNull) (strip ''ull'' t)
          else if c = CHR ''t'' then map_option (Pair (JBool True)) (strip ''rue'' t)
          else if c = CHR ''f'' then map_option (Pair (JBool False)) (strip ''alse'' t)
          else map_option (map_prod JNum id) (scan_number (c # t)))"
| "parse_elements 0 s = None"
| "parse_elements (Suc n) s =
     (case parse_value n s of
        None \<Rightarrow> None
      | Some (v, t) \<Rightarrow>
          (case skip_ws t of
             [] \<Rightarrow> None
           | d # u \<Rightarrow>
               if d = CHR '']'' then Some ([v], u)
               else if d = CHR '','' then map_option (map_prod (\<lambda>vs. v # vs) id) (parse_elements n u)
               else None))"
| "parse_members 0 s = None"
| "parse_members (Suc n) s =
     (case skip_ws s of
        [] \<Rightarrow> None
      | q # r \<Rightarrow>
          if q \<noteq> dquote then None
          else
            (case scan_string r of
               None \<Rightarrow> None
             | Some (k, r') \<Rightarrow>
                 (case skip_ws r' of
                    [] \<Rightarrow> None
                  | e # w \<Rightarrow>
                      if e \<noteq> CHR '':'' then None
                      else
                        (case parse_value n w of
                           None \<Rightarrow> None
                         | Some (v, t) \<Rightarrow>
                             (case skip_ws t of
                                [] \<Rightarrow> None
                              | d # u \<Rightarrow>
                                  if d = close_brace then Some ([(k, v)], u)
                                  else if d = CHR '','' then
                                    map_option (map_prod (\<lambda>ms. (k, v) # ms) id) (parse_members n u)
                                  else None)))))"

definition parse_json :: "string \<Rightarrow> (json \<times> string) option" where
  "parse_json s = parse_value (2 * length s) s"

declare parse_value.simps(2) [simp del] parse_elements.simps(2) [simp del] parse_members.simps(2) [simp del]

section \<open>Every step of the decoder consumes input\<close>

lemma skip_ws_le: "length (skip_ws s) \<le> length s"
  by (simp add: skip_ws_def length_dropWhile_le)

lemma skip_ws_Cons_less: "skip_ws s = c # t \<Longrightarrow> length t < length s"
  using skip_ws_le [of s] by simp

lemma scan_string_rest:
  assumes "scan_string (a # s) = Some (v, r)"
  shows "r = s \<or> (\<exists>u w. scan_string w = Some (u, r) \<and> length w \<le> length s)"
proof (cases "a = dquote")
  case True
  with assms show ?thesis by simp
next
  case no: False
  show ?thesis
  proof (cases "a = backslash")
    case False
    with no assms obtain v' where "scan_string (snd (utf8_next (a # s))) = Some (v', r)"
      by (auto simp: Let_def cons_chunk_eq_Some split: if_splits)
    then show ?thesis using utf8_next_shorter [of a s] by blast
  next
    case True
    with assms obtain e t where s: "s = e # t" by (cases s) auto
    show ?thesis
    proof (cases "e = CHR ''u''")
      case eu: True
      then obtain h v' where "scan_string (snd (unescape_u h (drop 4 t))) = Some (v', r)"
        using assms True s no by (auto simp: Let_def cons_chunk_eq_Some split: option.splits)
      moreover have "length (snd (unescape_u h (drop 4 t))) \<le> length s"
        using unescape_u_shorter [of h "drop 4 t"] s by simp
      ultimately show ?thesis by blast
    next
      case False
      then obtain v' where "scan_string t = Some (v', r)"
        using assms True s no by (auto simp: cons_chunk_eq_Some split: option.splits)
      then show ?thesis using s by (intro disjI2 exI [of _ v'] exI [of _ t]) simp
    qed
  qed
qed

lemma scan_string_less: "scan_string s = Some (v, r) \<Longrightarrow> length r < length s"
proof (induction "length s" arbitrary: s v rule: less_induct)
  case less
  then obtain a t where s: "s = a # t" by (cases s) auto
  with scan_string_rest [of a t v r] less.prems
  consider "r = t" | u w where "scan_string w = Some (u, r)" "length w \<le> length t" by auto
  then show ?case
  proof cases
    case 1
    with s show ?thesis by simp
  next
    case 2
    with less.hyps [of w u] s show ?thesis by simp
  qed
qed

lemma strip_le: "strip l s = Some r \<Longrightarrow> length r \<le> length s"
  by (auto simp: strip_def split: if_splits)

lemma strip_append [simp]: "strip l (l @ rest) = Some rest"
  by (simp add: strip_def)

lemma scan_int_less: "scan_int s = Some (v, r) \<Longrightarrow> length r < length s"
  by (cases s) (auto simp: le_imp_less_Suc length_dropWhile_le split: if_splits)

lemma scan_frac_le: "scan_frac s = Some (v, r) \<Longrightarrow> length r \<le> length s"
  by (cases s) (auto simp: le_SucI length_dropWhile_le split: if_splits)

lemma scan_sign_le: "length (snd (scan_sign s)) \<le> length s"
  by (cases s) auto

lemma scan_exp_le: "scan_exp s = Some (v, r) \<Longrightarrow> length r \<le> length s"
proof (cases s)
  case (Cons c t)
  assume "scan_exp s = Some (v, r)"
  moreover have "length (dropWhile is_digit (snd (scan_sign t))) \<le> length t"
    by (rule order.trans [OF length_dropWhile_le scan_sign_le])
  ultimately show ?thesis using Cons by (auto simp: Let_def split: if_splits)
qed simp

lemma scan_number_less:
  assumes "scan_number s = Some (v, r)"
  shows "length r < length s"
proof -
  from assms obtain i s2 f s3 e where "scan_int (snd (scan_minus s)) = Some (i, s2)"
    "scan_frac s2 = Some (f, s3)" "scan_exp s3 = Some (e, r)"
    by (auto simp: scan_number_def Let_def split: option.splits)
  then have "length r < length (snd (scan_minus s))"
    by (auto dest!: scan_int_less scan_frac_le scan_exp_le)
  also have "\<dots> \<le> length s" by (auto simp: scan_minus_def split: list.splits)
  finally show ?thesis .
qed

section \<open>Enough fuel\<close>

lemma parse_consumes_aux:
  "(parse_value n s = Some (v, r) \<longrightarrow> length r < length s) \<and>
   (parse_elements n s = Some (vs, r) \<longrightarrow> length r < length s) \<and>
   (parse_members n s = Some (ms, r) \<longrightarrow> length r < length s)"
proof (induction n arbitrary: s v r vs ms)
  case (Suc n)
  have pv: "length r < length s" if "parse_value (Suc n) s = Some (v, r)" for s v r
    using that
    by (auto simp: parse_value.simps(2) split: list.splits if_splits
        dest!: skip_ws_Cons_less Suc.IH [THEN conjunct2, THEN conjunct1, rule_format]
          Suc.IH [THEN conjunct2, THEN conjunct2, rule_format] scan_string_less strip_le)
      (use scan_number_less in fastforce)+
  have pe: "length r < length s" if "parse_elements (Suc n) s = Some (vs, r)" for s vs r
    using that
    by (auto simp: parse_elements.simps(2) split: list.splits if_splits option.splits
        dest!: skip_ws_Cons_less Suc.IH [THEN conjunct1, rule_format]
          Suc.IH [THEN conjunct2, THEN conjunct1, rule_format])
  have pm: "length r < length s" if "parse_members (Suc n) s = Some (ms, r)" for s ms r
    using that
    by (auto simp: parse_members.simps(2) split: list.splits if_splits option.splits
        dest!: skip_ws_Cons_less scan_string_less Suc.IH [THEN conjunct1, rule_format]
          Suc.IH [THEN conjunct2, THEN conjunct2, rule_format])
  show ?case using pv pe pm by blast
qed simp

lemma parse_value_less: "parse_value n s = Some (v, r) \<Longrightarrow> length r < length s"
  and parse_elements_less: "parse_elements n s = Some (vs, r) \<Longrightarrow> length r < length s"
  and parse_members_less: "parse_members n s = Some (ms, r) \<Longrightarrow> length r < length s"
  using parse_consumes_aux by blast+

lemma parse_fuel_aux:
  "(parse_value n s = Some x \<longrightarrow> 2 * length s \<le> m \<longrightarrow> parse_value m s = Some x) \<and>
   (parse_elements n s = Some y \<longrightarrow> 2 * length s < m \<longrightarrow> parse_elements m s = Some y) \<and>
   (parse_members n s = Some z \<longrightarrow> 2 * length s \<le> m \<longrightarrow> parse_members m s = Some z)"
proof (induction n arbitrary: s x y z m)
  case (Suc n)
  note val = Suc.IH [THEN conjunct1, rule_format]
    and elt = Suc.IH [THEN conjunct2, THEN conjunct1, rule_format]
    and mem = Suc.IH [THEN conjunct2, THEN conjunct2, rule_format]
  have pv: "parse_value m s = Some x" if p: "parse_value (Suc n) s = Some x" and m: "2 * length s \<le> m"
    for s x m
  proof -
    have "length s \<noteq> 0" using p by (auto simp: parse_value.simps(2) skip_ws_def)
    then obtain m' where m': "m = Suc m'" using m by (cases m) auto
    obtain c t where ct: "skip_ws s = c # t" using p by (auto simp: parse_value.simps(2) split: list.splits)
    then have "2 * length t < m'" using skip_ws_Cons_less [OF ct] m m' by simp
    then show ?thesis using p
      by (auto simp: parse_value.simps(2) m' ct split: list.splits if_splits
          intro: elt mem [OF _ less_imp_le])
  qed
  have pe: "parse_elements m s = Some y" if p: "parse_elements (Suc n) s = Some y" and m: "2 * length s < m"
    for s y m
  proof -
    obtain m' where m': "m = Suc m'" using m by (cases m) auto
    obtain v t where vt: "parse_value n s = Some (v, t)"
      using p by (auto simp: parse_elements.simps(2) split: option.splits)
    then have v': "parse_value m' s = Some (v, t)" by (rule val) (use m m' in auto)
    have t: "length t < length s" by (rule parse_value_less [OF vt])
    show ?thesis
    proof (cases "skip_ws t")
      case Nil
      with p vt show ?thesis by (simp add: parse_elements.simps(2))
    next
      case (Cons d u)
      have "2 * length u < m'" using skip_ws_Cons_less [OF Cons] t m m' by simp
      then show ?thesis using p Cons
        by (auto simp: parse_elements.simps(2) m' vt v' split: if_splits intro: elt)
    qed
  qed
  have pm: "parse_members m s = Some z" if p: "parse_members (Suc n) s = Some z" and m: "2 * length s \<le> m"
    for s z m
  proof -
    have "length s \<noteq> 0" using p by (auto simp: parse_members.simps(2) skip_ws_def)
    then obtain m' where m': "m = Suc m'" using m by (cases m) auto
    obtain r k r' w v t where s: "skip_ws s = dquote # r" "scan_string r = Some (k, r')"
      "skip_ws r' = CHR '':'' # w" and vt: "parse_value n w = Some (v, t)"
      using p by (auto simp: parse_members.simps(2) split: list.splits if_splits option.splits)
    have w: "length w < length s"
      using skip_ws_Cons_less [OF s(1)] scan_string_less [OF s(2)] skip_ws_Cons_less [OF s(3)] by simp
    then have v': "parse_value m' w = Some (v, t)" by (intro val [OF vt]) (use m m' in simp)
    have t: "length t < length w" by (rule parse_value_less [OF vt])
    show ?thesis
    proof (cases "skip_ws t")
      case Nil
      with p s vt show ?thesis by (simp add: parse_members.simps(2))
    next
      case (Cons d u)
      have "2 * length u \<le> m'" using skip_ws_Cons_less [OF Cons] t w m m' by simp
      then show ?thesis using p Cons
        by (auto simp: parse_members.simps(2) m' s vt v' split: if_splits intro: mem)
    qed
  qed
  show ?case using pv pe pm by blast
qed simp

text \<open>Any fuel that gives a result gives the result of \<open>parse_json\<close>.\<close>

lemma parse_fuel: "parse_value n s = Some x \<Longrightarrow> 2 * length s \<le> m \<Longrightarrow> parse_value m s = Some x"
  using parse_fuel_aux [of n s x m undefined undefined] by simp

lemma parse_fuel_elements:
  "parse_elements n s = Some y \<Longrightarrow> 2 * length s < m \<Longrightarrow> parse_elements m s = Some y"
  using parse_fuel_aux [of n s undefined m y undefined] by simp

lemma parse_fuel_members:
  "parse_members n s = Some z \<Longrightarrow> 2 * length s \<le> m \<Longrightarrow> parse_members m s = Some z"
  using parse_fuel_aux [of n s undefined m undefined z] by simp

lemma parse_json_fuel: "parse_value n s = Some x \<Longrightarrow> parse_json s = Some x"
  unfolding parse_json_def by (erule parse_fuel) simp

section \<open>Reading back what was written\<close>

text \<open>What is read back: the same tree with every string valid UTF-8.\<close>

fun clean :: "json \<Rightarrow> json" where
  "clean (JStr s) = JStr (sanitize s)"
| "clean (JArr xs) = JArr (map clean xs)"
| "clean (JObj ms) = JObj (map (\<lambda>(k, v). (sanitize k, clean v)) ms)"
| "clean j = j"

text \<open>Enough fuel for the tree itself.\<close>

fun fuel_of :: "json \<Rightarrow> nat" where
  "fuel_of (JArr xs) = Suc (sum_list (map (\<lambda>x. Suc (fuel_of x)) xs))"
| "fuel_of (JObj ms) = Suc (sum_list (map (\<lambda>(k, v). Suc (fuel_of v)) ms))"
| "fuel_of _ = 1"

lemma skip_ws_nonspace [simp]: "\<not> is_space c \<Longrightarrow> skip_ws (c # s) = c # s"
  by (simp add: skip_ws_def)

lemma nonspace_simps [simp]:
  "\<not> is_space open_brace" "\<not> is_space close_brace" "\<not> is_space (CHR ''['')" "\<not> is_space (CHR '']'')"
  "\<not> is_space (CHR '','')" "\<not> is_space (CHR '':'')" "\<not> is_space dquote" "\<not> is_space (CHR ''n'')"
  "\<not> is_space (CHR ''t'')" "\<not> is_space (CHR ''f'')" "\<not> is_space (CHR ''-'')"
  by (simp_all add: is_space_def open_brace_def close_brace_def)

lemma digit_not_space: "is_digit c \<Longrightarrow> \<not> is_space c"
  unfolding is_space_def by (auto simp: is_digit_of_char)

lemma number_first_simps:
  assumes "is_digit c \<or> c = CHR ''-''"
  shows "c \<noteq> open_brace" "c \<noteq> CHR ''[''" "c \<noteq> dquote" "c \<noteq> CHR ''n''" "c \<noteq> CHR ''t''" "c \<noteq> CHR ''f''"
    "\<not> is_space c"
  using assms digit_not_space [of c] by (auto simp: is_digit_of_char open_brace_def)

text \<open>The text of a value is not empty and starts with none of the characters that close a value.\<close>

lemma marshal_first:
  assumes "numbers_ok j"
  obtains c t where "marshal j = c # t" "\<not> is_space c" "c \<noteq> CHR '']''" "c \<noteq> close_brace"
proof (cases j)
  case (JNum l)
  with assms have v: "valid_number l" by simp
  then obtain c t where "l = c # t" by (cases l) auto
  moreover with v have "is_digit c \<or> c = CHR ''-''" using valid_number_first by blast
  then have "\<not> is_space c \<and> c \<noteq> CHR '']'' \<and> c \<noteq> close_brace"
    using digit_not_space [of c] by (auto simp: is_digit_of_char close_brace_def)
  ultimately show ?thesis using that JNum by auto
next
  case (JBool b)
  then show ?thesis using that by (cases b) (auto simp: close_brace_def)
next
  case (JObj ms)
  then show ?thesis using that [of open_brace] by (auto simp: open_brace_def close_brace_def is_space_def)
qed (use that in \<open>auto simp: quote_def close_brace_def\<close>)

lemma scan_quote: "quote s @ rest = dquote # quote_body s @ dquote # rest"
  by (simp add: quote_def)

lemma brace_simps [simp]:
  "open_brace \<noteq> CHR ''[''" "CHR ''['' \<noteq> open_brace" "dquote \<noteq> open_brace" "dquote \<noteq> CHR ''[''"
  "CHR ''n'' \<noteq> open_brace" "CHR ''t'' \<noteq> open_brace" "CHR ''f'' \<noteq> open_brace"
  "CHR '','' \<noteq> close_brace" "close_brace \<noteq> CHR '',''"
  by (simp_all add: open_brace_def close_brace_def)

lemma number_ends_close_brace [simp]: "number_ends (close_brace # s)"
  by (simp add: close_brace_def)

lemma parse_value_string:
  "parse_value (Suc n) (quote s @ rest) = Some (JStr (sanitize s), rest)"
  by (simp add: parse_value.simps(2) scan_quote scan_quote_body)

lemma parse_value_number:
  assumes "valid_number l" "number_ends rest"
  shows "parse_value (Suc n) (l @ rest) = Some (JNum l, rest)"
proof -
  from assms(1) obtain c t where l: "l = c # t" by (cases l) auto
  have c: "is_digit c \<or> c = CHR ''-''" using valid_number_first assms(1) l by blast
  have "scan_number (c # t @ rest) = Some (l, rest)" using scan_valid_number [OF assms] l by simp
  then show ?thesis by (simp add: parse_value.simps(2) l number_first_simps [OF c])
qed

text \<open>The list laws: what the separators and closers do, for any element parser that works.\<close>

lemma parse_elements_marshal:
  assumes "\<And>x n rest. x \<in> set xs \<Longrightarrow> fuel_of x \<le> n \<Longrightarrow> number_ends rest \<Longrightarrow>
      parse_value n (marshal x @ rest) = Some (clean x, rest)"
    and "xs \<noteq> []" "sum_list (map (\<lambda>x. Suc (fuel_of x)) xs) \<le> n"
  shows "parse_elements n (join '','' (map marshal xs) @ CHR '']'' # rest) = Some (map clean xs, rest)"
  using assms
proof (induction xs arbitrary: n)
  case (Cons x xs)
  obtain m where n: "n = Suc m" using Cons.prems(3) by (cases n) auto
  show ?case
  proof (cases "xs = []")
    case True
    then show ?thesis using Cons.prems(1) [of x m] Cons.prems(3) n
      by (simp add: parse_elements.simps(2))
  next
    case False
    have "parse_elements m (join '','' (map marshal xs) @ CHR '']'' # rest) = Some (map clean xs, rest)"
      using Cons.prems False n by (intro Cons.IH) auto
    then show ?thesis using Cons.prems(1) [of x m] Cons.prems(3) n False
      by (simp add: parse_elements.simps(2) join_Cons)
  qed
qed simp

lemma parse_members_marshal:
  assumes "\<And>k x n rest. (k, x) \<in> set ms \<Longrightarrow> fuel_of x \<le> n \<Longrightarrow> number_ends rest \<Longrightarrow>
      parse_value n (marshal x @ rest) = Some (clean x, rest)"
    and "ms \<noteq> []" "sum_list (map (\<lambda>(k, x). Suc (fuel_of x)) ms) \<le> n"
  shows "parse_members n (join '','' (map (\<lambda>(k, v). quote k @ CHR '':'' # marshal v) ms) @ close_brace # rest)
    = Some (map (\<lambda>(k, v). (sanitize k, clean v)) ms, rest)"
  using assms
proof (induction ms arbitrary: n)
  case (Cons p ms)
  obtain k x where p: "p = (k, x)" by force
  obtain m where n: "n = Suc m" using Cons.prems(3) by (cases n) (auto simp: p)
  show ?case
  proof (cases "ms = []")
    case True
    then show ?thesis using Cons.prems(1) [of k x m] Cons.prems(3) n p
      by (simp add: parse_members.simps(2) scan_quote scan_quote_body)
  next
    case False
    have "parse_members m (join '','' (map (\<lambda>(k, v). quote k @ CHR '':'' # marshal v) ms) @ close_brace # rest)
        = Some (map (\<lambda>(k, v). (sanitize k, clean v)) ms, rest)"
      using Cons.prems False n by (intro Cons.IH) (auto simp: p)
    then show ?thesis using Cons.prems(1) [of k x m] Cons.prems(3) n p False
      by (simp add: parse_members.simps(2) join_Cons scan_quote scan_quote_body)
  qed
qed simp

lemma parse_marshal_fuel:
  "numbers_ok j \<Longrightarrow> fuel_of j \<le> n \<Longrightarrow> number_ends rest \<Longrightarrow>
   parse_value n (marshal j @ rest) = Some (clean j, rest)"
proof (induction j arbitrary: n rest rule: marshal.induct)
  case (2 b)
  then show ?case by (cases n) (auto simp: parse_value.simps(2) strip_def)
next
  case (3 l)
  then show ?case by (cases n) (auto simp: parse_value_number)
next
  case (4 s)
  then show ?case by (cases n) (auto simp: parse_value_string)
next
  case (5 xs)
  obtain m where n: "n = Suc m" using 5 by (cases n) auto
  show ?case
  proof (cases "xs = []")
    case True
    then show ?thesis by (simp add: n parse_value.simps(2))
  next
    case False
    have "parse_elements m (join '','' (map marshal xs) @ CHR '']'' # rest) = Some (map clean xs, rest)"
      using 5 False n by (intro parse_elements_marshal) auto
    moreover have "numbers_ok (hd xs)" using 5(2) False by simp
    then obtain c t where "marshal (hd xs) = c # t" "\<not> is_space c" "c \<noteq> CHR '']''"
      by (rule marshal_first)
    moreover have "\<exists>u. join '','' (map marshal xs) = marshal (hd xs) @ u"
      using False by (cases xs) (auto simp: join_Cons)
    ultimately show ?thesis by (auto simp: n parse_value.simps(2))
  qed
next
  case (6 ms)
  obtain m where n: "n = Suc m" using 6 by (cases n) auto
  show ?case
  proof (cases "ms = []")
    case True
    then show ?thesis by (simp add: n parse_value.simps(2))
  next
    case False
    have "parse_members m (join '','' (map (\<lambda>(k, v). quote k @ CHR '':'' # marshal v) ms) @ close_brace # rest)
        = Some (map (\<lambda>(k, v). (sanitize k, clean v)) ms, rest)"
      using 6 False n by (intro parse_members_marshal) auto
    moreover have "\<exists>u. join '','' (map (\<lambda>(k, v). quote k @ CHR '':'' # marshal v) ms) = dquote # u"
      using False by (cases ms) (auto simp: join_Cons quote_def)
    ultimately show ?thesis by (auto simp: n parse_value.simps(2) close_brace_def)
  qed
next
  case 1
  then show ?case by (cases n) (auto simp: parse_value.simps(2) strip_def)
qed

theorem parse_marshal:
  "numbers_ok j \<Longrightarrow> number_ends rest \<Longrightarrow> parse_json (marshal j @ rest) = Some (clean j, rest)"
  by (rule parse_json_fuel [OF parse_marshal_fuel]) auto

section \<open>No control character\<close>

text \<open>Encoded text is a single line: the encoder escapes every control character.\<close>

definition printable :: "string \<Rightarrow> bool" where
  "printable s \<longleftrightarrow> list_all (\<lambda>c. CHR 0x20 \<le> c) s"

lemma printable_simps [simp]:
  "printable []"
  "printable (c # s) \<longleftrightarrow> CHR 0x20 \<le> c \<and> printable s"
  "printable (s @ t) \<longleftrightarrow> printable s \<and> printable t"
  by (simp_all add: printable_def)

lemma printable_digits: "list_all is_digit s \<Longrightarrow> printable s"
proof -
  have "CHR 0x20 \<le> c" if "is_digit c" for c using that by (simp add: is_digit_of_char less_eq_char_def)
  then show "list_all is_digit s \<Longrightarrow> printable s" by (auto simp: printable_def list_all_iff)
qed

lemma printable_high: "list_all (\<lambda>c. CHR 0x80 \<le> c) s \<Longrightarrow> printable s"
  by (auto simp: printable_def list_all_iff less_eq_char_def)

lemma printable_hex [simp]: "CHR 0x20 \<le> hex_digit n"
proof -
  have "list_all (\<lambda>c. CHR 0x20 \<le> c) hex_digits" by (simp add: hex_digits_def)
  moreover have "hex_digits ! (n mod 16) \<in> set hex_digits" by (rule nth_mem) (simp add: hex_digits_def)
  ultimately show ?thesis by (simp add: list_all_iff hex_digit_def)
qed

lemma utf8_high: "\<not> a < CHR 0x80 \<Longrightarrow> list_all (\<lambda>c. CHR 0x80 \<le> c) (take (utf8_len (a # s)) (a # s))"
proof -
  have c: "cont_byte b \<Longrightarrow> CHR 0x80 \<le> b" for b by (simp add: cont_byte_def)
  have s2: "second_ok a b \<Longrightarrow> CHR 0x80 \<le> b" for a b
    using c by (auto simp: second_ok_def)
  assume "\<not> a < CHR 0x80"
  then show ?thesis
    by (auto split: list.splits if_splits dest: c s2 simp: not_less)
qed

lemma printable_quote_body: "printable (quote_body s)"
proof (induction s rule: quote_body.induct)
  case (2 a s)
  have "printable (escape a)" if "a < CHR 0x80"
    by (auto simp: escape_def not_less)
  moreover have "printable (escape_rune (a # s))" if "\<not> a < CHR 0x80"
    using utf8_high [OF that, of s] by (auto simp: escape_rune_def Let_def printable_high)
  ultimately show ?case using 2 by (simp del: utf8_len.simps)
qed simp

lemma printable_quote [simp]: "printable (quote s)"
  by (simp add: quote_def printable_quote_body)

lemma printable_takeWhile [simp]: "printable (takeWhile is_digit s)"
  by (rule printable_digits) (auto simp: list_all_iff dest: set_takeWhileD)

lemma printable_digit: "is_digit c \<Longrightarrow> CHR 0x20 \<le> c"
  using printable_digits [of "[c]"] by simp

lemma printable_int: "scan_int s = Some (l, r) \<Longrightarrow> printable l"
  by (cases s) (auto split: if_splits dest: printable_digit)

lemma printable_frac: "scan_frac s = Some (l, r) \<Longrightarrow> printable l"
  by (cases s) (auto split: if_splits)

lemma printable_sign: "printable (fst (scan_sign s))"
  by (cases s) auto

lemma printable_exp: "scan_exp s = Some (l, r) \<Longrightarrow> printable l"
  by (cases s) (auto simp: Let_def printable_sign split: if_splits)

lemma printable_minus: "printable (fst (scan_minus s))"
  by (cases s) (auto simp: scan_minus_def)

lemma printable_number: "valid_number l \<Longrightarrow> printable l"
proof -
  assume "valid_number l"
  then obtain i s2 f s3 e where l: "fst (scan_minus l) @ i @ f @ e = l"
    and s: "scan_int (snd (scan_minus l)) = Some (i, s2)" "scan_frac s2 = Some (f, s3)" "scan_exp s3 = Some (e, [])"
    unfolding valid_number_def scan_number_def by (auto simp: Let_def split: option.splits)
  have "printable (fst (scan_minus l) @ i @ f @ e)"
    using printable_int [OF s(1)] printable_frac [OF s(2)] printable_exp [OF s(3)] printable_minus by simp
  then show ?thesis unfolding l .
qed

lemma printable_join: "printable sep \<Longrightarrow> (\<And>x. x \<in> set xs \<Longrightarrow> printable x) \<Longrightarrow> printable (join sep xs)"
  by (induction xs) (auto simp: join_Cons)

lemma printable_marshal: "numbers_ok j \<Longrightarrow> printable (marshal j)"
proof (induction j rule: marshal.induct)
  case (5 xs)
  then show ?case by (auto intro!: printable_join)
next
  case (6 ms)
  then have "printable (marshal v)" if "(k, v) \<in> set ms" for k v using that by fastforce
  then show ?case by (auto simp: open_brace_def close_brace_def intro!: printable_join)
qed (auto simp: printable_number)

end
