(* ===== verification/Go_Map.thy ===== *)
theory Go_Map
  imports Prelude
begin

text \<open>
  Go maps with string keys, used for JSON objects (\<open>map[string]any\<close>), digests
  (\<open>map[string]string\<close>), the graph's \<open>nodeMap\<close> and the collector's \<open>processes\<close>. A map is
  represented by its entries in ascending key order, the order in which \<open>json.Marshal\<close> writes
  them; Go's own iteration order is random, and code that ranges over a map is modelled with the
  order as a parameter. The interface the clients use is the locale \<open>finite_map\<close>.
\<close>

section \<open>The interface\<close>

locale finite_map =
  fixes empty :: "'m"
    and put :: "'k \<Rightarrow> 'v \<Rightarrow> 'm \<Rightarrow> 'm"
    and get :: "'m \<Rightarrow> 'k \<Rightarrow> 'v option"
    and delete :: "'k \<Rightarrow> 'm \<Rightarrow> 'm"
    and wf :: "'m \<Rightarrow> bool"
  assumes wf_empty: "wf empty"
    and wf_put: "wf m \<Longrightarrow> wf (put k v m)"
    and wf_delete: "wf m \<Longrightarrow> wf (delete k m)"
    and get_empty: "get empty k = None"
    and get_put: "wf m \<Longrightarrow> get (put k v m) j = (if j = k then Some v else get m j)"
    and get_delete: "wf m \<Longrightarrow> get (delete k m) j = (if j = k then None else get m j)"
    and ext: "wf m \<Longrightarrow> wf m' \<Longrightarrow> (\<And>k. get m k = get m' k) \<Longrightarrow> m = m'"
begin

lemma put_overwrite: "wf m \<Longrightarrow> put k v (put k w m) = put k v m"
  by (rule ext) (auto simp: wf_put get_put)

lemma put_commute: "wf m \<Longrightarrow> j \<noteq> k \<Longrightarrow> put j v (put k w m) = put k w (put j v m)"
  by (rule ext) (auto simp: wf_put get_put)

lemma put_same: "wf m \<Longrightarrow> get m k = Some v \<Longrightarrow> put k v m = m"
  by (rule ext) (auto simp: wf_put get_put)

lemma delete_put: "wf m \<Longrightarrow> get m k = None \<Longrightarrow> delete k (put k v m) = m"
  by (rule ext) (auto simp: wf_put wf_delete get_put get_delete)

lemma put_delete: "wf m \<Longrightarrow> get m k = Some v \<Longrightarrow> put k v (delete k m) = m"
  by (rule ext) (auto simp: wf_put wf_delete get_put get_delete)

lemma wf_fold: "wf m \<Longrightarrow> wf (fold (\<lambda>(k, v). put k v) xs m)"
  by (induction xs arbitrary: m) (auto simp: wf_put)

text \<open>Entries put in sequence: the last one for a key wins.\<close>

lemma get_fold:
  "wf m \<Longrightarrow> get (fold (\<lambda>(k, v). put k v) xs m) j =
    (case map_of (rev xs) j of Some v \<Rightarrow> Some v | None \<Rightarrow> get m j)"
proof (induction xs arbitrary: m)
  case (Cons x xs)
  obtain k v where x: "x = (k, v)" by force
  show ?case
    using Cons.IH [of "put k v m"] Cons.prems
    by (auto simp: x wf_put get_put map_add_def map_of_append split: option.splits)
qed simp

end

section \<open>The representation\<close>

type_synonym 'v gomap = "(string \<times> 'v) list"

definition map_get :: "'v gomap \<Rightarrow> string \<Rightarrow> 'v option" where
  "map_get m k = map_of m k"

fun map_put :: "string \<Rightarrow> 'v \<Rightarrow> 'v gomap \<Rightarrow> 'v gomap" where
  "map_put k v [] = [(k, v)]"
| "map_put k v ((j, w) # m) =
     (if k = j then (k, v) # m else if k < j then (k, v) # (j, w) # m else (j, w) # map_put k v m)"

fun map_delete :: "string \<Rightarrow> 'v gomap \<Rightarrow> 'v gomap" where
  "map_delete k [] = []"
| "map_delete k ((j, w) # m) = (if k = j then m else (j, w) # map_delete k m)"

definition map_wf :: "'v gomap \<Rightarrow> bool" where
  "map_wf m \<longleftrightarrow> sorted_wrt (<) (map fst m)"

text \<open>A composite literal, or the members of a JSON object put one after the other.\<close>

definition map_lit :: "(string \<times> 'v) list \<Rightarrow> 'v gomap" where
  "map_lit xs = fold (\<lambda>(k, v). map_put k v) xs []"

lemma map_wf_Nil [simp]: "map_wf []"
  by (simp add: map_wf_def)

lemma map_wf_Cons: "map_wf ((k, v) # m) \<longleftrightarrow> (\<forall>j \<in> fst ` set m. k < j) \<and> map_wf m"
  by (auto simp: map_wf_def)

lemma keys_map_put: "fst ` set (map_put k v m) = insert k (fst ` set m)"
  by (induction m rule: map_put.induct) auto

lemma keys_map_delete: "fst ` set (map_delete k m) \<subseteq> fst ` set m"
  by (induction k m rule: map_delete.induct) (auto split: if_splits)

lemma map_wf_put: "map_wf m \<Longrightarrow> map_wf (map_put k v m)"
  by (induction k v m rule: map_put.induct) (auto simp: map_wf_Cons keys_map_put)

lemma map_wf_delete: "map_wf m \<Longrightarrow> map_wf (map_delete k m)"
  using keys_map_delete by (induction k m rule: map_delete.induct) (fastforce simp: map_wf_Cons)+

lemma map_get_put: "map_get (map_put k v m) j = (if j = k then Some v else map_get m j)"
  by (induction k v m rule: map_put.induct) (auto simp: map_get_def)

lemma map_get_not_key: "k \<notin> fst ` set m \<Longrightarrow> map_get m k = None"
  by (simp add: map_get_def map_of_eq_None_iff)

lemma map_get_delete: "map_wf m \<Longrightarrow> map_get (map_delete k m) j = (if j = k then None else map_get m j)"
proof (induction k m rule: map_delete.induct)
  case (2 k i w m)
  then have "map_get m i = None" by (intro map_get_not_key) (auto simp: map_wf_Cons)
  with 2 show ?case by (auto simp: map_get_def map_wf_Cons)
qed (simp add: map_get_def)

lemma map_wf_distinct: "map_wf m \<Longrightarrow> distinct (map fst m)"
  by (simp add: map_wf_def strict_sorted_iff)

lemma map_get_eq_Some: "map_wf m \<Longrightarrow> map_get m k = Some v \<longleftrightarrow> (k, v) \<in> set m"
  by (simp add: map_get_def map_wf_distinct)

lemma map_ext:
  assumes "map_wf m" "map_wf m'" "\<And>k. map_get m k = map_get m' k"
  shows "m = m'"
proof -
  have "set m = set m'"
    using map_get_eq_Some [OF assms(1)] map_get_eq_Some [OF assms(2)] assms(3) by force
  moreover have "sorted (map fst m)" "sorted (map fst m')" "distinct (map fst m)" "distinct (map fst m')"
    using assms(1,2) by (auto simp: map_wf_def strict_sorted_iff)
  ultimately show ?thesis by (intro map_sorted_distinct_set_unique [of fst])
      (auto simp: distinct_map inj_on_def dest: eq_key_imp_eq_value)
qed

interpretation gm: finite_map "[]" map_put map_get map_delete map_wf
  by unfold_locales
    (auto simp: map_wf_put map_wf_delete map_get_put map_get_delete map_get_not_key intro: map_ext)

lemma map_wf_lit [simp]: "map_wf (map_lit xs)"
  unfolding map_lit_def by (rule gm.wf_fold) simp

lemma map_get_lit: "map_get (map_lit xs) k = map_of (rev xs) k"
  unfolding map_lit_def by (subst gm.get_fold) (auto simp: map_get_def split: option.splits)

text \<open>A map is the literal of its own entries, in this order.\<close>

lemma map_put_last: "\<forall>j \<in> fst ` set m. j < k \<Longrightarrow> map_put k v m = m @ [(k, v)]"
  by (induction m) (force dest: order.asym)+

lemma map_lit_snoc: "map_lit (xs @ [(k, v)]) = map_put k v (map_lit xs)"
  by (simp add: map_lit_def)

lemma map_lit_wf: "map_wf m \<Longrightarrow> map_lit m = m"
proof (induction m rule: rev_induct)
  case (snoc x m)
  obtain k v where x: "x = (k, v)" by force
  have "map_wf m" "\<forall>j \<in> fst ` set m. j < k"
    using snoc.prems by (auto simp: map_wf_def sorted_wrt_append x)
  then show ?case using snoc.IH by (simp add: x map_lit_snoc map_put_last)
qed (simp add: map_lit_def)

lemma keys_fold_put:
  "fst ` set (fold (\<lambda>(k, v). map_put k v) xs m) = fst ` set xs \<union> fst ` set m"
proof (induction xs arbitrary: m)
  case (Cons x xs)
  obtain k v where x: "x = (k, v)" by force
  show ?case using Cons.IH [of "map_put k v m"] keys_map_put [of k v m] by (simp add: x)
qed simp

lemma keys_map_lit: "fst ` set (map_lit xs) = fst ` set xs"
  by (simp add: map_lit_def keys_fold_put)

lemma set_map_put: "set (map_put k v m) \<subseteq> insert (k, v) (set m)"
  by (induction k v m rule: map_put.induct) auto

lemma set_fold_put: "set (fold (\<lambda>(k, v). map_put k v) xs m) \<subseteq> set xs \<union> set m"
proof (induction xs arbitrary: m)
  case (Cons x xs)
  obtain k v where x: "x = (k, v)" by force
  have "set (fold (\<lambda>(k, v). map_put k v) xs (map_put k v m)) \<subseteq> set xs \<union> insert (k, v) (set m)"
    using Cons.IH [of "map_put k v m"] set_map_put [of k v m] by blast
  then show ?case by (auto simp: x)
qed simp

lemma set_map_lit: "set (map_lit xs) \<subseteq> set xs"
  using set_fold_put [of xs "[]"] by (simp add: map_lit_def)

text \<open>Values can be translated before or after the map is built.\<close>

definition map_vals :: "('a \<Rightarrow> 'b) \<Rightarrow> 'a gomap \<Rightarrow> 'b gomap" where
  "map_vals f m = map (\<lambda>(k, v). (k, f v)) m"

lemma map_vals_simps [simp]:
  "map_vals f [] = []"
  "map_vals f ((k, v) # m) = (k, f v) # map_vals f m"
  by (simp_all add: map_vals_def)

lemma map_vals_put: "map_vals f (map_put k v m) = map_put k (f v) (map_vals f m)"
  by (induction k v m rule: map_put.induct) auto

lemma map_vals_lit: "map_vals f (map_lit xs) = map_lit (map_vals f xs)"
proof -
  have "map_vals f (fold (\<lambda>(k, v). map_put k v) xs m) = fold (\<lambda>(k, v). map_put k v) (map_vals f xs) (map_vals f m)"
    for m by (induction xs arbitrary: m) (auto simp: map_vals_put)
  then show ?thesis by (simp add: map_lit_def)
qed

lemma keys_map_vals [simp]: "map fst (map_vals f m) = map fst m"
  by (induction m) auto

lemma map_wf_vals [simp]: "map_wf (map_vals f m) = map_wf m"
  by (simp add: map_wf_def)

lemma map_vals_cong [fundef_cong]:
  "m = m' \<Longrightarrow> (\<And>k v. (k, v) \<in> set m' \<Longrightarrow> f v = g v) \<Longrightarrow> map_vals f m = map_vals g m'"
  by (auto simp: map_vals_def)

lemma map_get_vals: "map_get (map_vals f m) k = map_option f (map_get m k)"
  by (induction m) (auto simp: map_get_def)

end
