(* ===== verification/Canon.thy ===== *)
theory Canon
  imports Json Go_Map
begin

text \<open>
  Values of Go's type \<open>any\<close>, and \<open>canonical\<close> and \<open>canonicalDigest\<close> of
  \<open>internal/rpf/parse.go\<close>: encode a value, decode the text into \<open>any\<close> with \<open>UseNumber\<close>, and
  encode again, which sorts the keys of every object and makes all text valid UTF-8. The lemmas
  show that the canonical text is the text of a normal form (\<open>canon\<close>), that it can be read back
  exactly, and that two values have the same canonical text only when they have the same normal
  form.
\<close>

section \<open>Dynamic values\<close>

text \<open>
  The dynamic types the code stores in an \<open>any\<close>: what the decoder makes of a document
  (\<open>nil\<close>, booleans, \<open>json.Number\<close>, strings, \<open>[]any\<close>, \<open>map[string]any\<close>), Go integers, and
  struct values (here the slice of graph nodes inside a Runtime Trace), known by their encoding.
  No type switch or assertion of the code selects the last two.
\<close>

datatype any =
    ANil
  | ABool bool
  | ANumber string
  | AString string
  | AInt int
  | AStruct json
  | AList "any list"
  | AMap "(string \<times> any) list"

text \<open>Decoding into \<open>any\<close>: of two members with the same name the later one stays.\<close>

fun any_of :: "json \<Rightarrow> any" where
  "any_of JNull = ANil"
| "any_of (JBool b) = ABool b"
| "any_of (JNum l) = ANumber l"
| "any_of (JStr s) = AString s"
| "any_of (JArr xs) = AList (map any_of xs)"
| "any_of (JObj ms) = AMap (map_lit (map_vals any_of ms))"

fun enc_any :: "any \<Rightarrow> json" where
  "enc_any ANil = JNull"
| "enc_any (ABool b) = JBool b"
| "enc_any (ANumber l) = JNum (if l = [] then ''0'' else l)"
| "enc_any (AString s) = JStr s"
| "enc_any (AInt i) = JNum (dec_int i)"
| "enc_any (AStruct j) = j"
| "enc_any (AList xs) = JArr (map enc_any xs)"
| "enc_any (AMap m) = JObj (map_vals enc_any m)"

section \<open>canonical\<close>

definition canonical :: "json \<Rightarrow> string result" where
  "canonical value =
     (case json_marshal value of
        None \<Rightarrow> Inl (ParseErr MarshalFailed)
      | Some raw \<Rightarrow>
          (case parse_json raw of
             None \<Rightarrow> Inl (ParseErr InvalidJSON)
           | Some (generic, _) \<Rightarrow>
               of_option (ParseErr MarshalFailed) (json_marshal (enc_any (any_of generic)))))"

text \<open>\<open>Digest\<close> of parse.go.\<close>

definition Digest :: "bytes \<Rightarrow> string" where
  "Digest data = hex_encode (sum256 data)"

definition canonicalDigest :: "json \<Rightarrow> string result" where
  "canonicalDigest value = and_then (canonical value) (\<lambda>raw. Inr (Digest raw))"

lemma length_Digest [simp]: "length (Digest d) = 64"
  by (simp add: Digest_def)

lemma Digest_nonempty [simp]: "Digest d \<noteq> []"
  using length_Digest [of d] by (metis list.size(3) zero_neq_numeral)

lemma Digest_ascii: "list_all (\<lambda>c. c < CHR 0x80) (Digest d)"
proof -
  have "list_all (\<lambda>c. c < CHR 0x80) hex_digits" by (simp add: hex_digits_def)
  then show ?thesis using hex_encode_digits [of "sum256 d"]
    by (auto simp: Digest_def list_all_iff)
qed

lemma sanitize_Digest [simp]: "sanitize (Digest d) = Digest d"
  by (rule sanitize_ascii [OF Digest_ascii])

section \<open>Normal forms\<close>

text \<open>Keys sorted and unique in every object.\<close>

fun sort_keys :: "json \<Rightarrow> json" where
  "sort_keys (JArr xs) = JArr (map sort_keys xs)"
| "sort_keys (JObj ms) = JObj (map_lit (map_vals sort_keys ms))"
| "sort_keys j = j"

fun sorted_keys :: "json \<Rightarrow> bool" where
  "sorted_keys (JArr xs) = (\<forall>x \<in> set xs. sorted_keys x)"
| "sorted_keys (JObj ms) = (map_wf ms \<and> (\<forall>(k, v) \<in> set ms. sorted_keys v))"
| "sorted_keys j = True"

fun all_clean :: "json \<Rightarrow> bool" where
  "all_clean (JStr s) = valid_utf8 s"
| "all_clean (JArr xs) = (\<forall>x \<in> set xs. all_clean x)"
| "all_clean (JObj ms) = (\<forall>(k, v) \<in> set ms. valid_utf8 k \<and> all_clean v)"
| "all_clean j = True"

definition canon :: "json \<Rightarrow> json" where
  "canon j = sort_keys (clean j)"

text \<open>The normal forms: the documents \<open>canonical\<close> writes.\<close>

definition normal :: "json \<Rightarrow> bool" where
  "normal j \<longleftrightarrow> sorted_keys j \<and> all_clean j \<and> numbers_ok j"

lemma map_vals_map_vals [simp]: "map_vals f (map_vals g m) = map_vals (\<lambda>v. f (g v)) m"
  by (auto simp: map_vals_def)

lemma set_map_vals: "set (map_vals f m) = (\<lambda>(k, v). (k, f v)) ` set m"
  by (simp add: map_vals_def)

lemma map_lit_vals_mem: "(k, w) \<in> set (map_lit (map_vals f ms)) \<Longrightarrow> \<exists>v. (k, v) \<in> set ms \<and> w = f v"
  using set_map_lit [of "map_vals f ms"] by (auto simp: set_map_vals)

lemma clean_JObj: "clean (JObj ms) = JObj (map_vals clean (map (\<lambda>(k, v). (sanitize k, v)) ms))"
  by (auto simp: map_vals_def)

lemma numbers_ok_clean [simp]: "numbers_ok (clean j) = numbers_ok j"
  by (induction j rule: clean.induct) auto

lemma enc_any_any_of: "numbers_ok j \<Longrightarrow> enc_any (any_of j) = sort_keys j"
proof (induction j rule: sort_keys.induct)
  case (2 ms)
  then have "map_vals (\<lambda>v. enc_any (any_of v)) ms = map_vals sort_keys ms"
    by (auto simp: map_vals_def)
  then show ?case by (simp add: map_vals_lit)
qed auto

lemma numbers_ok_sort_keys: "numbers_ok j \<Longrightarrow> numbers_ok (sort_keys j)"
proof (induction j rule: sort_keys.induct)
  case (2 ms)
  then show ?case by (fastforce dest: map_lit_vals_mem)
qed auto

lemma all_clean_clean [simp]: "all_clean (clean j)"
  by (induction j rule: clean.induct) auto

lemma clean_all_clean: "all_clean j \<Longrightarrow> clean j = j"
proof (induction j rule: clean.induct)
  case (2 xs)
  then show ?case by (simp add: map_idI)
next
  case (3 ms)
  then have "map (\<lambda>(k, v). (sanitize k, clean v)) ms = ms"
    by (intro map_idI) (auto simp: sanitize_valid)
  then show ?case by simp
qed (auto simp: sanitize_valid)

lemma all_clean_sort_keys: "all_clean j \<Longrightarrow> all_clean (sort_keys j)"
proof (induction j rule: sort_keys.induct)
  case (2 ms)
  then show ?case by (fastforce dest: map_lit_vals_mem)
qed auto

lemma sorted_keys_sort_keys [simp]: "sorted_keys (sort_keys j)"
proof (induction j rule: sort_keys.induct)
  case (2 ms)
  then show ?case by (fastforce dest: map_lit_vals_mem)
qed auto

lemma sort_keys_sorted: "sorted_keys j \<Longrightarrow> sort_keys j = j"
proof (induction j rule: sort_keys.induct)
  case (1 xs)
  then show ?case by (simp add: map_idI)
next
  case (2 ms)
  then have "map_vals sort_keys ms = ms"
    unfolding map_vals_def by (intro map_idI) auto
  with 2 show ?case by (simp add: map_lit_wf)
qed auto

lemma normal_canon [simp]: "numbers_ok j \<Longrightarrow> normal (canon j)"
  by (simp add: normal_def canon_def numbers_ok_sort_keys all_clean_sort_keys)

lemma canon_normal: "normal j \<Longrightarrow> canon j = j"
  by (simp add: normal_def canon_def clean_all_clean sort_keys_sorted)

lemma clean_normal: "normal j \<Longrightarrow> clean j = j"
  by (simp add: normal_def clean_all_clean)

section \<open>What canonical computes\<close>

lemma canonical_eq: "numbers_ok j \<Longrightarrow> canonical j = Inr (marshal (canon j))"
proof -
  assume j: "numbers_ok j"
  then have "parse_json (marshal j @ []) = Some (clean j, [])" by (intro parse_marshal) auto
  then show ?thesis
    using j numbers_ok_sort_keys [of "clean j"]
    by (simp add: canonical_def json_marshal_def enc_any_any_of canon_def)
qed

lemma canonical_ok_iff: "canonical j = Inr raw \<longleftrightarrow> numbers_ok j \<and> raw = marshal (canon j)"
  using canonical_eq [of j] by (auto simp: canonical_def json_marshal_def)

text \<open>The canonical text reads back as the normal form, whatever follows it.\<close>

lemma parse_normal: "normal j \<Longrightarrow> number_ends rest \<Longrightarrow> parse_json (marshal j @ rest) = Some (j, rest)"
  using parse_marshal [of j rest] by (simp add: normal_def clean_all_clean)

lemma marshal_inject: "normal j \<Longrightarrow> normal j' \<Longrightarrow> marshal j = marshal j' \<longleftrightarrow> j = j'"
  by (metis append_Nil2 number_ends_simps(1) option.inject parse_normal prod.inject)

lemma canonical_normal: "normal j \<Longrightarrow> canonical j = Inr (marshal j)"
  using canonical_eq [of j] canon_normal [of j] by (simp add: normal_def)

lemma any_of_enc_normal: "normal j \<Longrightarrow> enc_any (any_of j) = j"
  by (simp add: normal_def enc_any_any_of sort_keys_sorted)

lemma numbers_ok_any_of: "numbers_ok j \<Longrightarrow> numbers_ok (enc_any (any_of j))"
  by (simp add: enc_any_any_of numbers_ok_sort_keys)

end
