(* ===== verification/Decode.thy ===== *)
theory Decode
  imports Canon
begin

text \<open>
  Decoding a JSON tree into Go values with \<open>DisallowUnknownFields\<close>: strings, booleans, sized
  integers, pointers, slices, maps and structs. A decoder takes the value already in place and
  returns the new one, because \<open>encoding/json\<close> decodes into existing values: \<open>null\<close> leaves a
  scalar or struct as it is, and a member that appears twice decodes over its first value.
  A member is matched to a field by its exact name, else by its name with case folded. \<open>None\<close>
  is a decoding error. The locale \<open>codec\<close> states what an encoder and a decoder of one type owe each
  other; every struct of the model interprets it.
\<close>

type_synonym 'a decode = "json \<Rightarrow> 'a \<Rightarrow> 'a option"

section \<open>Scalars\<close>

definition dec_string :: "string decode" where
  "dec_string j s = (case j of JNull \<Rightarrow> Some s | JStr t \<Rightarrow> Some t | _ \<Rightarrow> None)"

definition dec_bool :: "bool decode" where
  "dec_bool j b = (case j of JNull \<Rightarrow> Some b | JBool c \<Rightarrow> Some c | _ \<Rightarrow> None)"

definition dec_uint64 :: "uint64 decode" where
  "dec_uint64 j w = (case j of JNull \<Rightarrow> Some w | JNum l \<Rightarrow> map_option of_nat (parse_uint l) | _ \<Rightarrow> None)"

definition dec_uint32 :: "uint32 decode" where
  "dec_uint32 j w =
     (case j of
        JNull \<Rightarrow> Some w
      | JNum l \<Rightarrow>
          (case parse_uint l of
             Some n \<Rightarrow> if n < 2 ^ 32 then Some (of_nat n) else None
           | None \<Rightarrow> None)
      | _ \<Rightarrow> None)"

definition dec_int32 :: "int32 decode" where
  "dec_int32 j w =
     (case j of
        JNull \<Rightarrow> Some w
      | JNum l \<Rightarrow>
          (case parse_int l of
             Some i \<Rightarrow> if - (2 ^ 31) \<le> i \<and> i < 2 ^ 31 then Some (of_int i) else None
           | None \<Rightarrow> None)
      | _ \<Rightarrow> None)"

definition enc_uint :: "'a::len word \<Rightarrow> json" where
  "enc_uint w = JNum (dec_nat (unat w))"

definition enc_int :: "'a::len word \<Rightarrow> json" where
  "enc_int w = JNum (dec_int (sint w))"

section \<open>Pointers, slices and maps\<close>

definition dec_ptr :: "'a decode \<Rightarrow> 'a \<Rightarrow> 'a option decode" where
  "dec_ptr dec zero j p =
     (case j of
        JNull \<Rightarrow> Some None
      | _ \<Rightarrow> map_option Some (dec j (case p of None \<Rightarrow> zero | Some x \<Rightarrow> x)))"

fun dec_list :: "'a decode \<Rightarrow> 'a \<Rightarrow> json list \<Rightarrow> 'a list \<Rightarrow> 'a list option" where
  "dec_list dec zero [] old = Some []"
| "dec_list dec zero (j # js) old =
     (case dec j (case old of [] \<Rightarrow> zero | x # _ \<Rightarrow> x) of
        None \<Rightarrow> None
      | Some y \<Rightarrow> map_option (\<lambda>ys. y # ys) (dec_list dec zero js (tl old)))"

text \<open>The elements of an array decode over the elements the slice already holds.\<close>

definition dec_slice :: "'a decode \<Rightarrow> 'a \<Rightarrow> 'a slice decode" where
  "dec_slice dec zero j s =
     (case j of
        JNull \<Rightarrow> Some None
      | JArr js \<Rightarrow> map_option Some (dec_list dec zero js (elems s))
      | _ \<Rightarrow> None)"

fun dec_entries :: "'a decode \<Rightarrow> 'a \<Rightarrow> (string \<times> json) list \<Rightarrow> 'a gomap \<Rightarrow> 'a gomap option" where
  "dec_entries dec zero [] m = Some m"
| "dec_entries dec zero ((k, j) # ms) m =
     (case dec j zero of None \<Rightarrow> None | Some v \<Rightarrow> dec_entries dec zero ms (map_put k v m))"

text \<open>A map keeps the entries it has; the members of the object are added.\<close>

definition dec_map :: "'a decode \<Rightarrow> 'a \<Rightarrow> 'a gomap option decode" where
  "dec_map dec zero j m =
     (case j of
        JNull \<Rightarrow> Some None
      | JObj ms \<Rightarrow> map_option Some (dec_entries dec zero ms (elems m))
      | _ \<Rightarrow> None)"

definition dec_any :: "any decode" where
  "dec_any j a = Some (any_of j)"

definition enc_map :: "('a \<Rightarrow> json) \<Rightarrow> 'a gomap option \<Rightarrow> json" where
  "enc_map enc m = (case m of None \<Rightarrow> JNull | Some es \<Rightarrow> JObj (map_vals enc es))"

definition enc_slice :: "('a \<Rightarrow> json) \<Rightarrow> 'a slice \<Rightarrow> json" where
  "enc_slice enc s = (case s of None \<Rightarrow> JNull | Some xs \<Rightarrow> JArr (map enc xs))"

definition enc_ptr :: "('a \<Rightarrow> json) \<Rightarrow> 'a option \<Rightarrow> json" where
  "enc_ptr enc p = (case p of None \<Rightarrow> JNull | Some x \<Rightarrow> enc x)"

section \<open>Structs\<close>

definition upper :: "char \<Rightarrow> char" where
  "upper c =
     (case map_of (zip ''abcdefghijklmnopqrstuvwxyz'' ''ABCDEFGHIJKLMNOPQRSTUVWXYZ'') c of
        Some u \<Rightarrow> u | None \<Rightarrow> c)"

text \<open>
  Case folding of a member name. Of the multi-byte runes only U+017F and U+212A fold to ASCII
  (to S and K); the others cannot match a field name of this repository, all of them ASCII.
\<close>

fun fold_name :: "string \<Rightarrow> string" where
  "fold_name [] = []"
| "fold_name (a # s) =
     (if a = CHR 0xC5 \<and> take 1 s = [CHR 0xBF] then CHR ''S'' # fold_name (drop 1 s)
      else if a = CHR 0xE2 \<and> take 2 s = [CHR 0x84, CHR 0xAA] then CHR ''K'' # fold_name (drop 2 s)
      else upper a # fold_name s)"

definition find_field :: "(string \<times> 'f) list \<Rightarrow> string \<Rightarrow> 'f option" where
  "find_field fs k =
     (case map_of fs k of
        Some f \<Rightarrow> Some f
      | None \<Rightarrow> map_of (map (\<lambda>(n, f). (fold_name n, f)) fs) (fold_name k))"

fun dec_members :: "(string \<times> 'r decode) list \<Rightarrow> (string \<times> json) list \<Rightarrow> 'r \<Rightarrow> 'r option" where
  "dec_members fs [] r = Some r"
| "dec_members fs ((k, j) # ms) r =
     (case find_field fs k of
        None \<Rightarrow> None
      | Some f \<Rightarrow> (case f j r of None \<Rightarrow> None | Some r' \<Rightarrow> dec_members fs ms r'))"

definition dec_struct :: "(string \<times> 'r decode) list \<Rightarrow> 'r decode" where
  "dec_struct fs j r =
     (case j of JNull \<Rightarrow> Some r | JObj ms \<Rightarrow> dec_members fs ms r | _ \<Rightarrow> None)"

declare dec_members.simps(2) [simp del]

text \<open>A field: how to read it, how to update it, and how to decode its type.\<close>

definition field :: "('r \<Rightarrow> 'a) \<Rightarrow> (('a \<Rightarrow> 'a) \<Rightarrow> 'r \<Rightarrow> 'r) \<Rightarrow> 'a decode \<Rightarrow> 'r decode" where
  "field get update dec j r = map_option (\<lambda>x. update (\<lambda>_. x) r) (dec j (get r))"

section \<open>Laws of the decoders on canonical trees\<close>

named_theorems decode_simps

lemma dec_string_JStr [decode_simps]: "dec_string (JStr t) s = Some t"
  by (simp add: dec_string_def)

lemma dec_bool_JBool [decode_simps]: "dec_bool (JBool c) b = Some c"
  by (simp add: dec_bool_def)

lemma dec_uint64_enc [decode_simps]: "dec_uint64 (enc_uint (w :: uint64)) v = Some w"
  by (simp add: dec_uint64_def enc_uint_def)

lemma unat_uint32_less: "unat (w :: 32 word) < 2 ^ 32"
  using unsigned_less [of w] by simp

lemma dec_uint32_enc [decode_simps]: "dec_uint32 (enc_uint (w :: uint32)) v = Some w"
proof -
  have w: "unat w < 2 ^ 32" by (rule unat_uint32_less)
  then have "parse_uint (dec_nat (unat w)) = Some (unat w)" by (intro parse_uint_dec_nat) simp
  with w show ?thesis by (simp add: dec_uint32_def enc_uint_def)
qed

lemma parse_int_dec_int: "- (2 ^ 63) \<le> i \<Longrightarrow> i < 2 ^ 63 \<Longrightarrow> parse_int (dec_int i) = Some i"
proof (cases "i < 0")
  case True
  moreover assume "- (2 ^ 63) \<le> i"
  ultimately have "nat (- i) \<le> 2 ^ 63" by simp
  with True show ?thesis by (simp add: dec_int_def parse_int_def Let_def dec_nat_digits)
next
  case False
  moreover assume "i < 2 ^ 63"
  ultimately show ?thesis using parse_int_dec_nat [of "nat i"] by (simp add: dec_int_def)
qed

lemma dec_int32_enc [decode_simps]: "dec_int32 (enc_int (w :: int32)) v = Some w"
proof -
  have w: "- (2 ^ 31) \<le> sint w" "sint w < 2 ^ 31"
    using sint_greater_eq [of w] sint_less [of w] by simp_all
  then have "parse_int (dec_int (sint w)) = Some (sint w)" by (intro parse_int_dec_int) simp_all
  with w show ?thesis by (simp add: dec_int32_def enc_int_def)
qed

lemma enc_uint_numbers [simp]: "numbers_ok (enc_uint w)"
  by (simp add: enc_uint_def)

lemma enc_int_numbers [simp]: "numbers_ok (enc_int w)"
  by (simp add: enc_int_def)

lemma dec_list_map:
  assumes "\<And>x. x \<in> set xs \<Longrightarrow> dec (f x) zero = Some (g x)"
  shows "dec_list dec zero (map f xs) [] = Some (map g xs)"
  using assms by (induction xs) auto

lemma dec_entries_map:
  assumes "\<And>k x. (k, x) \<in> set ms \<Longrightarrow> dec (f x) zero = Some (g x)"
  shows "dec_entries dec zero (map_vals f ms) m = Some (fold (\<lambda>(k, v). map_put k v) (map_vals g ms) m)"
  using assms
proof (induction ms arbitrary: m)
  case (Cons e ms)
  obtain k x where e: "e = (k, x)" by force
  have "dec (f x) zero = Some (g x)" by (rule Cons.prems [of k]) (simp add: e)
  moreover have "dec_entries dec zero (map_vals f ms) m'
      = Some (fold (\<lambda>(k, v). map_put k v) (map_vals g ms) m')" for m'
    using Cons.prems by (intro Cons.IH) auto
  ultimately show ?case by (simp add: e)
qed simp

lemma find_field_exact: "map_of fs k = Some f \<Longrightarrow> find_field fs k = Some f"
  by (simp add: find_field_def)

lemma dec_members_Cons_exact [decode_simps]:
  "map_of fs k = Some f \<Longrightarrow>
   dec_members fs ((k, j) # ms) r = (case f j r of None \<Rightarrow> None | Some r' \<Rightarrow> dec_members fs ms r')"
  by (simp add: dec_members.simps find_field_exact)

lemma dec_struct_JObj [decode_simps]: "dec_struct fs (JObj ms) r = dec_members fs ms r"
  by (simp add: dec_struct_def)

lemma field_eq [decode_simps]: "field get update dec j r = map_option (\<lambda>x. update (\<lambda>_. x) r) (dec j (get r))"
  by (simp add: field_def)

section \<open>Canonical form of encodings\<close>

named_theorems canon_simps

lemma canon_leaf [canon_simps]:
  "canon JNull = JNull" "canon (JBool b) = JBool b" "canon (JNum l) = JNum l"
  "canon (JStr s) = JStr (sanitize s)" "canon (JArr xs) = JArr (map canon xs)"
  by (simp_all add: canon_def)

lemma canon_enc_uint [canon_simps]: "canon (enc_uint w) = enc_uint w"
  by (simp add: enc_uint_def canon_simps)

lemma canon_enc_int [canon_simps]: "canon (enc_int w) = enc_int w"
  by (simp add: enc_int_def canon_simps)

lemma canon_JObj: "canon (JObj ms) = JObj (map_lit (map (\<lambda>(k, v). (sanitize k, canon v)) ms))"
proof -
  have "map_vals sort_keys (map (\<lambda>(k, v). (sanitize k, clean v)) ms)
      = map (\<lambda>(k, v). (sanitize k, canon v)) ms"
    by (induction ms) (auto simp: canon_def)
  then show ?thesis by (simp add: canon_def)
qed

definition norm_any :: "any \<Rightarrow> any" where
  "norm_any a = any_of (canon (enc_any a))"

definition norm_entries :: "('a \<Rightarrow> 'a) \<Rightarrow> 'a gomap option \<Rightarrow> 'a gomap option" where
  "norm_entries norm m = map_option (\<lambda>es. map_lit (map (\<lambda>(k, v). (sanitize k, norm v)) es)) m"

definition norm_map :: "any gomap option \<Rightarrow> any gomap option" where
  "norm_map m = norm_entries norm_any m"

definition norm_strings :: "string gomap option \<Rightarrow> string gomap option" where
  "norm_strings m = norm_entries sanitize m"

lemma map_vals_map_lit_pairs:
  "map_vals f (map_lit (map (\<lambda>(k, v). (h k, g v)) es)) = map_lit (map (\<lambda>(k, v). (h k, f (g v))) es)"
proof -
  have "map_vals f (map (\<lambda>(k, v). (h k, g v)) es) = map (\<lambda>(k, v). (h k, f (g v))) es"
    by (induction es) auto
  then show ?thesis by (simp add: map_vals_lit)
qed

lemma map_lit_pairs_cong:
  "(\<And>k v. (k, v) \<in> set es \<Longrightarrow> f v = g v) \<Longrightarrow>
   map_lit (map (\<lambda>(k, v). (h k, f v)) es) = map_lit (map (\<lambda>(k, v). (h k, g v)) es)"
  by (rule arg_cong [where f = map_lit]) (rule map_cong, auto)

lemma canon_enc_map:
  "canon (enc_map enc (Some es)) = JObj (map_lit (map (\<lambda>(k, v). (sanitize k, canon (enc v))) es))"
proof -
  have "map (\<lambda>(k, v). (sanitize k, canon v)) (map_vals enc es)
      = map (\<lambda>(k, v). (sanitize k, canon (enc v))) es"
    by (induction es) auto
  then show ?thesis by (simp add: enc_map_def canon_JObj)
qed

lemma canon_enc_map_None [canon_simps]: "canon (enc_map enc None) = JNull"
  by (simp add: enc_map_def canon_simps)

lemma dec_map_canon:
  assumes dec: "\<And>k v. (k, v) \<in> set (elems m) \<Longrightarrow> dec (canon (enc v)) zero = Some (norm v)"
  shows "dec_map dec zero (canon (enc_map enc m)) None = Some (norm_entries norm m)"
proof (cases m)
  case None
  then show ?thesis by (simp add: canon_simps dec_map_def norm_entries_def)
next
  case (Some es)
  let ?k = "map_lit (map (\<lambda>(k, v). (sanitize k, v)) es)"
  have "dec (canon (enc v)) zero = Some (norm v)" if "(k, v) \<in> set ?k" for k v
    using set_map_lit [of "map (\<lambda>(k, v). (sanitize k, v)) es"] that dec by (auto simp: Some)
  then have "dec_entries dec zero (map_vals (\<lambda>v. canon (enc v)) ?k) []
      = Some (fold (\<lambda>(k, v). map_put k v) (map_vals norm ?k) [])"
    by (rule dec_entries_map)
  then have "dec_entries dec zero (map_vals (\<lambda>v. canon (enc v)) ?k) [] = Some (map_vals norm ?k)"
    using map_lit_wf [of "map_vals norm ?k"] by (simp add: map_lit_def [symmetric])
  then show ?thesis
    unfolding Some canon_enc_map by (simp add: dec_map_def norm_entries_def map_vals_map_lit_pairs)
qed

lemma canon_enc_norm:
  assumes canon: "\<And>k v. (k, v) \<in> set (elems m) \<Longrightarrow> canon (enc (norm v)) = canon (enc v)"
  shows "canon (enc_map enc (norm_entries norm m)) = canon (enc_map enc m)"
proof (cases m)
  case (Some es)
  let ?n = "map_lit (map (\<lambda>(k, v). (sanitize k, norm v)) es)"
  have "sanitize k = k" if "(k, v) \<in> set ?n" for k v
    using set_map_lit [of "map (\<lambda>(k, v). (sanitize k, norm v)) es"] that by auto
  then have "map (\<lambda>(k, v). (sanitize k, canon (enc v))) ?n = map_vals (\<lambda>v. canon (enc v)) ?n"
    unfolding map_vals_def by (intro map_cong) auto
  moreover have "map_lit (map_vals (\<lambda>v. canon (enc v)) ?n) = map_vals (\<lambda>v. canon (enc v)) ?n"
    by (rule map_lit_wf) simp
  moreover have "map_vals (\<lambda>v. canon (enc v)) ?n = map_lit (map (\<lambda>(k, v). (sanitize k, canon (enc v))) es)"
    unfolding map_vals_map_lit_pairs by (rule map_lit_pairs_cong) (use canon Some in auto)
  ultimately show ?thesis
    unfolding Some by (simp add: norm_entries_def canon_enc_map)
qed (simp add: norm_entries_def)

lemma norm_entries_empty [simp]: "elems (norm_entries norm m) = [] \<longleftrightarrow> elems m = []"
proof (cases m)
  case (Some es)
  then show ?thesis
    using keys_map_lit [of "map (\<lambda>(k, v). (sanitize k, norm v)) es"] by (auto simp: norm_entries_def)
qed (simp add: norm_entries_def)

lemma norm_map_empty [simp]: "elems (norm_map m) = [] \<longleftrightarrow> elems m = []"
  by (simp add: norm_map_def)

subsection \<open>The maps of the code: to \<open>any\<close> and to strings\<close>

lemma enc_norm_any: "numbers_ok (enc_any a) \<Longrightarrow> enc_any (norm_any a) = canon (enc_any a)"
  by (simp add: norm_any_def any_of_enc_normal)

lemma numbers_ok_canon: "numbers_ok j \<Longrightarrow> numbers_ok (canon j)"
  by (simp add: canon_def numbers_ok_sort_keys)

lemma canon_idem: "numbers_ok j \<Longrightarrow> canon (canon j) = canon j"
  by (simp add: canon_normal)

lemma dec_any_canon [decode_simps]: "dec_map dec_any ANil (canon (enc_map enc_any m)) None = Some (norm_map m)"
  unfolding norm_map_def by (rule dec_map_canon) (simp add: dec_any_def norm_any_def)

lemma dec_strings_canon [decode_simps]:
  "dec_map dec_string [] (canon (enc_map JStr m)) None = Some (norm_strings m)"
  unfolding norm_strings_def by (rule dec_map_canon) (simp add: dec_string_def canon_simps)

lemma canon_norm_map [canon_simps]:
  assumes "numbers_ok (enc_map enc_any m)"
  shows "canon (enc_map enc_any (norm_map m)) = canon (enc_map enc_any m)"
  unfolding norm_map_def
proof (rule canon_enc_norm)
  fix k v
  assume "(k, v) \<in> set (elems m)"
  then have "numbers_ok (enc_any v)"
    using assms by (cases m) (force simp: enc_map_def set_map_vals)+
  then show "canon (enc_any (norm_any v)) = canon (enc_any v)"
    by (simp add: enc_norm_any canon_idem)
qed

lemma canon_norm_strings [canon_simps]: "canon (enc_map JStr (norm_strings m)) = canon (enc_map JStr m)"
  unfolding norm_strings_def by (rule canon_enc_norm) (simp add: canon_simps sanitize_idem)

lemma numbers_norm_map [simp]:
  "numbers_ok (enc_map enc_any m) \<Longrightarrow> numbers_ok (enc_map enc_any (norm_map m))"
proof (cases m)
  case (Some es)
  assume ok: "numbers_ok (enc_map enc_any m)"
  have "numbers_ok (enc_any (norm_any v))" if "(k, v) \<in> set es" for k v
    using ok that Some by (auto simp: norm_any_def enc_map_def set_map_vals intro!: numbers_ok_any_of numbers_ok_canon)
  then show ?thesis
    using set_map_lit [of "map (\<lambda>(k, v). (sanitize k, norm_any v)) es"]
    by (fastforce simp: Some norm_map_def norm_entries_def enc_map_def set_map_vals)
qed (simp add: norm_map_def norm_entries_def enc_map_def)

lemma numbers_enc_strings [simp]: "numbers_ok (enc_map JStr m)"
  by (cases m) (auto simp: enc_map_def set_map_vals)

section \<open>The interface between an encoder and a decoder\<close>

locale codec =
  fixes enc :: "'a \<Rightarrow> json"
    and dec :: "'a decode"
    and zero :: "'a"
    and ok :: "'a \<Rightarrow> bool"
    and norm :: "'a \<Rightarrow> 'a"
  assumes numbers: "ok x \<Longrightarrow> numbers_ok (enc x)"
    and dec_canon: "ok x \<Longrightarrow> dec (canon (enc x)) zero = Some (norm x)"
    and enc_norm: "ok x \<Longrightarrow> canon (enc (norm x)) = canon (enc x)"
    and ok_norm: "ok x \<Longrightarrow> ok (norm x)"
begin

lemma canonical_enc: "ok x \<Longrightarrow> canonical (enc x) = Inr (marshal (canon (enc x)))"
  by (simp add: canonical_eq numbers)

lemma normal_enc: "ok x \<Longrightarrow> normal (canon (enc x))"
  by (simp add: numbers)

lemma canonical_norm: "ok x \<Longrightarrow> canonical (enc (norm x)) = canonical (enc x)"
  by (simp add: canonical_enc ok_norm enc_norm)

text \<open>Decoding the canonical text gives the value back, in its normal form.\<close>

lemma parse_canonical:
  "ok x \<Longrightarrow> canonical (enc x) = Inr raw \<Longrightarrow> number_ends rest \<Longrightarrow>
   parse_json (raw @ rest) = Some (canon (enc x), rest)"
  by (auto simp: canonical_enc parse_normal normal_enc)

text \<open>Equal canonical texts come from values with equal normal forms.\<close>

lemma canonical_inject:
  "ok x \<Longrightarrow> ok y \<Longrightarrow> canonical (enc x) = canonical (enc y) \<longleftrightarrow> canon (enc x) = canon (enc y)"
  by (simp add: canonical_enc marshal_inject normal_enc)

lemma canonical_norm_inject:
  "ok x \<Longrightarrow> ok y \<Longrightarrow> canonical (enc x) = canonical (enc y) \<longleftrightarrow> norm x = norm y"
  using canonical_inject dec_canon enc_norm by (metis option.inject)

lemma norm_idem: "ok x \<Longrightarrow> norm (norm x) = norm x"
  using dec_canon [of "norm x"] dec_canon [of x] by (simp add: enc_norm ok_norm)

end

text \<open>Slices of a type with a codec.\<close>

lemma canon_enc_slice [canon_simps]:
  "canon (enc_slice enc s) = enc_slice (\<lambda>x. canon (enc x)) s"
  by (cases s) (simp_all add: enc_slice_def canon_simps)

lemma enc_slice_map [canon_simps]: "enc_slice enc (map_option (map f) s) = enc_slice (\<lambda>x. enc (f x)) s"
  by (cases s) (simp_all add: enc_slice_def)

lemma enc_slice_cong:
  "(\<And>x. x \<in> set (elems s) \<Longrightarrow> f x = g x) \<Longrightarrow> enc_slice f s = enc_slice g s"
  by (cases s) (simp_all add: enc_slice_def)

lemma numbers_enc_slice [simp]:
  "numbers_ok (enc_slice enc s) \<longleftrightarrow> (\<forall>x \<in> set (elems s). numbers_ok (enc x))"
  by (cases s) (simp_all add: enc_slice_def)

lemma dec_slice_canon:
  assumes "\<And>x. x \<in> set (elems s) \<Longrightarrow> dec (canon (enc x)) zero = Some (norm x)"
  shows "dec_slice dec zero (enc_slice (\<lambda>x. canon (enc x)) s) None = Some (map_option (map norm) s)"
  using assms
  by (cases s) (auto simp: enc_slice_def dec_slice_def simp: dec_list_map)

lemma dec_slice_strings [decode_simps]:
  "dec_slice dec_string [] (enc_slice (\<lambda>x. JStr (f x)) s) None = Some (map_option (map f) s)"
  by (cases s) (auto simp: enc_slice_def dec_slice_def dec_string_def simp: dec_list_map)

text \<open>A pointer to a struct with a codec; no struct is encoded as \<open>null\<close>.\<close>

lemma canon_enc_ptr [canon_simps]: "canon (enc_ptr enc p) = enc_ptr (\<lambda>x. canon (enc x)) p"
  by (cases p) (simp_all add: enc_ptr_def canon_simps)

lemma enc_ptr_map [canon_simps]: "enc_ptr enc (map_option f p) = enc_ptr (\<lambda>x. enc (f x)) p"
  by (cases p) (simp_all add: enc_ptr_def)

lemma numbers_enc_ptr [simp]: "(\<And>x. numbers_ok (enc x)) \<Longrightarrow> numbers_ok (enc_ptr enc p)"
  by (cases p) (simp_all add: enc_ptr_def)

lemma dec_ptr_canon:
  assumes "\<And>x. dec (canon (enc x)) zero = Some (norm x)" "\<And>x. \<exists>ms. enc x = JObj ms"
  shows "dec_ptr dec zero (enc_ptr (\<lambda>x. canon (enc x)) p) None = Some (map_option norm p)"
proof (cases p)
  case (Some x)
  obtain ms where "enc x = JObj ms" using assms(2) by blast
  then have "canon (enc x) = JObj (map_lit (map (\<lambda>(k, v). (sanitize k, canon v)) ms))"
    by (simp add: canon_JObj)
  then show ?thesis using assms(1) [of x] by (simp add: Some enc_ptr_def dec_ptr_def)
qed (simp add: enc_ptr_def dec_ptr_def)

end
