(* ===== verification/Model.thy ===== *)
theory Model
  imports Decode
begin

text \<open>
  The data of \<open>internal/rpf/model.go\<close>: one record per struct, in the order of the file, with its
  zero value, its JSON encoding (the tags, \<open>omitempty\<close> included) and its strict decoder. Field
  names carry a short prefix because Isabelle's selectors share one name space. The last section
  gives every struct the laws of \<open>codec\<close>: canonical text decodes to the value, with its text made
  valid UTF-8 and the entries of its dynamic maps in normal form (\<open>norm_\<close>).
\<close>

section \<open>Constants\<close>

definition EventSchema :: string where "EventSchema = ''0.2''"
definition ManifestSchema :: string where "ManifestSchema = ''0.1''"

definition StatementType :: string where
  "StatementType = ''https://in-toto.io/Statement/v1''"

definition RuntimePredicate :: string where
  "RuntimePredicate = ''https://in-toto.io/attestation/runtime-trace/v0.1''"

definition SLSAPredicate :: string where
  "SLSAPredicate = ''https://slsa.dev/provenance/v1''"

definition CorrelationKey :: string where
  "CorrelationKey =
     ''https://github.com/adilalperenciftci/runtime-provenance-firewall/runtime-provenance/v0.1''"

definition BuildIdentityKey :: string where
  "BuildIdentityKey =
     ''https://github.com/adilalperenciftci/runtime-provenance-firewall/build-identity/v0.1''"

definition zeroHash :: string where
  "zeroHash = ''sha256:0000000000000000000000000000000000000000000000000000000000000000''"

section \<open>Events\<close>

text \<open>Where a build takes its source from.\<close>

record SourceIdentity =
  src_Repository :: string
  src_Revision :: string

text \<open>The build an event belongs to: its identity, the boot and the cgroup.\<close>

record BuildScope =
  bs_BuildID :: string
  bs_RunID :: string
  bs_Source :: SourceIdentity
  bs_BootID :: string
  bs_CgroupID :: uint64
  bs_CgroupPathHash :: string

record Executable =
  ex_Path :: string
  ex_Identity :: string
  ex_IdentityKind :: string

text \<open>\<open>ParentKey\<close> is omitted from JSON when empty.\<close>

record Process =
  pr_ProcessKey :: string
  pr_ParentKey :: string
  pr_PID :: uint32
  pr_TGID :: uint32
  pr_PPID :: uint32
  pr_StartTimeNS :: uint64
  pr_PIDNamespace :: uint64
  pr_MountNamespace :: uint64
  pr_UID :: uint32
  pr_GID :: uint32
  pr_Executable :: Executable

record Outcome =
  oc_Status :: string
  oc_Errno :: int32

record Sensor =
  sn_Name :: string
  sn_Version :: string
  sn_ConfigDigest :: string

text \<open>The links of the hash chain.\<close>

record Integrity =
  in_PreviousEventHash :: string
  in_EventHash :: string

text \<open>\<open>Process\<close> is a pointer, \<open>Resource\<close> a map that can be \<open>nil\<close>.\<close>

record Event =
  ev_SchemaVersion :: string
  ev_EventID :: string
  ev_Sequence :: uint64
  ev_ObservedAt :: string
  ev_MonotonicNS :: uint64
  ev_Build :: BuildScope
  ev_Process :: "Process option"
  ev_Operation :: string
  ev_Resource :: "any gomap option"
  ev_Outcome :: Outcome
  ev_Sensor :: Sensor
  ev_Integrity :: Integrity

section \<open>The execution graph\<close>

record GraphNode =
  gn_ProcessKey :: string
  gn_ParentKey :: string
  gn_ParentObservation :: string
  gn_Executable :: string

text \<open>\<open>Evidence\<close> is omitted when it has no entries.\<close>

record GraphEdge =
  ge_Sequence :: uint64
  ge_From :: string
  ge_To :: string
  ge_Kind :: string
  ge_Evidence :: "any gomap option"

record ExecutionGraph =
  eg_SchemaVersion :: string
  eg_BuildID :: string
  eg_Nodes :: "GraphNode slice"
  eg_Edges :: "GraphEdge slice"

section \<open>The evidence manifest\<close>

record Loss =
  ls_KernelReserve :: uint64
  ls_KernelCorrelation :: uint64
  ls_Decode :: uint64
  ls_Queue :: uint64
  ls_Persistence :: uint64
  ls_CounterReadError :: bool

record Lifecycle =
  lc_Started :: bool
  lc_Finalized :: bool

record RunIdentity =
  ri_Provider :: string
  ri_RunID :: string
  ri_Attempt :: uint32

record StreamCommitment =
  sc_SHA256 :: string
  sc_FirstSequence :: uint64
  sc_LastSequence :: uint64
  sc_EventCount :: uint64

record Artifact =
  ar_Name :: string
  ar_SHA256 :: string

record Manifest =
  mf_SchemaVersion :: string
  mf_BuildID :: string
  mf_RunIdentity :: RunIdentity
  mf_Source :: SourceIdentity
  mf_EventStream :: StreamCommitment
  mf_Loss :: Loss
  mf_Lifecycle :: Lifecycle
  mf_ExecutionGraphSHA256 :: string
  mf_Artifact :: Artifact
  mf_PolicySHA256 :: string
  mf_SensorConfigSHA256 :: string

section \<open>Statements, policies and decisions\<close>

record Subject =
  sb_Name :: string
  sb_Digest :: "string gomap option"

record Statement =
  st_Type :: string
  st_Subject :: "Subject slice"
  st_PredicateType :: string
  st_Predicate :: "any gomap option"

record Correlation =
  co_BuildID :: string
  co_BuilderID :: string
  co_RunIdentity :: RunIdentity
  co_Source :: SourceIdentity
  co_EvidenceManifestHash :: string
  co_ExecutionGraphHash :: string
  co_SLSAProvenanceHash :: string
  co_PolicyHash :: string
  co_Completeness :: string

record Policy =
  po_SchemaVersion :: string
  po_AllowedBuilderIDs :: "string slice"
  po_AllowedArtifactProducers :: "string slice"
  po_AllowedRepositories :: "string slice"
  po_AllowedExecutables :: "string slice"
  po_AllowedNetworkDestinations :: "string slice"
  po_ForbiddenSensitiveCategories :: "string slice"
  po_ExpectedProvider :: string
  po_IncompleteDecision :: string

record Reason =
  re_Code :: string
  re_Effect :: string
  re_Message :: string
  re_Sequence :: uint64

record Decision =
  de_Decision :: string
  de_Completeness :: string
  de_Reasons :: "Reason slice"

section \<open>Zero values, encoders and decoders: events\<close>

definition zero_source :: SourceIdentity where
  "zero_source =
    \<lparr>src_Repository = [], src_Revision = []\<rparr>"

definition enc_source :: "SourceIdentity \<Rightarrow> json" where
  "enc_source s = JObj
     [(''repository'', JStr (src_Repository s)),
      (''revision'', JStr (src_Revision s))]"

definition dec_source :: "SourceIdentity decode" where
  "dec_source = dec_struct
     [(''repository'', field src_Repository src_Repository_update dec_string),
      (''revision'', field src_Revision src_Revision_update dec_string)]"

definition zero_build :: BuildScope where
  "zero_build =
    \<lparr>bs_BuildID = [], bs_RunID = [], bs_Source = zero_source, bs_BootID = [], bs_CgroupID = 0,
     bs_CgroupPathHash = []\<rparr>"

definition enc_build :: "BuildScope \<Rightarrow> json" where
  "enc_build b = JObj
     [(''build_id'', JStr (bs_BuildID b)),
      (''run_id'', JStr (bs_RunID b)),
      (''source'', enc_source (bs_Source b)),
      (''boot_id'', JStr (bs_BootID b)),
      (''cgroup_id'', enc_uint (bs_CgroupID b)),
      (''cgroup_path_hash'', JStr (bs_CgroupPathHash b))]"

definition dec_build :: "BuildScope decode" where
  "dec_build = dec_struct
     [(''build_id'', field bs_BuildID bs_BuildID_update dec_string),
      (''run_id'', field bs_RunID bs_RunID_update dec_string),
      (''source'', field bs_Source bs_Source_update dec_source),
      (''boot_id'', field bs_BootID bs_BootID_update dec_string),
      (''cgroup_id'', field bs_CgroupID bs_CgroupID_update dec_uint64),
      (''cgroup_path_hash'', field bs_CgroupPathHash bs_CgroupPathHash_update dec_string)]"

definition zero_executable :: Executable where
  "zero_executable =
    \<lparr>ex_Path = [], ex_Identity = [], ex_IdentityKind = []\<rparr>"

definition enc_executable :: "Executable \<Rightarrow> json" where
  "enc_executable e = JObj
     [(''path'', JStr (ex_Path e)),
      (''identity'', JStr (ex_Identity e)),
      (''identity_kind'', JStr (ex_IdentityKind e))]"

definition dec_executable :: "Executable decode" where
  "dec_executable = dec_struct
     [(''path'', field ex_Path ex_Path_update dec_string),
      (''identity'', field ex_Identity ex_Identity_update dec_string),
      (''identity_kind'', field ex_IdentityKind ex_IdentityKind_update dec_string)]"

definition zero_process :: Process where
  "zero_process =
    \<lparr>pr_ProcessKey = [], pr_ParentKey = [], pr_PID = 0, pr_TGID = 0, pr_PPID = 0,
     pr_StartTimeNS = 0, pr_PIDNamespace = 0, pr_MountNamespace = 0, pr_UID = 0, pr_GID = 0,
     pr_Executable = zero_executable\<rparr>"

definition enc_process :: "Process \<Rightarrow> json" where
  "enc_process p = JObj
    ([(''process_key'', JStr (pr_ProcessKey p))] @
     (if pr_ParentKey p = [] then [] else [(''parent_key'', JStr (pr_ParentKey p))]) @
     [(''pid'', enc_uint (pr_PID p)),
      (''tgid'', enc_uint (pr_TGID p)),
      (''ppid'', enc_uint (pr_PPID p)),
      (''start_time_ns'', enc_uint (pr_StartTimeNS p)),
      (''pid_namespace'', enc_uint (pr_PIDNamespace p)),
      (''mount_namespace'', enc_uint (pr_MountNamespace p)),
      (''uid'', enc_uint (pr_UID p)),
      (''gid'', enc_uint (pr_GID p)),
      (''executable'', enc_executable (pr_Executable p))])"

definition dec_process :: "Process decode" where
  "dec_process = dec_struct
     [(''process_key'', field pr_ProcessKey pr_ProcessKey_update dec_string),
      (''parent_key'', field pr_ParentKey pr_ParentKey_update dec_string),
      (''pid'', field pr_PID pr_PID_update dec_uint32),
      (''tgid'', field pr_TGID pr_TGID_update dec_uint32),
      (''ppid'', field pr_PPID pr_PPID_update dec_uint32),
      (''start_time_ns'', field pr_StartTimeNS pr_StartTimeNS_update dec_uint64),
      (''pid_namespace'', field pr_PIDNamespace pr_PIDNamespace_update dec_uint64),
      (''mount_namespace'', field pr_MountNamespace pr_MountNamespace_update dec_uint64),
      (''uid'', field pr_UID pr_UID_update dec_uint32),
      (''gid'', field pr_GID pr_GID_update dec_uint32),
      (''executable'', field pr_Executable pr_Executable_update dec_executable)]"

definition zero_outcome :: Outcome where
  "zero_outcome =
    \<lparr>oc_Status = [], oc_Errno = 0\<rparr>"

definition enc_outcome :: "Outcome \<Rightarrow> json" where
  "enc_outcome c = JObj
     [(''status'', JStr (oc_Status c)),
      (''errno'', enc_int (oc_Errno c))]"

definition dec_outcome :: "Outcome decode" where
  "dec_outcome = dec_struct
     [(''status'', field oc_Status oc_Status_update dec_string),
      (''errno'', field oc_Errno oc_Errno_update dec_int32)]"

definition zero_sensor :: Sensor where
  "zero_sensor =
    \<lparr>sn_Name = [], sn_Version = [], sn_ConfigDigest = []\<rparr>"

definition enc_sensor :: "Sensor \<Rightarrow> json" where
  "enc_sensor s = JObj
     [(''name'', JStr (sn_Name s)),
      (''version'', JStr (sn_Version s)),
      (''config_digest'', JStr (sn_ConfigDigest s))]"

definition dec_sensor :: "Sensor decode" where
  "dec_sensor = dec_struct
     [(''name'', field sn_Name sn_Name_update dec_string),
      (''version'', field sn_Version sn_Version_update dec_string),
      (''config_digest'', field sn_ConfigDigest sn_ConfigDigest_update dec_string)]"

definition zero_integrity :: Integrity where
  "zero_integrity =
    \<lparr>in_PreviousEventHash = [], in_EventHash = []\<rparr>"

definition enc_integrity :: "Integrity \<Rightarrow> json" where
  "enc_integrity i = JObj
     [(''previous_event_hash'', JStr (in_PreviousEventHash i)),
      (''event_hash'', JStr (in_EventHash i))]"

definition dec_integrity :: "Integrity decode" where
  "dec_integrity = dec_struct
     [(''previous_event_hash'', field in_PreviousEventHash in_PreviousEventHash_update dec_string),
      (''event_hash'', field in_EventHash in_EventHash_update dec_string)]"

definition zero_event :: Event where
  "zero_event =
    \<lparr>ev_SchemaVersion = [], ev_EventID = [], ev_Sequence = 0, ev_ObservedAt = [],
     ev_MonotonicNS = 0, ev_Build = zero_build, ev_Process = None, ev_Operation = [],
     ev_Resource = None, ev_Outcome = zero_outcome, ev_Sensor = zero_sensor,
     ev_Integrity = zero_integrity\<rparr>"

definition enc_event :: "Event \<Rightarrow> json" where
  "enc_event e = JObj
     [(''schema_version'', JStr (ev_SchemaVersion e)),
      (''event_id'', JStr (ev_EventID e)),
      (''sequence'', enc_uint (ev_Sequence e)),
      (''observed_at'', JStr (ev_ObservedAt e)),
      (''monotonic_ns'', enc_uint (ev_MonotonicNS e)),
      (''build'', enc_build (ev_Build e)),
      (''process'', enc_ptr enc_process (ev_Process e)),
      (''operation'', JStr (ev_Operation e)),
      (''resource'', enc_map enc_any (ev_Resource e)),
      (''outcome'', enc_outcome (ev_Outcome e)),
      (''sensor'', enc_sensor (ev_Sensor e)),
      (''integrity'', enc_integrity (ev_Integrity e))]"

definition dec_event :: "Event decode" where
  "dec_event = dec_struct
     [(''schema_version'', field ev_SchemaVersion ev_SchemaVersion_update dec_string),
      (''event_id'', field ev_EventID ev_EventID_update dec_string),
      (''sequence'', field ev_Sequence ev_Sequence_update dec_uint64),
      (''observed_at'', field ev_ObservedAt ev_ObservedAt_update dec_string),
      (''monotonic_ns'', field ev_MonotonicNS ev_MonotonicNS_update dec_uint64),
      (''build'', field ev_Build ev_Build_update dec_build),
      (''process'', field ev_Process ev_Process_update (dec_ptr dec_process zero_process)),
      (''operation'', field ev_Operation ev_Operation_update dec_string),
      (''resource'', field ev_Resource ev_Resource_update (dec_map dec_any ANil)),
      (''outcome'', field ev_Outcome ev_Outcome_update dec_outcome),
      (''sensor'', field ev_Sensor ev_Sensor_update dec_sensor),
      (''integrity'', field ev_Integrity ev_Integrity_update dec_integrity)]"

section \<open>Zero values, encoders and decoders: the execution graph\<close>

definition zero_node :: GraphNode where
  "zero_node =
    \<lparr>gn_ProcessKey = [], gn_ParentKey = [], gn_ParentObservation = [], gn_Executable = []\<rparr>"

definition enc_node :: "GraphNode \<Rightarrow> json" where
  "enc_node n = JObj
    ([(''process_key'', JStr (gn_ProcessKey n))] @
     (if gn_ParentKey n = [] then [] else [(''parent_key'', JStr (gn_ParentKey n))]) @
     [(''parent_observation'', JStr (gn_ParentObservation n)),
      (''executable'', JStr (gn_Executable n))])"

definition dec_node :: "GraphNode decode" where
  "dec_node = dec_struct
     [(''process_key'', field gn_ProcessKey gn_ProcessKey_update dec_string),
      (''parent_key'', field gn_ParentKey gn_ParentKey_update dec_string),
      (''parent_observation'', field gn_ParentObservation gn_ParentObservation_update dec_string),
      (''executable'', field gn_Executable gn_Executable_update dec_string)]"

definition zero_edge :: GraphEdge where
  "zero_edge =
    \<lparr>ge_Sequence = 0, ge_From = [], ge_To = [], ge_Kind = [], ge_Evidence = None\<rparr>"

definition enc_edge :: "GraphEdge \<Rightarrow> json" where
  "enc_edge e = JObj
    ([(''sequence'', enc_uint (ge_Sequence e)),
      (''from'', JStr (ge_From e)),
      (''to'', JStr (ge_To e)),
      (''kind'', JStr (ge_Kind e))] @
     (if elems (ge_Evidence e) = [] then [] else [(''evidence'', enc_map enc_any (ge_Evidence e))]))"

definition dec_edge :: "GraphEdge decode" where
  "dec_edge = dec_struct
     [(''sequence'', field ge_Sequence ge_Sequence_update dec_uint64),
      (''from'', field ge_From ge_From_update dec_string),
      (''to'', field ge_To ge_To_update dec_string),
      (''kind'', field ge_Kind ge_Kind_update dec_string),
      (''evidence'', field ge_Evidence ge_Evidence_update (dec_map dec_any ANil))]"

definition zero_graph :: ExecutionGraph where
  "zero_graph =
    \<lparr>eg_SchemaVersion = [], eg_BuildID = [], eg_Nodes = None, eg_Edges = None\<rparr>"

definition enc_graph :: "ExecutionGraph \<Rightarrow> json" where
  "enc_graph g = JObj
     [(''schema_version'', JStr (eg_SchemaVersion g)),
      (''build_id'', JStr (eg_BuildID g)),
      (''nodes'', enc_slice enc_node (eg_Nodes g)),
      (''edges'', enc_slice enc_edge (eg_Edges g))]"

definition dec_graph :: "ExecutionGraph decode" where
  "dec_graph = dec_struct
     [(''schema_version'', field eg_SchemaVersion eg_SchemaVersion_update dec_string),
      (''build_id'', field eg_BuildID eg_BuildID_update dec_string),
      (''nodes'', field eg_Nodes eg_Nodes_update (dec_slice dec_node zero_node)),
      (''edges'', field eg_Edges eg_Edges_update (dec_slice dec_edge zero_edge))]"

section \<open>Zero values, encoders and decoders: the evidence manifest\<close>

definition zero_loss :: Loss where
  "zero_loss =
    \<lparr>ls_KernelReserve = 0, ls_KernelCorrelation = 0, ls_Decode = 0, ls_Queue = 0,
     ls_Persistence = 0, ls_CounterReadError = False\<rparr>"

definition enc_loss :: "Loss \<Rightarrow> json" where
  "enc_loss l = JObj
     [(''kernel_reserve'', enc_uint (ls_KernelReserve l)),
      (''kernel_correlation'', enc_uint (ls_KernelCorrelation l)),
      (''decode'', enc_uint (ls_Decode l)),
      (''queue'', enc_uint (ls_Queue l)),
      (''persistence'', enc_uint (ls_Persistence l)),
      (''counter_read_error'', JBool (ls_CounterReadError l))]"

definition dec_loss :: "Loss decode" where
  "dec_loss = dec_struct
     [(''kernel_reserve'', field ls_KernelReserve ls_KernelReserve_update dec_uint64),
      (''kernel_correlation'', field ls_KernelCorrelation ls_KernelCorrelation_update dec_uint64),
      (''decode'', field ls_Decode ls_Decode_update dec_uint64),
      (''queue'', field ls_Queue ls_Queue_update dec_uint64),
      (''persistence'', field ls_Persistence ls_Persistence_update dec_uint64),
      (''counter_read_error'', field ls_CounterReadError ls_CounterReadError_update dec_bool)]"

definition zero_lifecycle :: Lifecycle where
  "zero_lifecycle =
    \<lparr>lc_Started = False, lc_Finalized = False\<rparr>"

definition enc_lifecycle :: "Lifecycle \<Rightarrow> json" where
  "enc_lifecycle l = JObj
     [(''started'', JBool (lc_Started l)),
      (''finalized'', JBool (lc_Finalized l))]"

definition dec_lifecycle :: "Lifecycle decode" where
  "dec_lifecycle = dec_struct
     [(''started'', field lc_Started lc_Started_update dec_bool),
      (''finalized'', field lc_Finalized lc_Finalized_update dec_bool)]"

definition zero_run_identity :: RunIdentity where
  "zero_run_identity =
    \<lparr>ri_Provider = [], ri_RunID = [], ri_Attempt = 0\<rparr>"

definition enc_run_identity :: "RunIdentity \<Rightarrow> json" where
  "enc_run_identity r = JObj
     [(''provider'', JStr (ri_Provider r)),
      (''run_id'', JStr (ri_RunID r)),
      (''attempt'', enc_uint (ri_Attempt r))]"

definition dec_run_identity :: "RunIdentity decode" where
  "dec_run_identity = dec_struct
     [(''provider'', field ri_Provider ri_Provider_update dec_string),
      (''run_id'', field ri_RunID ri_RunID_update dec_string),
      (''attempt'', field ri_Attempt ri_Attempt_update dec_uint32)]"

definition zero_stream :: StreamCommitment where
  "zero_stream =
    \<lparr>sc_SHA256 = [], sc_FirstSequence = 0, sc_LastSequence = 0, sc_EventCount = 0\<rparr>"

definition enc_stream :: "StreamCommitment \<Rightarrow> json" where
  "enc_stream r = JObj
     [(''sha256'', JStr (sc_SHA256 r)),
      (''first_sequence'', enc_uint (sc_FirstSequence r)),
      (''last_sequence'', enc_uint (sc_LastSequence r)),
      (''event_count'', enc_uint (sc_EventCount r))]"

definition dec_stream :: "StreamCommitment decode" where
  "dec_stream = dec_struct
     [(''sha256'', field sc_SHA256 sc_SHA256_update dec_string),
      (''first_sequence'', field sc_FirstSequence sc_FirstSequence_update dec_uint64),
      (''last_sequence'', field sc_LastSequence sc_LastSequence_update dec_uint64),
      (''event_count'', field sc_EventCount sc_EventCount_update dec_uint64)]"

definition zero_artifact :: Artifact where
  "zero_artifact =
    \<lparr>ar_Name = [], ar_SHA256 = []\<rparr>"

definition enc_artifact :: "Artifact \<Rightarrow> json" where
  "enc_artifact a = JObj
     [(''name'', JStr (ar_Name a)),
      (''sha256'', JStr (ar_SHA256 a))]"

definition dec_artifact :: "Artifact decode" where
  "dec_artifact = dec_struct
     [(''name'', field ar_Name ar_Name_update dec_string),
      (''sha256'', field ar_SHA256 ar_SHA256_update dec_string)]"

definition zero_manifest :: Manifest where
  "zero_manifest =
    \<lparr>mf_SchemaVersion = [], mf_BuildID = [], mf_RunIdentity = zero_run_identity,
     mf_Source = zero_source, mf_EventStream = zero_stream, mf_Loss = zero_loss,
     mf_Lifecycle = zero_lifecycle, mf_ExecutionGraphSHA256 = [], mf_Artifact = zero_artifact,
     mf_PolicySHA256 = [], mf_SensorConfigSHA256 = []\<rparr>"

definition enc_manifest :: "Manifest \<Rightarrow> json" where
  "enc_manifest m = JObj
     [(''schema_version'', JStr (mf_SchemaVersion m)),
      (''build_id'', JStr (mf_BuildID m)),
      (''run_identity'', enc_run_identity (mf_RunIdentity m)),
      (''source'', enc_source (mf_Source m)),
      (''event_stream'', enc_stream (mf_EventStream m)),
      (''loss'', enc_loss (mf_Loss m)),
      (''lifecycle'', enc_lifecycle (mf_Lifecycle m)),
      (''execution_graph_sha256'', JStr (mf_ExecutionGraphSHA256 m)),
      (''artifact'', enc_artifact (mf_Artifact m)),
      (''policy_sha256'', JStr (mf_PolicySHA256 m)),
      (''sensor_config_sha256'', JStr (mf_SensorConfigSHA256 m))]"

definition dec_manifest :: "Manifest decode" where
  "dec_manifest = dec_struct
     [(''schema_version'', field mf_SchemaVersion mf_SchemaVersion_update dec_string),
      (''build_id'', field mf_BuildID mf_BuildID_update dec_string),
      (''run_identity'', field mf_RunIdentity mf_RunIdentity_update dec_run_identity),
      (''source'', field mf_Source mf_Source_update dec_source),
      (''event_stream'', field mf_EventStream mf_EventStream_update dec_stream),
      (''loss'', field mf_Loss mf_Loss_update dec_loss),
      (''lifecycle'', field mf_Lifecycle mf_Lifecycle_update dec_lifecycle),
      (''execution_graph_sha256'', field mf_ExecutionGraphSHA256 mf_ExecutionGraphSHA256_update dec_string),
      (''artifact'', field mf_Artifact mf_Artifact_update dec_artifact),
      (''policy_sha256'', field mf_PolicySHA256 mf_PolicySHA256_update dec_string),
      (''sensor_config_sha256'', field mf_SensorConfigSHA256 mf_SensorConfigSHA256_update dec_string)]"

section \<open>Zero values, encoders and decoders: statements, policies and decisions\<close>

definition zero_subject :: Subject where
  "zero_subject =
    \<lparr>sb_Name = [], sb_Digest = None\<rparr>"

definition enc_subject :: "Subject \<Rightarrow> json" where
  "enc_subject s = JObj
     [(''name'', JStr (sb_Name s)),
      (''digest'', enc_map JStr (sb_Digest s))]"

definition dec_subject :: "Subject decode" where
  "dec_subject = dec_struct
     [(''name'', field sb_Name sb_Name_update dec_string),
      (''digest'', field sb_Digest sb_Digest_update (dec_map dec_string []))]"

definition zero_statement :: Statement where
  "zero_statement =
    \<lparr>st_Type = [], st_Subject = None, st_PredicateType = [], st_Predicate = None\<rparr>"

definition enc_statement :: "Statement \<Rightarrow> json" where
  "enc_statement s = JObj
     [(''_type'', JStr (st_Type s)),
      (''subject'', enc_slice enc_subject (st_Subject s)),
      (''predicateType'', JStr (st_PredicateType s)),
      (''predicate'', enc_map enc_any (st_Predicate s))]"

definition dec_statement :: "Statement decode" where
  "dec_statement = dec_struct
     [(''_type'', field st_Type st_Type_update dec_string),
      (''subject'', field st_Subject st_Subject_update (dec_slice dec_subject zero_subject)),
      (''predicateType'', field st_PredicateType st_PredicateType_update dec_string),
      (''predicate'', field st_Predicate st_Predicate_update (dec_map dec_any ANil))]"

definition zero_correlation :: Correlation where
  "zero_correlation =
    \<lparr>co_BuildID = [], co_BuilderID = [], co_RunIdentity = zero_run_identity,
     co_Source = zero_source, co_EvidenceManifestHash = [], co_ExecutionGraphHash = [],
     co_SLSAProvenanceHash = [], co_PolicyHash = [], co_Completeness = []\<rparr>"

definition enc_correlation :: "Correlation \<Rightarrow> json" where
  "enc_correlation c = JObj
     [(''buildId'', JStr (co_BuildID c)),
      (''builderId'', JStr (co_BuilderID c)),
      (''runIdentity'', enc_run_identity (co_RunIdentity c)),
      (''sourceRevision'', enc_source (co_Source c)),
      (''evidenceManifestDigest'', JStr (co_EvidenceManifestHash c)),
      (''executionGraphDigest'', JStr (co_ExecutionGraphHash c)),
      (''slsaProvenanceDigest'', JStr (co_SLSAProvenanceHash c)),
      (''policyDigest'', JStr (co_PolicyHash c)),
      (''completeness'', JStr (co_Completeness c))]"

definition dec_correlation :: "Correlation decode" where
  "dec_correlation = dec_struct
     [(''buildId'', field co_BuildID co_BuildID_update dec_string),
      (''builderId'', field co_BuilderID co_BuilderID_update dec_string),
      (''runIdentity'', field co_RunIdentity co_RunIdentity_update dec_run_identity),
      (''sourceRevision'', field co_Source co_Source_update dec_source),
      (''evidenceManifestDigest'', field co_EvidenceManifestHash co_EvidenceManifestHash_update dec_string),
      (''executionGraphDigest'', field co_ExecutionGraphHash co_ExecutionGraphHash_update dec_string),
      (''slsaProvenanceDigest'', field co_SLSAProvenanceHash co_SLSAProvenanceHash_update dec_string),
      (''policyDigest'', field co_PolicyHash co_PolicyHash_update dec_string),
      (''completeness'', field co_Completeness co_Completeness_update dec_string)]"

definition zero_policy :: Policy where
  "zero_policy =
    \<lparr>po_SchemaVersion = [], po_AllowedBuilderIDs = None, po_AllowedArtifactProducers = None,
     po_AllowedRepositories = None, po_AllowedExecutables = None,
     po_AllowedNetworkDestinations = None, po_ForbiddenSensitiveCategories = None,
     po_ExpectedProvider = [], po_IncompleteDecision = []\<rparr>"

definition enc_policy :: "Policy \<Rightarrow> json" where
  "enc_policy p = JObj
     [(''schema_version'', JStr (po_SchemaVersion p)),
      (''allowed_builder_ids'', enc_slice JStr (po_AllowedBuilderIDs p)),
      (''allowed_artifact_producers'', enc_slice JStr (po_AllowedArtifactProducers p)),
      (''allowed_repositories'', enc_slice JStr (po_AllowedRepositories p)),
      (''allowed_executables'', enc_slice JStr (po_AllowedExecutables p)),
      (''allowed_network_destinations'', enc_slice JStr (po_AllowedNetworkDestinations p)),
      (''forbidden_sensitive_categories'', enc_slice JStr (po_ForbiddenSensitiveCategories p)),
      (''expected_provider'', JStr (po_ExpectedProvider p)),
      (''incomplete_decision'', JStr (po_IncompleteDecision p))]"

definition dec_policy :: "Policy decode" where
  "dec_policy = dec_struct
     [(''schema_version'', field po_SchemaVersion po_SchemaVersion_update dec_string),
      (''allowed_builder_ids'', field po_AllowedBuilderIDs po_AllowedBuilderIDs_update (dec_slice dec_string [])),
      (''allowed_artifact_producers'', field po_AllowedArtifactProducers po_AllowedArtifactProducers_update (dec_slice dec_string [])),
      (''allowed_repositories'', field po_AllowedRepositories po_AllowedRepositories_update (dec_slice dec_string [])),
      (''allowed_executables'', field po_AllowedExecutables po_AllowedExecutables_update (dec_slice dec_string [])),
      (''allowed_network_destinations'', field po_AllowedNetworkDestinations po_AllowedNetworkDestinations_update (dec_slice dec_string [])),
      (''forbidden_sensitive_categories'', field po_ForbiddenSensitiveCategories po_ForbiddenSensitiveCategories_update (dec_slice dec_string [])),
      (''expected_provider'', field po_ExpectedProvider po_ExpectedProvider_update dec_string),
      (''incomplete_decision'', field po_IncompleteDecision po_IncompleteDecision_update dec_string)]"

definition zero_reason :: Reason where
  "zero_reason =
    \<lparr>re_Code = [], re_Effect = [], re_Message = [], re_Sequence = 0\<rparr>"

definition enc_reason :: "Reason \<Rightarrow> json" where
  "enc_reason r = JObj
    ([(''code'', JStr (re_Code r)),
      (''effect'', JStr (re_Effect r)),
      (''message'', JStr (re_Message r))] @
     (if re_Sequence r = 0 then [] else [(''sequence'', enc_uint (re_Sequence r))]))"

definition zero_decision :: Decision where
  "zero_decision =
    \<lparr>de_Decision = [], de_Completeness = [], de_Reasons = None\<rparr>"

definition enc_decision :: "Decision \<Rightarrow> json" where
  "enc_decision d = JObj
     [(''decision'', JStr (de_Decision d)),
      (''completeness'', JStr (de_Completeness d)),
      (''reasons'', enc_slice enc_reason (de_Reasons d))]"

end
