(* ===== verification/Codecs.thy ===== *)
theory Codecs
  imports Model
begin

text \<open>
  Every struct of \<open>model.go\<close> satisfies the laws of \<open>codec\<close>: its
    canonical text decodes to the
  value with its text made valid UTF-8 and the entries of its dynamic maps in normal form
  (\<open>norm_event\<close> and the like), and two values have the same canonical text exactly
    when they have
  the same normal form. \<open>event_ok\<close> and the like say that the numbers a dynamic map
    holds are JSON
  numbers, without which \<open>json.Marshal\<close> fails.
\<close>

lemmas enc_simps = canon_JObj canon_simps sanitize_ascii sanitize_idem
lemmas codec_simps = canon_JObj canon_simps decode_simps map_lit_def sanitize_ascii sanitize_idem

section \<open>Normal forms and codecs: events\<close>

definition norm_source :: "SourceIdentity \<Rightarrow> SourceIdentity" where
  "norm_source s =
    s\<lparr>src_Repository := sanitize (src_Repository s), src_Revision := sanitize
      (src_Revision s)\<rparr>"

lemma dec_source_canon:
  "dec_source (canon (enc_source s)) zero_source = Some (norm_source s)"
  by (cases s)
    (simp add: codec_simps enc_source_def dec_source_def zero_source_def norm_source_def)

lemma numbers_source [simp]: "numbers_ok (enc_source s)"
  by (simp add: enc_source_def)

lemma canon_norm_source: "canon (enc_source (norm_source s)) = canon (enc_source s)"
  by (simp add: enc_simps enc_source_def norm_source_def)

interpretation source_codec: codec enc_source dec_source zero_source "\<lambda>_. True" norm_source
  by unfold_locales (simp_all add: dec_source_canon canon_norm_source)

definition norm_build :: "BuildScope \<Rightarrow> BuildScope" where
  "norm_build b =
    b\<lparr>bs_BuildID := sanitize (bs_BuildID b), bs_RunID := sanitize (bs_RunID b),
     bs_Source := norm_source (bs_Source b), bs_BootID := sanitize (bs_BootID b),
     bs_CgroupPathHash := sanitize (bs_CgroupPathHash b)\<rparr>"

lemma dec_build_canon:
  "dec_build (canon (enc_build b)) zero_build = Some (norm_build b)"
  by (cases b)
    (simp add: codec_simps enc_build_def dec_build_def zero_build_def norm_build_def
       source_codec.dec_canon)

lemma numbers_build [simp]: "numbers_ok (enc_build b)"
  by (simp add: enc_build_def)

lemma canon_norm_build: "canon (enc_build (norm_build b)) = canon (enc_build b)"
  by (simp add: enc_simps enc_build_def norm_build_def source_codec.enc_norm)

interpretation build_codec: codec enc_build dec_build zero_build "\<lambda>_. True" norm_build
  by unfold_locales (simp_all add: dec_build_canon canon_norm_build)

definition norm_executable :: "Executable \<Rightarrow> Executable" where
  "norm_executable e =
    e\<lparr>ex_Path := sanitize (ex_Path e), ex_Identity := sanitize (ex_Identity e),
     ex_IdentityKind := sanitize (ex_IdentityKind e)\<rparr>"

lemma dec_executable_canon:
  "dec_executable (canon (enc_executable e)) zero_executable = Some (norm_executable e)"
  by (cases e)
    (simp add: codec_simps enc_executable_def dec_executable_def zero_executable_def
      norm_executable_def)

lemma numbers_executable [simp]: "numbers_ok (enc_executable e)"
  by (simp add: enc_executable_def)

lemma canon_norm_executable: "canon (enc_executable (norm_executable e)) = canon (enc_executable e)"
  by (simp add: enc_simps enc_executable_def norm_executable_def)

interpretation executable_codec:
  codec enc_executable dec_executable zero_executable "\<lambda>_. True" norm_executable
  by unfold_locales (simp_all add: dec_executable_canon canon_norm_executable)

definition norm_process :: "Process \<Rightarrow> Process" where
  "norm_process p =
    p\<lparr>pr_ProcessKey := sanitize (pr_ProcessKey p), pr_ParentKey := sanitize (pr_ParentKey p),
     pr_Executable := norm_executable (pr_Executable p)\<rparr>"

lemma dec_process_canon:
  "dec_process (canon (enc_process p)) zero_process = Some (norm_process p)"
  by (cases p)
    (simp add: codec_simps enc_process_def dec_process_def zero_process_def norm_process_def
       executable_codec.dec_canon)

lemma numbers_process [simp]: "numbers_ok (enc_process p)"
  by (simp add: enc_process_def)

lemma canon_norm_process: "canon (enc_process (norm_process p)) = canon (enc_process p)"
  by (simp add: enc_simps enc_process_def norm_process_def executable_codec.enc_norm)

lemma enc_process_obj: "\<exists>ms. enc_process p = JObj ms"
  by (simp add: enc_process_def)

interpretation process_codec:
  codec enc_process dec_process zero_process "\<lambda>_. True" norm_process
  by unfold_locales (simp_all add: dec_process_canon canon_norm_process)

definition norm_outcome :: "Outcome \<Rightarrow> Outcome" where
  "norm_outcome c =
    c\<lparr>oc_Status := sanitize (oc_Status c)\<rparr>"

lemma dec_outcome_canon:
  "dec_outcome (canon (enc_outcome c)) zero_outcome = Some (norm_outcome c)"
  by (cases c)
    (simp add: codec_simps enc_outcome_def dec_outcome_def zero_outcome_def norm_outcome_def)

lemma numbers_outcome [simp]: "numbers_ok (enc_outcome c)"
  by (simp add: enc_outcome_def)

lemma canon_norm_outcome: "canon (enc_outcome (norm_outcome c)) = canon (enc_outcome c)"
  by (simp add: enc_simps enc_outcome_def norm_outcome_def)

interpretation outcome_codec:
  codec enc_outcome dec_outcome zero_outcome "\<lambda>_. True" norm_outcome
  by unfold_locales (simp_all add: dec_outcome_canon canon_norm_outcome)

definition norm_sensor :: "Sensor \<Rightarrow> Sensor" where
  "norm_sensor s =
    s\<lparr>sn_Name := sanitize (sn_Name s), sn_Version := sanitize (sn_Version s),
     sn_ConfigDigest := sanitize (sn_ConfigDigest s)\<rparr>"

lemma dec_sensor_canon:
  "dec_sensor (canon (enc_sensor s)) zero_sensor = Some (norm_sensor s)"
  by (cases s)
    (simp add: codec_simps enc_sensor_def dec_sensor_def zero_sensor_def norm_sensor_def)

lemma numbers_sensor [simp]: "numbers_ok (enc_sensor s)"
  by (simp add: enc_sensor_def)

lemma canon_norm_sensor: "canon (enc_sensor (norm_sensor s)) = canon (enc_sensor s)"
  by (simp add: enc_simps enc_sensor_def norm_sensor_def)

interpretation sensor_codec: codec enc_sensor dec_sensor zero_sensor "\<lambda>_. True" norm_sensor
  by unfold_locales (simp_all add: dec_sensor_canon canon_norm_sensor)

definition norm_integrity :: "Integrity \<Rightarrow> Integrity" where
  "norm_integrity i =
    i\<lparr>in_PreviousEventHash := sanitize (in_PreviousEventHash i),
     in_EventHash := sanitize (in_EventHash i)\<rparr>"

lemma dec_integrity_canon:
  "dec_integrity (canon (enc_integrity i)) zero_integrity = Some (norm_integrity i)"
  by (cases i)
    (simp add: codec_simps enc_integrity_def dec_integrity_def zero_integrity_def
      norm_integrity_def)

lemma numbers_integrity [simp]: "numbers_ok (enc_integrity i)"
  by (simp add: enc_integrity_def)

lemma canon_norm_integrity: "canon (enc_integrity (norm_integrity i)) = canon (enc_integrity i)"
  by (simp add: enc_simps enc_integrity_def norm_integrity_def)

interpretation integrity_codec:
  codec enc_integrity dec_integrity zero_integrity "\<lambda>_. True" norm_integrity
  by unfold_locales (simp_all add: dec_integrity_canon canon_norm_integrity)

definition norm_event :: "Event \<Rightarrow> Event" where
  "norm_event e =
    e\<lparr>ev_SchemaVersion := sanitize (ev_SchemaVersion e), ev_EventID := sanitize
      (ev_EventID e),
     ev_ObservedAt := sanitize (ev_ObservedAt e), ev_Build := norm_build (ev_Build e),
     ev_Process := map_option norm_process (ev_Process e),
     ev_Operation := sanitize (ev_Operation e), ev_Resource := norm_map (ev_Resource e),
     ev_Outcome := norm_outcome (ev_Outcome e), ev_Sensor := norm_sensor (ev_Sensor e),
     ev_Integrity := norm_integrity (ev_Integrity e)\<rparr>"

definition event_ok :: "Event \<Rightarrow> bool" where
  "event_ok e \<longleftrightarrow> numbers_ok (enc_map enc_any (ev_Resource e))"

lemma dec_event_canon:
  "event_ok e \<Longrightarrow> dec_event (canon (enc_event e)) zero_event = Some (norm_event e)"
  by (cases e)
    (simp add: codec_simps enc_event_def dec_event_def zero_event_def norm_event_def event_ok_def
       build_codec.dec_canon process_codec.dec_canon outcome_codec.dec_canon
       sensor_codec.dec_canon integrity_codec.dec_canon
       dec_ptr_canon [where dec = dec_process and enc = enc_process and norm = norm_process]
       enc_process_obj)

lemma numbers_event [simp]: "event_ok e \<Longrightarrow> numbers_ok (enc_event e)"
  by (simp add: enc_event_def event_ok_def)

lemma canon_norm_event:
  "event_ok e \<Longrightarrow> canon (enc_event (norm_event e)) = canon (enc_event e)"
  by (simp add: enc_simps enc_event_def norm_event_def event_ok_def build_codec.enc_norm
    process_codec.enc_norm outcome_codec.enc_norm sensor_codec.enc_norm integrity_codec.enc_norm)

lemma ok_norm_event [simp]: "event_ok e \<Longrightarrow> event_ok (norm_event e)"
  by (simp add: event_ok_def norm_event_def)

interpretation event_codec: codec enc_event dec_event zero_event event_ok norm_event
  by unfold_locales (simp_all add: dec_event_canon canon_norm_event)

section \<open>Normal forms and codecs: the execution graph\<close>

definition norm_node :: "GraphNode \<Rightarrow> GraphNode" where
  "norm_node n =
    n\<lparr>gn_ProcessKey := sanitize (gn_ProcessKey n), gn_ParentKey := sanitize (gn_ParentKey n),
     gn_ParentObservation := sanitize (gn_ParentObservation n),
     gn_Executable := sanitize (gn_Executable n)\<rparr>"

lemma dec_node_canon:
  "dec_node (canon (enc_node n)) zero_node = Some (norm_node n)"
  by (cases n)
    (simp add: codec_simps enc_node_def dec_node_def zero_node_def norm_node_def)

lemma numbers_node [simp]: "numbers_ok (enc_node n)"
  by (simp add: enc_node_def)

lemma canon_norm_node: "canon (enc_node (norm_node n)) = canon (enc_node n)"
  by (simp add: enc_simps enc_node_def norm_node_def)

interpretation node_codec: codec enc_node dec_node zero_node "\<lambda>_. True" norm_node
  by unfold_locales (simp_all add: dec_node_canon canon_norm_node)

definition norm_edge :: "GraphEdge \<Rightarrow> GraphEdge" where
  "norm_edge e =
    e\<lparr>ge_From := sanitize (ge_From e), ge_To := sanitize (ge_To e),
     ge_Kind := sanitize (ge_Kind e),
     ge_Evidence := (if elems (ge_Evidence e) = [] then None else norm_map (ge_Evidence e))\<rparr>"

definition edge_ok :: "GraphEdge \<Rightarrow> bool" where
  "edge_ok e \<longleftrightarrow> numbers_ok (enc_map enc_any (ge_Evidence e))"

lemma dec_edge_canon:
  "edge_ok e \<Longrightarrow> dec_edge (canon (enc_edge e)) zero_edge = Some (norm_edge e)"
  by (cases e)
    (simp add: codec_simps enc_edge_def dec_edge_def zero_edge_def norm_edge_def edge_ok_def)

lemma numbers_edge [simp]: "edge_ok e \<Longrightarrow> numbers_ok (enc_edge e)"
  by (simp add: enc_edge_def edge_ok_def)

lemma canon_norm_edge:
  "edge_ok e \<Longrightarrow> canon (enc_edge (norm_edge e)) = canon (enc_edge e)"
  by (simp add: enc_simps enc_edge_def norm_edge_def edge_ok_def)

lemma numbers_enc_map_None [simp]: "numbers_ok (enc_map enc None)"
  by (simp add: enc_map_def)

lemma ok_norm_edge [simp]: "edge_ok e \<Longrightarrow> edge_ok (norm_edge e)"
  by (simp add: edge_ok_def norm_edge_def)

interpretation edge_codec: codec enc_edge dec_edge zero_edge edge_ok norm_edge
  by unfold_locales (simp_all add: dec_edge_canon canon_norm_edge)

definition norm_graph :: "ExecutionGraph \<Rightarrow> ExecutionGraph" where
  "norm_graph g =
    g\<lparr>eg_SchemaVersion := sanitize (eg_SchemaVersion g), eg_BuildID := sanitize
      (eg_BuildID g),
     eg_Nodes := map_option (map norm_node) (eg_Nodes g),
     eg_Edges := map_option (map norm_edge) (eg_Edges g)\<rparr>"

definition graph_ok :: "ExecutionGraph \<Rightarrow> bool" where
  "graph_ok g \<longleftrightarrow> (\<forall>e \<in> set (elems (eg_Edges g)). edge_ok e)"

lemma dec_graph_canon:
  "graph_ok g \<Longrightarrow> dec_graph (canon (enc_graph g)) zero_graph = Some (norm_graph g)"
  by (cases g)
    (simp add: codec_simps enc_graph_def dec_graph_def zero_graph_def norm_graph_def graph_ok_def
       node_codec.dec_canon edge_codec.dec_canon
       dec_slice_canon [where dec = dec_node and enc = enc_node and norm = norm_node]
       dec_slice_canon [where dec = dec_edge and enc = enc_edge and norm = norm_edge])

lemma numbers_graph [simp]: "graph_ok g \<Longrightarrow> numbers_ok (enc_graph g)"
  by (simp add: enc_graph_def graph_ok_def)

lemma canon_norm_graph:
  "graph_ok g \<Longrightarrow> canon (enc_graph (norm_graph g)) = canon (enc_graph g)"
proof -
  assume "graph_ok g"
  then have "enc_slice (\<lambda>e. canon (enc_edge (norm_edge e))) (eg_Edges g) = enc_slice
    (\<lambda>e. canon (enc_edge e)) (eg_Edges g)"
    by (intro enc_slice_cong) (simp add: graph_ok_def edge_codec.enc_norm)
  then show ?thesis
    by (simp add: enc_simps enc_graph_def norm_graph_def node_codec.enc_norm)
qed

lemma ok_norm_graph [simp]: "graph_ok g \<Longrightarrow> graph_ok (norm_graph g)"
  by (cases "eg_Edges g"; simp add: graph_ok_def norm_graph_def)

interpretation graph_codec: codec enc_graph dec_graph zero_graph graph_ok norm_graph
  by unfold_locales (simp_all add: dec_graph_canon canon_norm_graph)

section \<open>Normal forms and codecs: the evidence manifest\<close>

lemma dec_loss_canon:
  "dec_loss (canon (enc_loss l)) zero_loss = Some (l)"
  by (cases l)
    (simp add: codec_simps enc_loss_def dec_loss_def zero_loss_def)

lemma numbers_loss [simp]: "numbers_ok (enc_loss l)"
  by (simp add: enc_loss_def)

interpretation loss_codec: codec enc_loss dec_loss zero_loss "\<lambda>_. True" "\<lambda>l. l"
  by unfold_locales (simp_all add: dec_loss_canon)

lemma dec_lifecycle_canon:
  "dec_lifecycle (canon (enc_lifecycle l)) zero_lifecycle = Some (l)"
  by (cases l)
    (simp add: codec_simps enc_lifecycle_def dec_lifecycle_def zero_lifecycle_def)

lemma numbers_lifecycle [simp]: "numbers_ok (enc_lifecycle l)"
  by (simp add: enc_lifecycle_def)

interpretation lifecycle_codec:
  codec enc_lifecycle dec_lifecycle zero_lifecycle "\<lambda>_. True" "\<lambda>l. l"
  by unfold_locales (simp_all add: dec_lifecycle_canon)

definition norm_run_identity :: "RunIdentity \<Rightarrow> RunIdentity" where
  "norm_run_identity r =
    r\<lparr>ri_Provider := sanitize (ri_Provider r), ri_RunID := sanitize (ri_RunID r)\<rparr>"

lemma dec_run_identity_canon:
  "dec_run_identity (canon (enc_run_identity r)) zero_run_identity = Some (norm_run_identity r)"
  by (cases r)
    (simp add: codec_simps enc_run_identity_def dec_run_identity_def zero_run_identity_def
      norm_run_identity_def)

lemma numbers_run_identity [simp]: "numbers_ok (enc_run_identity r)"
  by (simp add: enc_run_identity_def)

lemma canon_norm_run_identity:
  "canon (enc_run_identity (norm_run_identity r)) = canon (enc_run_identity r)"
  by (simp add: enc_simps enc_run_identity_def norm_run_identity_def)

interpretation run_identity_codec:
  codec enc_run_identity dec_run_identity zero_run_identity "\<lambda>_. True" norm_run_identity
  by unfold_locales (simp_all add: dec_run_identity_canon canon_norm_run_identity)

definition norm_stream :: "StreamCommitment \<Rightarrow> StreamCommitment" where
  "norm_stream r =
    r\<lparr>sc_SHA256 := sanitize (sc_SHA256 r)\<rparr>"

lemma dec_stream_canon:
  "dec_stream (canon (enc_stream r)) zero_stream = Some (norm_stream r)"
  by (cases r)
    (simp add: codec_simps enc_stream_def dec_stream_def zero_stream_def norm_stream_def)

lemma numbers_stream [simp]: "numbers_ok (enc_stream r)"
  by (simp add: enc_stream_def)

lemma canon_norm_stream: "canon (enc_stream (norm_stream r)) = canon (enc_stream r)"
  by (simp add: enc_simps enc_stream_def norm_stream_def)

interpretation stream_codec: codec enc_stream dec_stream zero_stream "\<lambda>_. True" norm_stream
  by unfold_locales (simp_all add: dec_stream_canon canon_norm_stream)

definition norm_artifact :: "Artifact \<Rightarrow> Artifact" where
  "norm_artifact a =
    a\<lparr>ar_Name := sanitize (ar_Name a), ar_SHA256 := sanitize (ar_SHA256 a)\<rparr>"

lemma dec_artifact_canon:
  "dec_artifact (canon (enc_artifact a)) zero_artifact = Some (norm_artifact a)"
  by (cases a)
    (simp add: codec_simps enc_artifact_def dec_artifact_def zero_artifact_def norm_artifact_def)

lemma numbers_artifact [simp]: "numbers_ok (enc_artifact a)"
  by (simp add: enc_artifact_def)

lemma canon_norm_artifact: "canon (enc_artifact (norm_artifact a)) = canon (enc_artifact a)"
  by (simp add: enc_simps enc_artifact_def norm_artifact_def)

interpretation artifact_codec:
  codec enc_artifact dec_artifact zero_artifact "\<lambda>_. True" norm_artifact
  by unfold_locales (simp_all add: dec_artifact_canon canon_norm_artifact)

definition norm_manifest :: "Manifest \<Rightarrow> Manifest" where
  "norm_manifest m =
    m\<lparr>mf_SchemaVersion := sanitize (mf_SchemaVersion m), mf_BuildID := sanitize
      (mf_BuildID m),
     mf_RunIdentity := norm_run_identity (mf_RunIdentity m),
     mf_Source := norm_source (mf_Source m), mf_EventStream := norm_stream (mf_EventStream m),
     mf_ExecutionGraphSHA256 := sanitize (mf_ExecutionGraphSHA256 m),
     mf_Artifact := norm_artifact (mf_Artifact m),
     mf_PolicySHA256 := sanitize (mf_PolicySHA256 m),
     mf_SensorConfigSHA256 := sanitize (mf_SensorConfigSHA256 m)\<rparr>"

lemma dec_manifest_canon:
  "dec_manifest (canon (enc_manifest m)) zero_manifest = Some (norm_manifest m)"
  by (cases m)
    (simp add: codec_simps enc_manifest_def dec_manifest_def zero_manifest_def norm_manifest_def
       run_identity_codec.dec_canon source_codec.dec_canon stream_codec.dec_canon
       loss_codec.dec_canon lifecycle_codec.dec_canon artifact_codec.dec_canon)

lemma numbers_manifest [simp]: "numbers_ok (enc_manifest m)"
  by (simp add: enc_manifest_def)

lemma canon_norm_manifest: "canon (enc_manifest (norm_manifest m)) = canon (enc_manifest m)"
  by (simp add: enc_simps enc_manifest_def norm_manifest_def run_identity_codec.enc_norm
    source_codec.enc_norm stream_codec.enc_norm artifact_codec.enc_norm)

interpretation manifest_codec:
  codec enc_manifest dec_manifest zero_manifest "\<lambda>_. True" norm_manifest
  by unfold_locales (simp_all add: dec_manifest_canon canon_norm_manifest)

section \<open>Normal forms and codecs: statements, policies and decisions\<close>

definition norm_subject :: "Subject \<Rightarrow> Subject" where
  "norm_subject s =
    s\<lparr>sb_Name := sanitize (sb_Name s), sb_Digest := norm_strings (sb_Digest s)\<rparr>"

lemma dec_subject_canon:
  "dec_subject (canon (enc_subject s)) zero_subject = Some (norm_subject s)"
  by (cases s)
    (simp add: codec_simps enc_subject_def dec_subject_def zero_subject_def norm_subject_def)

lemma numbers_subject [simp]: "numbers_ok (enc_subject s)"
  by (simp add: enc_subject_def)

lemma canon_norm_subject: "canon (enc_subject (norm_subject s)) = canon (enc_subject s)"
  by (simp add: enc_simps enc_subject_def norm_subject_def)

interpretation subject_codec:
  codec enc_subject dec_subject zero_subject "\<lambda>_. True" norm_subject
  by unfold_locales (simp_all add: dec_subject_canon canon_norm_subject)

definition norm_statement :: "Statement \<Rightarrow> Statement" where
  "norm_statement s =
    s\<lparr>st_Type := sanitize (st_Type s), st_Subject := map_option (map norm_subject)
      (st_Subject s),
     st_PredicateType := sanitize (st_PredicateType s), st_Predicate := norm_map (st_Predicate
       s)\<rparr>"

definition statement_ok :: "Statement \<Rightarrow> bool" where
  "statement_ok s \<longleftrightarrow> numbers_ok (enc_map enc_any (st_Predicate s))"

lemma dec_statement_canon:
  "statement_ok s \<Longrightarrow>
   dec_statement (canon (enc_statement s)) zero_statement = Some (norm_statement s)"
  by (cases s)
    (simp add: codec_simps enc_statement_def dec_statement_def zero_statement_def
      norm_statement_def statement_ok_def
       subject_codec.dec_canon
       dec_slice_canon [where dec = dec_subject and enc = enc_subject and norm = norm_subject])

lemma numbers_statement [simp]: "statement_ok s \<Longrightarrow> numbers_ok (enc_statement s)"
  by (simp add: enc_statement_def statement_ok_def)

lemma canon_norm_statement:
  "statement_ok s \<Longrightarrow> canon (enc_statement (norm_statement s)) = canon (enc_statement s)"
  by (simp add: enc_simps enc_statement_def norm_statement_def statement_ok_def
    subject_codec.enc_norm)

lemma ok_norm_statement [simp]: "statement_ok s \<Longrightarrow> statement_ok (norm_statement s)"
  by (simp add: statement_ok_def norm_statement_def)

interpretation statement_codec:
  codec enc_statement dec_statement zero_statement statement_ok norm_statement
  by unfold_locales (simp_all add: dec_statement_canon canon_norm_statement)

definition norm_correlation :: "Correlation \<Rightarrow> Correlation" where
  "norm_correlation c =
    c\<lparr>co_BuildID := sanitize (co_BuildID c), co_BuilderID := sanitize (co_BuilderID c),
     co_RunIdentity := norm_run_identity (co_RunIdentity c),
     co_Source := norm_source (co_Source c),
     co_EvidenceManifestHash := sanitize (co_EvidenceManifestHash c),
     co_ExecutionGraphHash := sanitize (co_ExecutionGraphHash c),
     co_SLSAProvenanceHash := sanitize (co_SLSAProvenanceHash c),
     co_PolicyHash := sanitize (co_PolicyHash c), co_Completeness := sanitize (co_Completeness
       c)\<rparr>"

lemma dec_correlation_canon:
  "dec_correlation (canon (enc_correlation c)) zero_correlation = Some (norm_correlation c)"
  by (cases c)
    (simp add: codec_simps enc_correlation_def dec_correlation_def zero_correlation_def
      norm_correlation_def
       run_identity_codec.dec_canon source_codec.dec_canon)

lemma numbers_correlation [simp]: "numbers_ok (enc_correlation c)"
  by (simp add: enc_correlation_def)

lemma canon_norm_correlation:
  "canon (enc_correlation (norm_correlation c)) = canon (enc_correlation c)"
  by (simp add: enc_simps enc_correlation_def norm_correlation_def run_identity_codec.enc_norm
    source_codec.enc_norm)

interpretation correlation_codec:
  codec enc_correlation dec_correlation zero_correlation "\<lambda>_. True" norm_correlation
  by unfold_locales (simp_all add: dec_correlation_canon canon_norm_correlation)

definition norm_policy :: "Policy \<Rightarrow> Policy" where
  "norm_policy p =
    p\<lparr>po_SchemaVersion := sanitize (po_SchemaVersion p),
     po_AllowedBuilderIDs := map_option (map sanitize) (po_AllowedBuilderIDs p),
     po_AllowedArtifactProducers := map_option (map sanitize) (po_AllowedArtifactProducers p),
     po_AllowedRepositories := map_option (map sanitize) (po_AllowedRepositories p),
     po_AllowedExecutables := map_option (map sanitize) (po_AllowedExecutables p),
     po_AllowedNetworkDestinations := map_option (map sanitize) (po_AllowedNetworkDestinations p),
     po_ForbiddenSensitiveCategories := map_option (map sanitize)
       (po_ForbiddenSensitiveCategories p),
     po_ExpectedProvider := sanitize (po_ExpectedProvider p),
     po_IncompleteDecision := sanitize (po_IncompleteDecision p)\<rparr>"

lemma dec_policy_canon:
  "dec_policy (canon (enc_policy p)) zero_policy = Some (norm_policy p)"
  by (cases p)
    (simp add: codec_simps enc_policy_def dec_policy_def zero_policy_def norm_policy_def)

lemma numbers_policy [simp]: "numbers_ok (enc_policy p)"
  by (simp add: enc_policy_def)

lemma canon_norm_policy: "canon (enc_policy (norm_policy p)) = canon (enc_policy p)"
  by (simp add: enc_simps enc_policy_def norm_policy_def)

interpretation policy_codec: codec enc_policy dec_policy zero_policy "\<lambda>_. True" norm_policy
  by unfold_locales (simp_all add: dec_policy_canon canon_norm_policy)

end
