(* ===== verification/Token.thy ===== *)
theory Token
  imports Codecs
begin

text \<open>
  The token interface of \<open>encoding/json\<close>'s \<open>Decoder\<close> as far as \<open>parse.go\<close> uses it: \<open>Token\<close>, \<open>More\<close>
  and \<open>Decode\<close> on a byte slice that is in memory. A decoder is its unread input and the state
  machine that places commas and colons. An error of the decoder is \<open>None\<close>.
\<close>

datatype tstate =
    TopValue | ArrayStart | ArrayValue | ArrayComma
  | ObjectStart | ObjectKey | ObjectColon | ObjectValue | ObjectComma

record decoder =
  d_inp :: string
  d_state :: tstate
  d_stack :: "tstate list"

text \<open>\<open>json.Token\<close>: a delimiter, a string, or another scalar.\<close>

datatype token = TDelim char | TString string | TScalar json

definition NewDecoder :: "bytes \<Rightarrow> decoder" where
  "NewDecoder raw = \<lparr>d_inp = raw, d_state = TopValue, d_stack = []\<rparr>"

fun tokenValueAllowed :: "tstate \<Rightarrow> bool" where
  "tokenValueAllowed TopValue = True"
| "tokenValueAllowed ArrayStart = True"
| "tokenValueAllowed ArrayValue = True"
| "tokenValueAllowed ObjectValue = True"
| "tokenValueAllowed _ = False"

fun tokenValueEnd :: "tstate \<Rightarrow> tstate" where
  "tokenValueEnd ArrayStart = ArrayComma"
| "tokenValueEnd ArrayValue = ArrayComma"
| "tokenValueEnd ObjectValue = ObjectComma"
| "tokenValueEnd s = s"

definition More :: "decoder \<Rightarrow> bool" where
  "More d = (case skip_ws (d_inp d) of
     [] \<Rightarrow> False
   | c # _ \<Rightarrow> c \<noteq> CHR '']'' \<and> c \<noteq> close_brace)"

definition open_delim :: "tstate \<Rightarrow> decoder \<Rightarrow> string \<Rightarrow> char \<Rightarrow> (token \<times> decoder) option" where
  "open_delim start d t c =
     (if tokenValueAllowed (d_state d)
      then Some (TDelim c, \<lparr>d_inp = t, d_state = start, d_stack = d_state d # d_stack d\<rparr>)
      else None)"

definition close_delim :: "tstate \<Rightarrow> tstate \<Rightarrow> decoder \<Rightarrow> string \<Rightarrow> char \<Rightarrow> (token \<times> decoder) option" where
  "close_delim start comma d t c =
     (if d_state d = start \<or> d_state d = comma then
        (case d_stack d of
           [] \<Rightarrow> None
         | s # stk \<Rightarrow> Some (TDelim c, \<lparr>d_inp = t, d_state = tokenValueEnd s, d_stack = stk\<rparr>))
      else None)"

text \<open>A scalar inside the token stream, read by \<open>Decode\<close>.\<close>

definition scalar_token :: "decoder \<Rightarrow> (token \<times> decoder) option" where
  "scalar_token d =
     (if tokenValueAllowed (d_state d) then
        (case parse_json (d_inp d) of
           None \<Rightarrow> None
         | Some (j, rest) \<Rightarrow>
             Some (case j of JStr s \<Rightarrow> TString s | _ \<Rightarrow> TScalar j,
                   d\<lparr>d_inp := rest, d_state := tokenValueEnd (d_state d)\<rparr>))
      else None)"

text \<open>An object key, read by \<open>Decode\<close> into a string; the input starts with its quote.\<close>

definition key_token :: "decoder \<Rightarrow> string \<Rightarrow> (token \<times> decoder) option" where
  "key_token d t =
     (case scan_string t of
        None \<Rightarrow> None
      | Some (k, rest) \<Rightarrow> Some (TString k, d\<lparr>d_inp := rest, d_state := ObjectColon\<rparr>))"

function Token :: "decoder \<Rightarrow> (token \<times> decoder) option" where
  "Token d =
     (case skip_ws (d_inp d) of
        [] \<Rightarrow> None
      | c # t \<Rightarrow>
          if c = CHR ''['' then open_delim ArrayStart d t c
          else if c = CHR '']'' then close_delim ArrayStart ArrayComma d t c
          else if c = open_brace then open_delim ObjectStart d t c
          else if c = close_brace then close_delim ObjectStart ObjectComma d t c
          else if c = CHR '':'' then
            if d_state d = ObjectColon then Token (d\<lparr>d_inp := t, d_state := ObjectValue\<rparr>) else None
          else if c = CHR '','' then
            if d_state d = ArrayComma then Token (d\<lparr>d_inp := t, d_state := ArrayValue\<rparr>)
            else if d_state d = ObjectComma then Token (d\<lparr>d_inp := t, d_state := ObjectKey\<rparr>)
            else None
          else if c = dquote \<and> (d_state d = ObjectStart \<or> d_state d = ObjectKey) then key_token d t
          else scalar_token d)"
  by pat_completeness auto
termination
  by (relation "measure (\<lambda>d. length (d_inp d))") (auto dest: skip_ws_Cons_less)

declare Token.simps [simp del]

section \<open>Tokens consume input\<close>

lemma open_delim_eq_Some [simp]:
  "open_delim start d t c = Some (k, e) \<longleftrightarrow>
   tokenValueAllowed (d_state d) \<and> k = TDelim c \<and>
   e = \<lparr>d_inp = t, d_state = start, d_stack = d_state d # d_stack d\<rparr>"
  by (auto simp: open_delim_def)

lemma close_delim_eq_Some:
  "close_delim start comma d t c = Some (k, e) \<longleftrightarrow>
   (d_state d = start \<or> d_state d = comma) \<and> k = TDelim c \<and>
   (\<exists>s stk. d_stack d = s # stk \<and> e = \<lparr>d_inp = t, d_state = tokenValueEnd s, d_stack = stk\<rparr>)"
  by (auto simp: close_delim_def split: list.splits)

lemma if_Some_E:
  "(if b then x else y) = Some z \<Longrightarrow> (b \<Longrightarrow> x = Some z \<Longrightarrow> P) \<Longrightarrow> (\<not> b \<Longrightarrow> y = Some z \<Longrightarrow> P) \<Longrightarrow> P"
  by (cases b) auto

lemma parse_json_less: "parse_json s = Some (j, r) \<Longrightarrow> length r < length s"
  unfolding parse_json_def by (rule parse_value_less)

lemma Token_less: "Token d = Some (k, e) \<Longrightarrow> length (d_inp e) < length (d_inp d)"
proof (induction d arbitrary: k e rule: Token.induct)
  case (1 d)
  obtain c t where ct: "skip_ws (d_inp d) = c # t"
    using "1.prems" by (cases "skip_ws (d_inp d)") (auto simp: Token.simps)
  have t: "length t < length (d_inp d)" by (rule skip_ws_Cons_less [OF ct])
  have scalar: "length (d_inp e) < length (d_inp d)" if "scalar_token d = Some (k, e)"
    using that by (auto simp: scalar_token_def dest: parse_json_less split: if_splits option.splits)
  have key: "length (d_inp e) < length (d_inp d)" if "key_token d t = Some (k, e)"
    using that t by (auto simp: key_token_def dest: scan_string_less split: option.splits)
  have sep: "length (d_inp e) < length (d_inp d)"
    if "Token (d\<lparr>d_inp := t, d_state := s\<rparr>) = Some (k, e)"
      "c = CHR '':'' \<and> d_state d = ObjectColon \<and> s = ObjectValue \<or>
       c = CHR '','' \<and> d_state d = ArrayComma \<and> s = ArrayValue \<or>
       c = CHR '','' \<and> d_state d = ObjectComma \<and> s = ObjectKey" for s
    using that "1.IH" [OF ct] t by (auto simp: open_brace_def close_brace_def)
  have open_close: "length (d_inp e) < length (d_inp d)"
    if "open_delim s d t c = Some (k, e) \<or> close_delim s s' d t c = Some (k, e)" for s s'
    using that t by (auto simp: close_delim_eq_Some)
  show ?case
    using "1.prems" unfolding Token.simps [of d] ct list.case
    by (elim if_Some_E) (metis open_close scalar key sep option.distinct(1))+
qed

section \<open>Tokens by the first character\<close>

lemma Token_Nil: "skip_ws (d_inp d) = [] \<Longrightarrow> Token d = None"
  by (simp add: Token.simps)

lemma Token_colon:
  "skip_ws (d_inp d) = CHR '':'' # t \<Longrightarrow> d_state d = ObjectColon \<Longrightarrow>
   Token d = Token (d\<lparr>d_inp := t, d_state := ObjectValue\<rparr>)"
  by (subst Token.simps) (simp add: open_brace_def close_brace_def)

lemma Token_comma_array:
  "skip_ws (d_inp d) = CHR '','' # t \<Longrightarrow> d_state d = ArrayComma \<Longrightarrow>
   Token d = Token (d\<lparr>d_inp := t, d_state := ArrayValue\<rparr>)"
  by (subst Token.simps) (simp add: open_brace_def close_brace_def)

lemma Token_comma_object:
  "skip_ws (d_inp d) = CHR '','' # t \<Longrightarrow> d_state d = ObjectComma \<Longrightarrow>
   Token d = Token (d\<lparr>d_inp := t, d_state := ObjectKey\<rparr>)"
  by (subst Token.simps) (simp add: open_brace_def close_brace_def)

end
