(* ===== verification/Parse.thy ===== *)
theory Parse
  imports Token
begin

text \<open>
  \<open>internal/rpf/parse.go\<close> from \<open>decodeStrict\<close> on: the shape check that walks the tokens of a document
  and bounds its nesting, its number of values and its strings, and refuses duplicate keys; the
  strict decoder; statements and policies. The recursion of \<open>walkJSON\<close> runs on fuel, twice the
  length of the input and one more; \<open>walkJSON_ok_iff\<close> shows that this is enough, and that the walk
  accepts exactly the documents that the grammar of \<open>Json\<close> accepts and whose tree is within the
  limits (\<open>shape_ok\<close>).
\<close>

section \<open>Limits\<close>

definition maxDocumentBytes :: nat where "maxDocumentBytes = 64 * 2 ^ 20"
definition maxEventBytes :: nat where "maxEventBytes = 256 * 2 ^ 10"
definition maxStringBytes :: nat where "maxStringBytes = 32 * 2 ^ 10"
definition maxDepth :: nat where "maxDepth = 16"
definition maxValues :: nat where "maxValues = 2000"
definition maxEvents :: nat where "maxEvents = 1000000"

section \<open>The walk\<close>

text \<open>
  The two loops of \<open>walkJSON\<close> are the functions \<open>walk_object\<close> and \<open>walk_array\<close>; the pointer
  \<open>count\<close> is passed and returned.
\<close>

fun walkJSON :: "nat \<Rightarrow> decoder \<Rightarrow> nat \<Rightarrow> nat \<Rightarrow> (decoder \<times> nat) result"
  and walk_object :: "nat \<Rightarrow> decoder \<Rightarrow> nat \<Rightarrow> nat \<Rightarrow> string list \<Rightarrow> (decoder \<times> nat) result"
  and walk_array :: "nat \<Rightarrow> decoder \<Rightarrow> nat \<Rightarrow> nat \<Rightarrow> (decoder \<times> nat) result" where
  "walkJSON 0 d depth count = Inl (ParseErr FuelExhausted)"
| "walkJSON (Suc n) d depth count =
     (if depth > maxDepth then Inl (ParseErr NestingExceeded)
      else if count + 1 > maxValues then Inl (ParseErr ValueCountExceeded)
      else
        (case Token d of
           None \<Rightarrow> Inl (ParseErr InvalidJSON)
         | Some (TString v, e) \<Rightarrow>
             if length v > maxStringBytes then Inl (ParseErr StringExceeded) else Inr (e, count + 1)
         | Some (TScalar v, e) \<Rightarrow> Inr (e, count + 1)
         | Some (TDelim delim, e) \<Rightarrow>
             if delim = open_brace then walk_object n e depth (count + 1) []
             else if delim = CHR ''['' then walk_array n e depth (count + 1)
             else Inl (ParseErr UnexpectedDelimiter)))"
| "walk_object 0 d depth count seen = Inl (ParseErr FuelExhausted)"
| "walk_object (Suc n) d depth count seen =
     (if More d then
        (case Token d of
           None \<Rightarrow> Inl (ParseErr InvalidObjectKey)
         | Some (TString key, e) \<Rightarrow>
             if length key > maxStringBytes then Inl (ParseErr KeyExceeded)
             else if key \<in> set seen then Inl (ParseErr (DuplicateKey key))
             else and_then (walkJSON n e (depth + 1) count)
                    (\<lambda>(f, count'). walk_object n f depth count' (key # seen))
         | Some _ \<Rightarrow> Inl (ParseErr KeyNotString))
      else
        (case Token d of
           Some (TDelim delim, e) \<Rightarrow>
             if delim = close_brace then Inr (e, count) else Inl (ParseErr UnterminatedObject)
         | _ \<Rightarrow> Inl (ParseErr UnterminatedObject)))"
| "walk_array 0 d depth count = Inl (ParseErr FuelExhausted)"
| "walk_array (Suc n) d depth count =
     (if More d then
        and_then (walkJSON n d (depth + 1) count) (\<lambda>(f, count'). walk_array n f depth count')
      else
        (case Token d of
           Some (TDelim delim, e) \<Rightarrow>
             if delim = CHR '']'' then Inr (e, count) else Inl (ParseErr UnterminatedArray)
         | _ \<Rightarrow> Inl (ParseErr UnterminatedArray)))"

declare walkJSON.simps(2) [simp del] walk_object.simps(2) [simp del] walk_array.simps(2) [simp del]

text \<open>\<open>Decode(&extra)\<close> on what is left: \<open>io.EOF\<close> when it is only white space.\<close>

definition requireEOF :: "string \<Rightarrow> unit result" where
  "requireEOF rest =
     (if skip_ws rest = [] then Inr ()
      else
        (case parse_json rest of
           Some _ \<Rightarrow> Inl (ParseErr MultipleValues)
         | None \<Rightarrow> Inl (ParseErr TrailingData)))"

definition validateJSONShape :: "bytes \<Rightarrow> unit result" where
  "validateJSONShape raw =
     and_then (walkJSON (2 * length raw + 1) (NewDecoder raw) 0 0) (\<lambda>(d, count). requireEOF (d_inp d))"

section \<open>The strict decoder\<close>

text \<open>The destination holds \<open>dst\<close> before; every caller drops it on an error.\<close>

definition decodeStrict :: "'a decode \<Rightarrow> bytes \<Rightarrow> 'a \<Rightarrow> nat \<Rightarrow> 'a result" where
  "decodeStrict dec raw dst limit =
     (if raw = [] \<or> length raw > limit then Inl (ParseErr (DocumentSize (length raw)))
      else and_then (validateJSONShape raw) (\<lambda>_.
        (case parse_json raw of
           None \<Rightarrow> Inl (ParseErr StrictDecode)
         | Some (j, rest) \<Rightarrow>
             (case dec j dst of
                None \<Rightarrow> Inl (ParseErr StrictDecode)
              | Some v \<Rightarrow> and_then (requireEOF rest) (\<lambda>_. Inr v)))))"

definition decodeStatement :: "bytes \<Rightarrow> Statement result" where
  "decodeStatement raw =
     and_then (decodeStrict dec_statement raw zero_statement maxDocumentBytes) (\<lambda>statement.
       if st_Type statement \<noteq> StatementType then
         Inl (DocumentErr (UnsupportedStatement (st_Type statement)))
       else if elems (st_Subject statement) = [] then Inl (DocumentErr NoSubjects)
       else Inr statement)"

definition decodePolicy :: "bytes \<Rightarrow> Policy result" where
  "decodePolicy raw =
     and_then (decodeStrict dec_policy raw zero_policy maxDocumentBytes) (\<lambda>policy.
       if po_SchemaVersion policy \<noteq> ''0.1'' then
         Inl (DocumentErr (UnsupportedPolicy (po_SchemaVersion policy)))
       else if po_IncompleteDecision policy \<noteq> ''REVIEW'' \<and> po_IncompleteDecision policy \<noteq> ''REJECT''
       then Inl (DocumentErr BadIncompleteDecision)
       else if po_ExpectedProvider policy = [] \<or> elems (po_AllowedBuilderIDs policy) = [] \<or>
               elems (po_AllowedArtifactProducers policy) = [] \<or>
               elems (po_AllowedRepositories policy) = [] then
         Inl (DocumentErr MissingAllowlists)
       else Inr policy)"

section \<open>The shape of a tree\<close>

fun fits :: "nat \<Rightarrow> json \<Rightarrow> bool" where
  "fits d (JStr s) \<longleftrightarrow> d \<le> maxDepth \<and> length s \<le> maxStringBytes"
| "fits d (JArr xs) \<longleftrightarrow> d \<le> maxDepth \<and> (\<forall>x \<in> set xs. fits (d + 1) x)"
| "fits d (JObj ms) \<longleftrightarrow> d \<le> maxDepth \<and> distinct (map fst ms) \<and>
     (\<forall>(k, v) \<in> set ms. length k \<le> maxStringBytes \<and> fits (d + 1) v)"
| "fits d j \<longleftrightarrow> d \<le> maxDepth"

fun nvals :: "json \<Rightarrow> nat" where
  "nvals (JArr xs) = 1 + sum_list (map nvals xs)"
| "nvals (JObj ms) = 1 + sum_list (map (\<lambda>(k, v). nvals v) ms)"
| "nvals j = 1"

definition shape_ok :: "json \<Rightarrow> bool" where
  "shape_ok j \<longleftrightarrow> fits 0 j \<and> nvals j \<le> maxValues"

section \<open>The grammar without fuel\<close>

definition parse_els :: "string \<Rightarrow> (json list \<times> string) option" where
  "parse_els s = parse_elements (2 * length s + 1) s"

definition parse_mems :: "string \<Rightarrow> ((string \<times> json) list \<times> string) option" where
  "parse_mems s = parse_members (2 * length s) s"

text \<open>What follows \<open>[\<close> (\<open>first\<close>) or an element of an array, and the same for objects.\<close>

definition arr_tail :: "bool \<Rightarrow> string \<Rightarrow> (json list \<times> string) option" where
  "arr_tail first inp =
     (case skip_ws inp of
        [] \<Rightarrow> None
      | d # u \<Rightarrow>
          if d = CHR '']'' then Some ([], u)
          else if first then parse_els inp
          else if d = CHR '','' then parse_els u else None)"

definition obj_tail :: "bool \<Rightarrow> string \<Rightarrow> ((string \<times> json) list \<times> string) option" where
  "obj_tail first inp =
     (case skip_ws inp of
        [] \<Rightarrow> None
      | d # u \<Rightarrow>
          if d = close_brace then Some ([], u)
          else if first then parse_mems inp
          else if d = CHR '','' then parse_mems u else None)"

lemma parse_value_eq: "2 * length s \<le> m \<Longrightarrow> parse_value m s = parse_json s"
  using parse_fuel [of m s] parse_fuel [of "2 * length s" s _ m] unfolding parse_json_def
  by (metis option.exhaust order_refl)

lemma parse_elements_eq: "2 * length s < m \<Longrightarrow> parse_elements m s = parse_els s"
  using parse_fuel_elements [of m s] parse_fuel_elements [of "2 * length s + 1" s _ m]
  unfolding parse_els_def by (metis option.exhaust less_add_one)

lemma parse_members_eq: "2 * length s \<le> m \<Longrightarrow> parse_members m s = parse_mems s"
  using parse_fuel_members [of m s] parse_fuel_members [of "2 * length s" s _ m]
  unfolding parse_mems_def by (metis option.exhaust order_refl)

lemma parse_json_Nil: "skip_ws s = [] \<Longrightarrow> parse_json s = None"
  by (cases "2 * length s") (auto simp: parse_json_def parse_value.simps(2))

lemma parse_json_array:
  "skip_ws s = CHR ''['' # t \<Longrightarrow> parse_json s = map_option (map_prod JArr id) (arr_tail True t)"
proof -
  assume s: "skip_ws s = CHR ''['' # t"
  then have l: "length t < length s" by (rule skip_ws_Cons_less)
  then obtain n where n: "2 * length s = Suc n" by (cases "2 * length s") auto
  then have "2 * length t < n" using l by simp
  with s show ?thesis
    by (auto simp: parse_json_def n parse_value.simps(2) parse_elements_eq arr_tail_def open_brace_def
        split: list.split)
qed

lemma parse_json_object:
  "skip_ws s = open_brace # t \<Longrightarrow> parse_json s = map_option (map_prod JObj id) (obj_tail True t)"
proof -
  assume s: "skip_ws s = open_brace # t"
  then have l: "length t < length s" by (rule skip_ws_Cons_less)
  then obtain n where n: "2 * length s = Suc n" by (cases "2 * length s") auto
  then have "2 * length t \<le> n" using l by simp
  with s show ?thesis
    by (auto simp: parse_json_def n parse_value.simps(2) parse_members_eq obj_tail_def split: list.split)
qed

lemma parse_els_eq:
  "parse_els s = (case parse_json s of
     None \<Rightarrow> None
   | Some (v, t) \<Rightarrow> map_option (map_prod (\<lambda>vs. v # vs) id) (arr_tail False t))"
proof (cases "parse_json s")
  case None
  then show ?thesis by (simp add: parse_els_def parse_elements.simps(2) parse_value_eq)
next
  case (Some vt)
  obtain v t where vt: "vt = (v, t)" by force
  have l: "length t < length s" using parse_json_less Some vt by blast
  have "parse_elements (2 * length s) u = parse_els u" if "skip_ws t = d # u" for d u
    by (rule parse_elements_eq) (use skip_ws_Cons_less [OF that] l in simp)
  then show ?thesis
    by (auto simp: parse_els_def [of s] parse_elements.simps(2) parse_value_eq Some vt arr_tail_def
        split: list.split)
qed

lemma parse_mems_eq:
  "parse_mems s =
     (case skip_ws s of
        [] \<Rightarrow> None
      | q # r \<Rightarrow>
          if q \<noteq> dquote then None
          else
            (case scan_string r of
               None \<Rightarrow> None
             | Some (k, r') \<Rightarrow>
                 (case skip_ws r' of
                    [] \<Rightarrow> None
                  | e # w \<Rightarrow>
                      if e \<noteq> CHR '':'' then None
                      else
                        (case parse_json w of
                           None \<Rightarrow> None
                         | Some (v, t) \<Rightarrow> map_option (map_prod (\<lambda>ms. (k, v) # ms) id) (obj_tail False t)))))"
proof (cases "skip_ws s")
  case Nil
  then show ?thesis by (cases "2 * length s") (auto simp: parse_mems_def parse_members.simps(2))
next
  case (Cons q r)
  have r: "length r < length s" by (rule skip_ws_Cons_less [OF Cons])
  then obtain n where n: "2 * length s = Suc n" by (cases "2 * length s") auto
  have w: "parse_value n w = parse_json w" if "scan_string r = Some (k, r')" "skip_ws r' = e # w"
    for k r' e w
    by (rule parse_value_eq) (use scan_string_less [OF that(1)] skip_ws_Cons_less [OF that(2)] r n in simp)
  have u: "parse_members n u = parse_mems u"
    if "scan_string r = Some (k, r')" "skip_ws r' = e # w" "parse_json w = Some (v, t)" "skip_ws t = d # u"
    for k r' e w v t d u
    by (rule parse_members_eq)
       (use scan_string_less [OF that(1)] skip_ws_Cons_less [OF that(2)] parse_json_less [OF that(3)]
         skip_ws_Cons_less [OF that(4)] r n in simp)
  show ?thesis
    by (auto simp: parse_mems_def [of s] n parse_members.simps(2) Cons w u obj_tail_def
        split: list.split option.split)
qed
section \<open>Tokens at the start of a value\<close>

definition is_scalar :: "json \<Rightarrow> bool" where
  "is_scalar j = (case j of JArr _ \<Rightarrow> False | JObj _ \<Rightarrow> False | _ \<Rightarrow> True)"

lemma parse_scalar:
  "skip_ws s = c # t \<Longrightarrow> c \<noteq> open_brace \<Longrightarrow> c \<noteq> CHR ''['' \<Longrightarrow> parse_json s = Some (j, rest) \<Longrightarrow> is_scalar j"
  by (cases "2 * length s")
     (auto simp: parse_json_def parse_value.simps(2) is_scalar_def split: if_splits)

text \<open>The delimiters that start no value.\<close>

lemma parse_delim:
  assumes "skip_ws s = c # t" "c = CHR '']'' \<or> c = close_brace \<or> c = CHR '':'' \<or> c = CHR '',''"
  shows "parse_json s = None"
proof (cases "2 * length s")
  case 0
  with assms show ?thesis by (auto simp: skip_ws_def)
next
  case (Suc n)
  have "scan_number (c # t) = None"
    using assms(2) by (auto simp: scan_number_def scan_minus_def close_brace_def is_digit_def)
  with assms Suc show ?thesis
    by (auto simp: parse_json_def parse_value.simps(2) open_brace_def close_brace_def)
qed

lemma allowed_not_start: "tokenValueAllowed s \<Longrightarrow> s \<noteq> ObjectStart \<and> s \<noteq> ObjectKey \<and> s \<noteq> ObjectColon \<and>
  s \<noteq> ArrayComma \<and> s \<noteq> ObjectComma"
  by (cases s) auto

lemma Token_array:
  "skip_ws inp = CHR ''['' # t \<Longrightarrow> tokenValueAllowed s \<Longrightarrow>
   Token \<lparr>d_inp = inp, d_state = s, d_stack = stk\<rparr> =
   Some (TDelim CHR ''['', \<lparr>d_inp = t, d_state = ArrayStart, d_stack = s # stk\<rparr>)"
  by (subst Token.simps) (simp add: open_delim_def)

lemma Token_object:
  "skip_ws inp = open_brace # t \<Longrightarrow> tokenValueAllowed s \<Longrightarrow>
   Token \<lparr>d_inp = inp, d_state = s, d_stack = stk\<rparr> =
   Some (TDelim open_brace, \<lparr>d_inp = t, d_state = ObjectStart, d_stack = s # stk\<rparr>)"
  by (subst Token.simps) (simp add: open_delim_def open_brace_def)

lemma Token_scalar:
  assumes "skip_ws inp = c # t" "tokenValueAllowed s"
    "c \<notin> {CHR ''['', open_brace, CHR '']'', close_brace, CHR '':'', CHR '',''}"
  shows "Token \<lparr>d_inp = inp, d_state = s, d_stack = stk\<rparr> =
    scalar_token \<lparr>d_inp = inp, d_state = s, d_stack = stk\<rparr>"
  using assms allowed_not_start [OF assms(2)] by (subst Token.simps) auto

text \<open>A wrong delimiter is no token, or one that no value starts with.\<close>

lemma Token_delim:
  assumes "skip_ws inp = c # t" "tokenValueAllowed s"
    "c \<in> {CHR '']'', close_brace, CHR '':'', CHR '',''}"
    "Token \<lparr>d_inp = inp, d_state = s, d_stack = stk\<rparr> = Some (k, e)"
  shows "k = TDelim CHR '']''"
  using assms allowed_not_start [OF assms(2)]
  by (subst (asm) Token.simps)
     (auto simp: open_brace_def close_brace_def close_delim_eq_Some split: if_splits)

section \<open>The walk accepts the grammar within the limits\<close>

abbreviation dec_at :: "string \<Rightarrow> tstate \<Rightarrow> tstate list \<Rightarrow> decoder" where
  "dec_at inp s stk \<equiv> \<lparr>d_inp = inp, d_state = s, d_stack = stk\<rparr>"

text \<open>What the walk of one value does, given what its two loops do with less fuel.\<close>

definition walk_value_spec :: "nat \<Rightarrow> bool" where
  "walk_value_spec n \<longleftrightarrow>
     (\<forall>inp s stk depth count e count'.
        2 * length inp + 1 \<le> n \<longrightarrow> tokenValueAllowed s \<longrightarrow>
        (walkJSON n (dec_at inp s stk) depth count = Inr (e, count') \<longleftrightarrow>
         (\<exists>j rest. parse_json inp = Some (j, rest) \<and> fits depth j \<and> count' = count + nvals j \<and>
            count' \<le> maxValues \<and> e = dec_at rest (tokenValueEnd s) stk)))"

definition walk_array_spec :: "nat \<Rightarrow> bool" where
  "walk_array_spec n \<longleftrightarrow>
     (\<forall>inp first s stk depth count e count'.
        2 * length inp + 2 \<le> n \<longrightarrow> count \<le> maxValues \<longrightarrow>
        (walk_array n (dec_at inp (if first then ArrayStart else ArrayComma) (s # stk)) depth count
           = Inr (e, count') \<longleftrightarrow>
         (\<exists>js rest. arr_tail first inp = Some (js, rest) \<and> (\<forall>j \<in> set js. fits (depth + 1) j) \<and>
            count' = count + sum_list (map nvals js) \<and> count' \<le> maxValues \<and>
            e = dec_at rest (tokenValueEnd s) stk)))"

definition keys_ok :: "string list \<Rightarrow> (string \<times> json) list \<Rightarrow> bool" where
  "keys_ok seen ms \<longleftrightarrow> distinct (map fst ms) \<and> set seen \<inter> fst ` set ms = {}"

definition walk_object_spec :: "nat \<Rightarrow> bool" where
  "walk_object_spec n \<longleftrightarrow>
     (\<forall>inp first s stk depth count seen e count'.
        2 * length inp + 2 \<le> n \<longrightarrow> count \<le> maxValues \<longrightarrow>
        (walk_object n (dec_at inp (if first then ObjectStart else ObjectComma) (s # stk)) depth count seen
           = Inr (e, count') \<longleftrightarrow>
         (\<exists>ms rest. obj_tail first inp = Some (ms, rest) \<and> keys_ok seen ms \<and>
            (\<forall>(k, v) \<in> set ms. length k \<le> maxStringBytes \<and> fits (depth + 1) v) \<and>
            count' = count + sum_list (map (\<lambda>(k, v). nvals v) ms) \<and> count' \<le> maxValues \<and>
            e = dec_at rest (tokenValueEnd s) stk)))"

lemma nvals_pos: "0 < nvals j"
  by (cases j) auto

lemma fits_depth: "fits d j \<Longrightarrow> d \<le> maxDepth"
  by (cases j) auto

lemma walk_value_step:
  assumes arr: "walk_array_spec n" and obj: "walk_object_spec n"
  shows "walk_value_spec (Suc n)"
  unfolding walk_value_spec_def
proof (intro allI impI)
  fix inp :: string and s stk depth count e count'
  assume n: "2 * length inp + 1 \<le> Suc n" and s: "tokenValueAllowed s"
  let ?d = "dec_at inp s stk"
  let ?P = "\<exists>j rest. parse_json inp = Some (j, rest) \<and> fits depth j \<and> count' = count + nvals j \<and>
            count' \<le> maxValues \<and> e = dec_at rest (tokenValueEnd s) stk"
  have nopass: "\<not> ?P" if "\<not> (depth \<le> maxDepth \<and> count + 1 \<le> maxValues)"
    using that nvals_pos fits_depth by (metis Suc_eq_plus1 add.right_neutral add_Suc_right
        add_le_cancel_left less_eq_Suc_le order_trans)
  show "walkJSON (Suc n) ?d depth count = Inr (e, count') \<longleftrightarrow> ?P"
  proof (cases "depth \<le> maxDepth \<and> count + 1 \<le> maxValues")
    case False
    with nopass show ?thesis by (auto simp: walkJSON.simps(2))
  next
    case pass: True
    show ?thesis
    proof (cases "skip_ws inp")
      case Nil
      then show ?thesis using pass by (simp add: walkJSON.simps(2) Token_Nil parse_json_Nil)
    next
      case (Cons c t)
      have t: "2 * length t + 2 \<le> n" using skip_ws_Cons_less [OF Cons] n by simp
      consider "c = CHR ''[''" | "c = open_brace" | "c \<in> {CHR '']'', close_brace, CHR '':'', CHR '',''}"
        | "c \<notin> {CHR ''['', open_brace, CHR '']'', close_brace, CHR '':'', CHR '',''}" by blast
      then show ?thesis
      proof cases
        case 1
        with Cons have sk: "skip_ws inp = CHR ''['' # t" by simp
        have "walkJSON (Suc n) ?d depth count = walk_array n (dec_at t ArrayStart (s # stk)) depth (count + 1)"
          using pass by (simp add: walkJSON.simps(2) Token_array [OF sk s] open_brace_def)
        moreover have "walk_array n (dec_at t ArrayStart (s # stk)) depth (count + 1) = Inr (e, count') \<longleftrightarrow>
          (\<exists>js rest. arr_tail True t = Some (js, rest) \<and> (\<forall>j \<in> set js. fits (depth + 1) j) \<and>
            count' = count + 1 + sum_list (map nvals js) \<and> count' \<le> maxValues \<and>
            e = dec_at rest (tokenValueEnd s) stk)"
          using arr [unfolded walk_array_spec_def, rule_format, OF t, of "count + 1" True] pass by simp
        moreover have "?P \<longleftrightarrow> (\<exists>js rest. arr_tail True t = Some (js, rest) \<and> (\<forall>j \<in> set js. fits (depth + 1) j) \<and>
            count' = count + 1 + sum_list (map nvals js) \<and> count' \<le> maxValues \<and>
            e = dec_at rest (tokenValueEnd s) stk)"
          using pass by (force simp: parse_json_array [OF sk])
        ultimately show ?thesis by simp
      next
        case 2
        with Cons have sk: "skip_ws inp = open_brace # t" by simp
        let ?Q = "\<exists>ms rest. obj_tail True t = Some (ms, rest) \<and> keys_ok [] ms \<and>
            (\<forall>(k, v) \<in> set ms. length k \<le> maxStringBytes \<and> fits (depth + 1) v) \<and>
            count' = count + 1 + sum_list (map (\<lambda>(k, v). nvals v) ms) \<and> count' \<le> maxValues \<and>
            e = dec_at rest (tokenValueEnd s) stk"
        have "walkJSON (Suc n) ?d depth count = walk_object n (dec_at t ObjectStart (s # stk)) depth (count + 1) []"
          using pass by (simp add: walkJSON.simps(2) Token_object [OF sk s])
        moreover have "walk_object n (dec_at t ObjectStart (s # stk)) depth (count + 1) [] = Inr (e, count') \<longleftrightarrow> ?Q"
          using obj [unfolded walk_object_spec_def, rule_format, OF t, of "count + 1" True] pass by simp
        moreover have "?P \<longleftrightarrow> ?Q"
          using pass by (force simp: parse_json_object [OF sk] keys_ok_def)
        ultimately show ?thesis by simp
      next
        case 3
        have "parse_json inp = None" by (rule parse_delim [OF Cons]) (use 3 in auto)
        moreover have "k = TDelim CHR '']''" if "Token ?d = Some (k, x)" for k x
          using Token_delim [OF Cons s 3] that by blast
        ultimately show ?thesis using pass
          by (auto simp: walkJSON.simps(2) open_brace_def split: option.splits token.splits)
      next
        case 4
        then have sc: "Token ?d = scalar_token ?d" by (rule Token_scalar [OF Cons s])
        show ?thesis
        proof (cases "parse_json inp")
          case None
          with pass s show ?thesis by (simp add: walkJSON.simps(2) sc scalar_token_def)
        next
          case (Some jr)
          obtain j rest where jr: "jr = (j, rest)" by force
          have "is_scalar j" using parse_scalar [OF Cons _ _ Some [unfolded jr]] 4 by blast
          with pass s show ?thesis
            by (cases j) (auto simp: walkJSON.simps(2) sc scalar_token_def Some jr is_scalar_def)
        qed
      qed
    qed
  qed
qed
lemma walkJSON_Token: "Token d = Token d' \<Longrightarrow> walkJSON n d depth count = walkJSON n d' depth count"
  by (cases n) (simp_all add: walkJSON.simps(2))

lemma walkJSON_no_token: "Token d = None \<Longrightarrow> walkJSON n d depth count \<noteq> Inr x"
  by (cases n) (simp_all add: walkJSON.simps(2))

text \<open>One more element: a value and the rest of the array.\<close>

lemma walk_array_more:
  assumes val: "walk_value_spec n" and arr: "walk_array_spec n"
    and n: "2 * length inp + 1 \<le> n" and s: "s = ArrayStart \<or> s = ArrayValue"
  shows "and_then (walkJSON n (dec_at inp s (s0 # stk)) (depth + 1) count)
           (\<lambda>(f, count'). walk_array n f depth count') = Inr (e, count') \<longleftrightarrow>
         (\<exists>js rest. parse_els inp = Some (js, rest) \<and> (\<forall>j \<in> set js. fits (depth + 1) j) \<and>
            count' = count + sum_list (map nvals js) \<and> count' \<le> maxValues \<and>
            e = dec_at rest (tokenValueEnd s0) stk)"
    (is "?L \<longleftrightarrow> ?R")
proof -
  have s': "tokenValueAllowed s" "tokenValueEnd s = ArrayComma" using s by auto
  have val': "walkJSON n (dec_at inp s (s0 # stk)) (depth + 1) count = Inr (f, c1) \<longleftrightarrow>
    (\<exists>j t. parse_json inp = Some (j, t) \<and> fits (depth + 1) j \<and> c1 = count + nvals j \<and>
       c1 \<le> maxValues \<and> f = dec_at t ArrayComma (s0 # stk))" for f c1
    using val [unfolded walk_value_spec_def, rule_format, OF n s'(1)] s'(2) by simp
  have arr': "walk_array n (dec_at t ArrayComma (s0 # stk)) depth c1 = Inr (e, count') \<longleftrightarrow>
    (\<exists>js rest. arr_tail False t = Some (js, rest) \<and> (\<forall>j \<in> set js. fits (depth + 1) j) \<and>
       count' = c1 + sum_list (map nvals js) \<and> count' \<le> maxValues \<and> e = dec_at rest (tokenValueEnd s0) stk)"
    if "parse_json inp = Some (j, t)" "c1 \<le> maxValues" for j t c1
    using arr [unfolded walk_array_spec_def, rule_format, of t c1 False] parse_json_less [OF that(1)] that(2) n
    by simp
  show ?thesis
  proof
    assume ?L
    then obtain f c1 where w: "walkJSON n (dec_at inp s (s0 # stk)) (depth + 1) count = Inr (f, c1)"
      "walk_array n f depth c1 = Inr (e, count')"
      by (auto simp: and_then_eq_Inr)
    then obtain j t where jt: "parse_json inp = Some (j, t)" "fits (depth + 1) j" "count + nvals j \<le> maxValues"
      "walk_array n (dec_at t ArrayComma (s0 # stk)) depth (count + nvals j) = Inr (e, count')"
      using val' [of f c1] by blast
    with arr' [OF jt(1) jt(3)] show ?R by (force simp: parse_els_eq [of inp])
  next
    assume ?R
    then obtain js rest where R: "parse_els inp = Some (js, rest)" "\<forall>j \<in> set js. fits (depth + 1) j"
      "count' = count + sum_list (map nvals js)" "count' \<le> maxValues" "e = dec_at rest (tokenValueEnd s0) stk"
      by blast
    then obtain j t js' where jt: "parse_json inp = Some (j, t)" "arr_tail False t = Some (js', rest)" "js = j # js'"
      by (auto simp: parse_els_eq [of inp] split: option.splits)
    have c: "count + nvals j \<le> maxValues" using R jt by simp
    have "walkJSON n (dec_at inp s (s0 # stk)) (depth + 1) count
        = Inr (dec_at t ArrayComma (s0 # stk), count + nvals j)"
      using jt R c by (subst val') auto
    moreover have "walk_array n (dec_at t ArrayComma (s0 # stk)) depth (count + nvals j) = Inr (e, count')"
      using arr' [OF jt(1) c] jt R by auto
    ultimately show ?L by simp
  qed
qed

lemma walk_array_step:
  assumes val: "walk_value_spec n" and arr: "walk_array_spec n"
  shows "walk_array_spec (Suc n)"
  unfolding walk_array_spec_def
proof (intro allI impI)
  fix inp :: string and first s stk depth count e count'
  assume n: "2 * length inp + 2 \<le> Suc n" and c: "count \<le> maxValues"
  let ?st = "if first then ArrayStart else ArrayComma"
  let ?d = "dec_at inp ?st (s # stk)"
  let ?P = "\<exists>js rest. arr_tail first inp = Some (js, rest) \<and> (\<forall>j \<in> set js. fits (depth + 1) j) \<and>
            count' = count + sum_list (map nvals js) \<and> count' \<le> maxValues \<and>
            e = dec_at rest (tokenValueEnd s) stk"
  show "walk_array (Suc n) ?d depth count = Inr (e, count') \<longleftrightarrow> ?P"
  proof (cases "skip_ws inp")
    case Nil
    then show ?thesis by (simp add: walk_array.simps(2) More_def Token_Nil arr_tail_def)
  next
    case (Cons d u)
    have u: "2 * length u + 1 \<le> n" using skip_ws_Cons_less [OF Cons] n by simp
    have more: "More ?d \<longleftrightarrow> d \<noteq> CHR '']'' \<and> d \<noteq> close_brace" by (simp add: More_def Cons)
    consider "d = CHR '']''" | "d = close_brace" | "d \<noteq> CHR '']''" "d \<noteq> close_brace" by blast
    then show ?thesis
    proof cases
      case 1
      then have "Token ?d = Some (TDelim CHR '']'', dec_at u (tokenValueEnd s) stk)"
        by (subst Token.simps) (simp add: Cons close_delim_def)
      with 1 c show ?thesis by (auto simp: walk_array.simps(2) more Cons arr_tail_def)
    next
      case 2
      then have "Token ?d = None"
        by (subst Token.simps) (simp add: Cons close_delim_def open_brace_def close_brace_def)
      moreover have "arr_tail first inp = None"
        using parse_delim [OF Cons] 2 by (simp add: arr_tail_def Cons parse_els_eq close_brace_def)
      ultimately show ?thesis using 2 by (simp add: walk_array.simps(2) more)
    next
      case 3
      then have w: "walk_array (Suc n) ?d depth count = and_then (walkJSON n ?d (depth + 1) count)
          (\<lambda>(f, count'). walk_array n f depth count')"
        by (simp add: walk_array.simps(2) more)
      show ?thesis
      proof (cases "first")
        case True
        with 3 w show ?thesis
          using walk_array_more [OF val arr, of inp ArrayStart s stk depth count e count'] n
          by (simp add: arr_tail_def Cons)
      next
        case rest: False
        show ?thesis
        proof (cases "d = CHR '',''")
          case True
          then have "Token ?d = Token (dec_at u ArrayValue (s # stk))"
            using rest Cons by (subst Token_comma_array) simp_all
          then have "walkJSON n ?d (depth + 1) count = walkJSON n (dec_at u ArrayValue (s # stk)) (depth + 1) count"
            by (rule walkJSON_Token)
          with True 3 w rest show ?thesis
            using walk_array_more [OF val arr u, of ArrayValue s stk depth count e count']
            by (simp add: arr_tail_def Cons)
        next
          case False
          have "Token ?d = None"
            using 3 False rest
            by (subst Token.simps) (simp add: Cons open_delim_def scalar_token_def)
          then have "\<And>x. walkJSON n ?d (depth + 1) count \<noteq> Inr x" by (rule walkJSON_no_token)
          with 3 False rest w show ?thesis by (auto simp: and_then_eq_Inr arr_tail_def Cons)
        qed
      qed
    qed
  qed
qed
text \<open>One more member: a key, a colon, a value and the rest of the object.\<close>

lemma keys_ok_Cons: "keys_ok seen ((k, v) # ms) \<longleftrightarrow> k \<notin> set seen \<and> keys_ok (k # seen) ms"
  by (auto simp: keys_ok_def)

lemma Token_key:
  "s = ObjectStart \<or> s = ObjectKey \<Longrightarrow> skip_ws inp = dquote # r \<Longrightarrow>
   Token (dec_at inp s stk) = key_token (dec_at inp s stk) r"
  by (subst Token.simps) (auto simp: open_brace_def close_brace_def)

lemma Token_not_key:
  assumes "s = ObjectStart \<or> s = ObjectKey" "skip_ws inp = q # r" "q \<noteq> dquote"
    "Token (dec_at inp s stk) = Some (k, e)"
  shows "\<exists>c. k = TDelim c"
proof -
  have s: "s \<noteq> ObjectColon" "s \<noteq> ArrayComma" "s \<noteq> ObjectComma" "\<not> tokenValueAllowed s"
    using assms(1) by auto
  show ?thesis
    using assms(3,4) unfolding Token.simps [of "dec_at inp s stk"] decoder.simps assms(2) list.case
    by (elim if_Some_E) (use s in \<open>auto simp: scalar_token_def close_delim_eq_Some\<close>)
qed

definition walk_member :: "nat \<Rightarrow> decoder \<Rightarrow> nat \<Rightarrow> nat \<Rightarrow> string list \<Rightarrow> (decoder \<times> nat) result" where
  "walk_member n d depth count seen =
     (case Token d of
        None \<Rightarrow> Inl (ParseErr InvalidObjectKey)
      | Some (TString key, e) \<Rightarrow>
          if length key > maxStringBytes then Inl (ParseErr KeyExceeded)
          else if key \<in> set seen then Inl (ParseErr (DuplicateKey key))
          else and_then (walkJSON n e (depth + 1) count)
                 (\<lambda>(f, count'). walk_object n f depth count' (key # seen))
      | Some _ \<Rightarrow> Inl (ParseErr KeyNotString))"

lemma walk_object_member: "More d \<Longrightarrow> walk_object (Suc n) d depth count seen = walk_member n d depth count seen"
  by (simp add: walk_object.simps(2) walk_member_def)

lemma walk_member_Token: "Token d = Token d' \<Longrightarrow> walk_member n d depth count seen = walk_member n d' depth count seen"
  by (simp add: walk_member_def)

lemma walk_member_key:
  assumes "Token d = Some (TString k, f)"
  shows "walk_member n d depth count seen = Inr x \<longleftrightarrow>
    length k \<le> maxStringBytes \<and> k \<notin> set seen \<and>
    and_then (walkJSON n f (depth + 1) count) (\<lambda>(f, count'). walk_object n f depth count' (k # seen)) = Inr x"
  using assms by (auto simp: walk_member_def)

lemma walk_member_iff:
  assumes val: "walk_value_spec n" and obj: "walk_object_spec n"
    and n: "2 * length inp + 1 \<le> n" and s: "s = ObjectStart \<or> s = ObjectKey"
  shows "walk_member n (dec_at inp s (s0 # stk)) depth count seen = Inr (e, count') \<longleftrightarrow>
         (\<exists>ms rest. parse_mems inp = Some (ms, rest) \<and> keys_ok seen ms \<and>
            (\<forall>(k, v) \<in> set ms. length k \<le> maxStringBytes \<and> fits (depth + 1) v) \<and>
            count' = count + sum_list (map (\<lambda>(k, v). nvals v) ms) \<and> count' \<le> maxValues \<and>
            e = dec_at rest (tokenValueEnd s0) stk)"
    (is "?L \<longleftrightarrow> ?R")
proof (cases "skip_ws inp")
  case Nil
  then show ?thesis by (simp add: walk_member_def Token_Nil parse_mems_eq)
next
  case (Cons q r)
  show ?thesis
  proof (cases "q = dquote")
    case False
    have "\<not> ?L"
      using Token_not_key [OF s Cons False]
      by (auto simp: walk_member_def split: option.splits token.splits)
    with False show ?thesis by (simp add: parse_mems_eq [of inp] Cons)
  next
    case q: True
    have tk: "Token (dec_at inp s (s0 # stk)) = key_token (dec_at inp s (s0 # stk)) r"
      by (rule Token_key [OF s]) (simp add: Cons q)
    show ?thesis
    proof (cases "scan_string r")
      case None
      then show ?thesis by (simp add: walk_member_def tk key_token_def parse_mems_eq [of inp] Cons)
    next
      case (Some kr)
      obtain k r' where kr: "kr = (k, r')" by force
      let ?c = "dec_at r' ObjectColon (s0 # stk)"
      have key: "Token (dec_at inp s (s0 # stk)) = Some (TString k, ?c)"
        by (simp add: tk key_token_def Some kr)
      show ?thesis
      proof (cases "\<exists>w. skip_ws r' = CHR '':'' # w")
        case False
        have "Token ?c = None"
          using False by (subst Token.simps)
            (auto simp: open_delim_def close_delim_def scalar_token_def split: list.split)
        then have "\<not> ?L" unfolding walk_member_key [OF key] by (auto simp: and_then_eq_Inr walkJSON_no_token)
        moreover have "parse_mems inp = None"
          using False by (auto simp: parse_mems_eq [of inp] Cons Some kr split: list.split)
        ultimately show ?thesis by simp
      next
        case True
        then obtain w where w: "skip_ws r' = CHR '':'' # w" by blast
        have lw: "length w < length inp"
          using skip_ws_Cons_less [OF Cons] scan_string_less [OF Some [unfolded kr]] skip_ws_Cons_less [OF w]
          by simp
        have "Token ?c = Token (dec_at w ObjectValue (s0 # stk))"
          using w by (subst Token_colon) simp_all
        then have wc: "walkJSON n ?c (depth + 1) count = walkJSON n (dec_at w ObjectValue (s0 # stk)) (depth + 1) count"
          by (rule walkJSON_Token)
        have val': "walkJSON n ?c (depth + 1) count = Inr (f, c1) \<longleftrightarrow>
          (\<exists>j t. parse_json w = Some (j, t) \<and> fits (depth + 1) j \<and> c1 = count + nvals j \<and>
             c1 \<le> maxValues \<and> f = dec_at t ObjectComma (s0 # stk))" for f c1
          unfolding wc using val [unfolded walk_value_spec_def, rule_format, of w ObjectValue] lw n by simp
        have obj': "walk_object n (dec_at t ObjectComma (s0 # stk)) depth c1 (k # seen) = Inr (e, count') \<longleftrightarrow>
          (\<exists>ms rest. obj_tail False t = Some (ms, rest) \<and> keys_ok (k # seen) ms \<and>
             (\<forall>(k, v) \<in> set ms. length k \<le> maxStringBytes \<and> fits (depth + 1) v) \<and>
             count' = c1 + sum_list (map (\<lambda>(k, v). nvals v) ms) \<and> count' \<le> maxValues \<and>
             e = dec_at rest (tokenValueEnd s0) stk)"
          if "parse_json w = Some (j, t)" "c1 \<le> maxValues" for j t c1
          using obj [unfolded walk_object_spec_def, rule_format, of t c1 False] parse_json_less [OF that(1)]
            that(2) lw n by simp
        have mems: "parse_mems inp = (case parse_json w of None \<Rightarrow> None
            | Some (v, t) \<Rightarrow> map_option (map_prod (\<lambda>ms. (k, v) # ms) id) (obj_tail False t))"
          by (simp add: parse_mems_eq [of inp] Cons q Some kr w)
        show ?thesis
        proof
          assume ?L
          then have k: "length k \<le> maxStringBytes" "k \<notin> set seen"
            and "and_then (walkJSON n ?c (depth + 1) count) (\<lambda>(f, count'). walk_object n f depth count' (k # seen))
                = Inr (e, count')"
            unfolding walk_member_key [OF key] by blast+
          then obtain f c1 where wf: "walkJSON n ?c (depth + 1) count = Inr (f, c1)"
            "walk_object n f depth c1 (k # seen) = Inr (e, count')"
            by (auto simp: and_then_eq_Inr)
          then obtain j t where jt: "parse_json w = Some (j, t)" "fits (depth + 1) j"
            "count + nvals j \<le> maxValues"
            "walk_object n (dec_at t ObjectComma (s0 # stk)) depth (count + nvals j) (k # seen) = Inr (e, count')"
            using val' [of f c1] by blast
          from iffD1 [OF obj' [OF jt(1) jt(3)] jt(4)]
          show ?R using jt k by (force simp: mems keys_ok_Cons)
        next
          assume ?R
          then obtain ms rest where R: "parse_mems inp = Some (ms, rest)" "keys_ok seen ms"
            "\<forall>(k, v) \<in> set ms. length k \<le> maxStringBytes \<and> fits (depth + 1) v"
            "count' = count + sum_list (map (\<lambda>(k, v). nvals v) ms)" "count' \<le> maxValues"
            "e = dec_at rest (tokenValueEnd s0) stk" by blast
          then obtain j t ms' where jt: "parse_json w = Some (j, t)" "obj_tail False t = Some (ms', rest)"
            "ms = (k, j) # ms'"
            by (auto simp: mems split: option.splits)
          have c: "count + nvals j \<le> maxValues" using R jt by simp
          have "walkJSON n ?c (depth + 1) count = Inr (dec_at t ObjectComma (s0 # stk), count + nvals j)"
            using jt R c by (subst val') auto
          moreover have "walk_object n (dec_at t ObjectComma (s0 # stk)) depth (count + nvals j) (k # seen) = Inr (e, count')"
            using jt R by (subst obj' [OF jt(1) c]) (auto simp: keys_ok_Cons)
          ultimately show ?L
            unfolding walk_member_key [OF key] using R jt by (auto simp: keys_ok_Cons)
        qed
      qed
    qed
  qed
qed

lemma walk_object_step:
  assumes val: "walk_value_spec n" and obj: "walk_object_spec n"
  shows "walk_object_spec (Suc n)"
  unfolding walk_object_spec_def
proof (intro allI impI)
  fix inp :: string and first s stk depth count seen e count'
  assume n: "2 * length inp + 2 \<le> Suc n" and c: "count \<le> maxValues"
  let ?st = "if first then ObjectStart else ObjectComma"
  let ?d = "dec_at inp ?st (s # stk)"
  let ?P = "\<exists>ms rest. obj_tail first inp = Some (ms, rest) \<and> keys_ok seen ms \<and>
            (\<forall>(k, v) \<in> set ms. length k \<le> maxStringBytes \<and> fits (depth + 1) v) \<and>
            count' = count + sum_list (map (\<lambda>(k, v). nvals v) ms) \<and> count' \<le> maxValues \<and>
            e = dec_at rest (tokenValueEnd s) stk"
  show "walk_object (Suc n) ?d depth count seen = Inr (e, count') \<longleftrightarrow> ?P"
  proof (cases "skip_ws inp")
    case Nil
    then show ?thesis by (simp add: walk_object.simps(2) More_def Token_Nil obj_tail_def)
  next
    case (Cons d u)
    have u: "2 * length u + 1 \<le> n" using skip_ws_Cons_less [OF Cons] n by simp
    have more: "More ?d \<longleftrightarrow> d \<noteq> CHR '']'' \<and> d \<noteq> close_brace" by (simp add: More_def Cons)
    consider "d = close_brace" | "d = CHR '']''" | "d \<noteq> CHR '']''" "d \<noteq> close_brace" by blast
    then show ?thesis
    proof cases
      case 1
      then have "Token ?d = Some (TDelim close_brace, dec_at u (tokenValueEnd s) stk)"
        by (subst Token.simps) (simp add: Cons close_delim_def open_brace_def close_brace_def)
      with 1 c show ?thesis by (auto simp: walk_object.simps(2) more Cons obj_tail_def keys_ok_def)
    next
      case 2
      then have "Token ?d = None"
        by (subst Token.simps) (simp add: Cons close_delim_def)
      moreover have "obj_tail first inp = None"
        using 2 by (simp add: obj_tail_def Cons parse_mems_eq close_brace_def)
      ultimately show ?thesis using 2 by (simp add: walk_object.simps(2) more)
    next
      case 3
      then have w: "walk_object (Suc n) ?d depth count seen = walk_member n ?d depth count seen"
        by (intro walk_object_member) (simp add: more)
      show ?thesis
      proof (cases "first")
        case True
        with 3 w show ?thesis
          using walk_member_iff [OF val obj, of inp ObjectStart s stk depth count seen e count'] n
          by (simp add: obj_tail_def Cons)
      next
        case rest: False
        show ?thesis
        proof (cases "d = CHR '',''")
          case True
          then have "Token ?d = Token (dec_at u ObjectKey (s # stk))"
            using rest Cons by (subst Token_comma_object) simp_all
          then have "walk_member n ?d depth count seen = walk_member n (dec_at u ObjectKey (s # stk)) depth count seen"
            by (rule walk_member_Token)
          with True 3 w rest show ?thesis
            using walk_member_iff [OF val obj u, of ObjectKey s stk depth count seen e count']
            by (simp add: obj_tail_def Cons)
        next
          case False
          have "Token ?d = None"
            using 3 False rest
            by (subst Token.simps) (simp add: Cons open_delim_def scalar_token_def)
          with 3 False rest w show ?thesis by (simp add: walk_member_def obj_tail_def Cons)
        qed
      qed
    qed
  qed
qed

lemma walk_specs: "walk_value_spec n \<and> walk_array_spec n \<and> walk_object_spec n"
proof (induction n)
  case 0
  show ?case by (simp add: walk_value_spec_def walk_array_spec_def walk_object_spec_def)
next
  case (Suc n)
  then show ?case using walk_value_step walk_array_step walk_object_step by blast
qed
section \<open>The fuel is enough\<close>

lemma walk_consumes:
  "(walkJSON n d depth count = Inr (e, c) \<longrightarrow> length (d_inp e) < length (d_inp d)) \<and>
   (walk_object n d' depth count seen = Inr (e', c') \<longrightarrow> length (d_inp e') < length (d_inp d')) \<and>
   (walk_array n d'' depth count = Inr (e'', c'') \<longrightarrow> length (d_inp e'') < length (d_inp d''))"
proof (induction n arbitrary: d d' d'' depth count seen e c e' c' e'' c'')
  case (Suc n)
  note val = Suc.IH [THEN conjunct1, rule_format]
    and obj = Suc.IH [THEN conjunct2, THEN conjunct1, rule_format]
    and arr = Suc.IH [THEN conjunct2, THEN conjunct2, rule_format]
  have "length (d_inp e) < length (d_inp d)" if "walkJSON (Suc n) d depth count = Inr (e, c)"
    using that
    by (auto simp: walkJSON.simps(2) split: if_splits option.splits token.splits
        dest!: Token_less obj arr)
  moreover have "length (d_inp e') < length (d_inp d')" if "walk_object (Suc n) d' depth count seen = Inr (e', c')"
    using that
    by (auto simp: walk_object.simps(2) and_then_eq_Inr split: if_splits option.splits token.splits
        dest!: Token_less obj val)
  moreover have "length (d_inp e'') < length (d_inp d'')" if "walk_array (Suc n) d'' depth count = Inr (e'', c'')"
    using that
    by (auto simp: walk_array.simps(2) and_then_eq_Inr split: if_splits option.splits token.splits
        dest!: Token_less arr val)
  ultimately show ?case by blast
qed simp

lemmas walkJSON_consumes = walk_consumes [THEN conjunct1, rule_format]

lemma More_nonempty: "More d \<Longrightarrow> 0 < length (d_inp d)"
  by (auto simp: More_def skip_ws_def)

lemma and_then_eq_Inl: "and_then m f = Inl x \<longleftrightarrow> m = Inl x \<or> (\<exists>y. m = Inr y \<and> f y = Inl x)"
  by (cases m) auto

lemma walk_fuel:
  "(2 * length (d_inp d) + 1 \<le> n \<longrightarrow> walkJSON n d depth count \<noteq> Inl (ParseErr FuelExhausted)) \<and>
   (2 * length (d_inp d') + 2 \<le> n \<longrightarrow> walk_object n d' depth count seen \<noteq> Inl (ParseErr FuelExhausted)) \<and>
   (2 * length (d_inp d'') + 2 \<le> n \<longrightarrow> walk_array n d'' depth count \<noteq> Inl (ParseErr FuelExhausted))"
proof (induction n arbitrary: d d' d'' depth count seen)
  case (Suc n)
  note val = Suc.IH [THEN conjunct1, rule_format]
    and obj = Suc.IH [THEN conjunct2, THEN conjunct1, rule_format]
    and arr = Suc.IH [THEN conjunct2, THEN conjunct2, rule_format]
  have "walkJSON (Suc n) d depth count \<noteq> Inl (ParseErr FuelExhausted)"
    if n: "2 * length (d_inp d) + 1 \<le> Suc n"
  proof -
    have 1: "2 * length (d_inp e) + 2 \<le> n" if "Token d = Some (k, e)" for k e
      using Token_less [OF that] n by simp
    show ?thesis
      by (auto simp: walkJSON.simps(2) split: option.splits token.splits dest: obj [OF 1] arr [OF 1])
  qed
  moreover have "walk_object (Suc n) d' depth count seen \<noteq> Inl (ParseErr FuelExhausted)"
    if n: "2 * length (d_inp d') + 2 \<le> Suc n"
  proof -
    have 1: "2 * length (d_inp e) + 1 \<le> n" if "Token d' = Some (k, e)" for k e
      using Token_less [OF that] n by simp
    have 2: "2 * length (d_inp f) + 2 \<le> n"
      if "Token d' = Some (k, e)" "walkJSON n e (Suc depth) count = Inr (f, c)" for k e f c
      using Token_less [OF that(1)] walkJSON_consumes [OF that(2)] n by simp
    show ?thesis
      by (auto simp: walk_object.simps(2) and_then_eq_Inl split: option.splits token.splits
          dest: val [OF 1] obj [OF 2])
  qed
  moreover have "walk_array (Suc n) d'' depth count \<noteq> Inl (ParseErr FuelExhausted)"
    if n: "2 * length (d_inp d'') + 2 \<le> Suc n"
  proof -
    have 1: "2 * length (d_inp d'') + 1 \<le> n" using n by simp
    have 2: "2 * length (d_inp f) + 2 \<le> n"
      if "walkJSON n d'' (Suc depth) count = Inr (f, c)" for f c
      using walkJSON_consumes [OF that] n by simp
    show ?thesis
      by (auto simp: walk_array.simps(2) and_then_eq_Inl val [OF 1] split: option.splits token.splits
          dest: arr [OF 2])
  qed
  ultimately show ?case by blast
qed simp

section \<open>What the strict decoder accepts\<close>

lemma walkJSON_ok_iff:
  "walkJSON (2 * length raw + 1) (NewDecoder raw) 0 0 = Inr (d, count) \<longleftrightarrow>
   (\<exists>j rest. parse_json raw = Some (j, rest) \<and> shape_ok j \<and> count = nvals j \<and>
      d = dec_at rest TopValue [])"
  using walk_specs [THEN conjunct1, unfolded walk_value_spec_def, rule_format, of raw "2 * length raw + 1" TopValue "[]" 0 0]
  by (auto simp: NewDecoder_def shape_ok_def)

lemma requireEOF_ok_iff [simp]: "requireEOF rest = Inr u \<longleftrightarrow> skip_ws rest = []"
  by (auto simp: requireEOF_def split: option.splits)

lemma validateJSONShape_ok_iff:
  "validateJSONShape raw = Inr u \<longleftrightarrow>
   (\<exists>j rest. parse_json raw = Some (j, rest) \<and> skip_ws rest = [] \<and> shape_ok j)"
  by (auto simp: validateJSONShape_def and_then_eq_Inr walkJSON_ok_iff [simplified])

lemma decodeStrict_ok_iff:
  "decodeStrict dec raw dst limit = Inr v \<longleftrightarrow>
   raw \<noteq> [] \<and> length raw \<le> limit \<and>
   (\<exists>j rest. parse_json raw = Some (j, rest) \<and> skip_ws rest = [] \<and> shape_ok j \<and> dec j dst = Some v)"
  by (auto simp: decodeStrict_def and_then_eq_Inr validateJSONShape_ok_iff split: option.splits)

lemma skip_ws_Nil [simp]: "skip_ws [] = []"
  by (simp add: skip_ws_def)

text \<open>A document written by \<open>canonical\<close>, within the limits, decodes to the normal form.\<close>

context codec
begin

lemma decodeStrict_canonical:
  assumes "ok x" "canonical (enc x) = Inr raw" "length raw \<le> limit" "shape_ok (canon (enc x))"
  shows "decodeStrict dec raw zero limit = Inr (norm x)"
proof -
  have p: "parse_json raw = Some (canon (enc x), [])"
    using parse_canonical [OF assms(1,2), of "[]"] by simp
  moreover have "raw \<noteq> []" using p by (auto simp: parse_json_Nil)
  ultimately show ?thesis using assms by (simp add: decodeStrict_ok_iff dec_canon)
qed

text \<open>A document in canonical form decodes only to the value it was written from.\<close>

lemma decodeStrict_canonical_unique:
  assumes "ok x" "canonical (enc x) = Inr raw" "decodeStrict dec raw zero limit = Inr y"
  shows "y = norm x \<and> shape_ok (canon (enc x)) \<and> length raw \<le> limit"
  using assms parse_canonical [OF assms(1,2), of "[]"] by (auto simp: decodeStrict_ok_iff dec_canon)

end

lemma decodePolicy_ok_iff:
  "decodePolicy raw = Inr policy \<longleftrightarrow>
   decodeStrict dec_policy raw zero_policy maxDocumentBytes = Inr policy \<and>
   po_SchemaVersion policy = ''0.1'' \<and> po_IncompleteDecision policy \<in> {''REVIEW'', ''REJECT''} \<and>
   po_ExpectedProvider policy \<noteq> [] \<and> elems (po_AllowedBuilderIDs policy) \<noteq> [] \<and>
   elems (po_AllowedArtifactProducers policy) \<noteq> [] \<and> elems (po_AllowedRepositories policy) \<noteq> []"
  by (auto simp: decodePolicy_def and_then_eq_Inr)

lemma decodeStatement_ok_iff:
  "decodeStatement raw = Inr st \<longleftrightarrow>
   decodeStrict dec_statement raw zero_statement maxDocumentBytes = Inr st \<and>
   st_Type st = StatementType \<and> elems (st_Subject st) \<noteq> []"
  by (auto simp: decodeStatement_def and_then_eq_Inr)

end
