(* ===== verification/Hash_Chain.thy ===== *)
theory Hash_Chain
  imports Canon
begin

text \<open>
  The interface of a hash-chained log: an entry carries the hash of the entry before it, its own
  hash is the digest of its material, and material and hash together determine the entry. The
  lemmas show what this promises with SHA-256 as it is, without assuming that collisions do not
  exist: two logs that end in the same hash are equal, or the logs themselves exhibit two
  different materials with the same digest.
\<close>

locale hash_chain =
  fixes good :: "'e \<Rightarrow> bool"
    and prev :: "'e \<Rightarrow> string"
    and own :: "'e \<Rightarrow> string"
    and material :: "'e \<Rightarrow> bytes"
    and position :: "'e \<Rightarrow> nat"
  assumes own_digest: "good e \<Longrightarrow> own e = ''sha256:'' @ Digest (material e)"
    and material_inj: "good e \<Longrightarrow> good e' \<Longrightarrow> material e = material e' \<Longrightarrow> own e = own e' \<Longrightarrow> e = e'"
begin

fun linked :: "string \<Rightarrow> nat \<Rightarrow> 'e list \<Rightarrow> bool" where
  "linked p i [] \<longleftrightarrow> True"
| "linked p i (e # es) \<longleftrightarrow> good e \<and> prev e = p \<and> position e = i \<and> linked (own e) (Suc i) es"

definition end_hash :: "string \<Rightarrow> 'e list \<Rightarrow> string" where
  "end_hash p es = (if es = [] then p else own (last es))"

lemma end_hash_simps [simp]:
  "end_hash p [] = p" "end_hash p (e # es) = end_hash (own e) es" "end_hash p (es @ [e]) = own e"
  by (auto simp: end_hash_def)

lemma linked_append: "linked p i (xs @ ys) \<longleftrightarrow> linked p i xs \<and> linked (end_hash p xs) (i + length xs) ys"
  by (induction xs arbitrary: p i) auto

lemma linked_snoc:
  "linked p i (xs @ [x]) \<longleftrightarrow> linked p i xs \<and> good x \<and> prev x = end_hash p xs \<and> position x = i + length xs"
  by (simp add: linked_append)

lemma linked_good: "linked p i xs \<Longrightarrow> x \<in> set xs \<Longrightarrow> good x"
  by (induction xs arbitrary: p i) auto

lemma linked_nth:
  "linked p i xs \<Longrightarrow> k < length xs \<Longrightarrow>
   prev (xs ! k) = (if k = 0 then p else own (xs ! (k - 1))) \<and> position (xs ! k) = i + k"
proof (induction xs arbitrary: p i k)
  case (Cons x xs)
  then show ?case by (cases k) (auto simp: nth_Cons split: nat.splits)
qed simp

text \<open>Two entries with different material and the same digest.\<close>

definition collision :: "'e list \<Rightarrow> 'e list \<Rightarrow> bool" where
  "collision xs ys \<longleftrightarrow>
     (\<exists>x \<in> set xs. \<exists>y \<in> set ys. material x \<noteq> material y \<and> Digest (material x) = Digest (material y))"

lemma same_own:
  assumes "good x" "good y" "own x = own y"
  shows "x = y \<or> material x \<noteq> material y \<and> Digest (material x) = Digest (material y)"
  using assms own_digest material_inj by (metis same_append_eq)

theorem same_end:
  "linked p i xs \<Longrightarrow> linked p i ys \<Longrightarrow> xs \<noteq> [] \<Longrightarrow> ys \<noteq> [] \<Longrightarrow> own (last xs) = own (last ys) \<Longrightarrow>
   xs = ys \<or> collision xs ys"
proof (induction xs arbitrary: ys rule: rev_induct)
  case (snoc x xs)
  obtain ys' y where ys: "ys = ys' @ [y]" using snoc.prems(4) by (cases ys rule: rev_cases) auto
  have x: "linked p i xs" "good x" "prev x = end_hash p xs" "position x = i + length xs"
    and y: "linked p i ys'" "good y" "prev y = end_hash p ys'" "position y = i + length ys'"
    using snoc.prems by (simp_all add: linked_snoc ys)
  show ?case
  proof (cases "x = y")
    case False
    have "material x \<noteq> material y \<and> Digest (material x) = Digest (material y)"
      using same_own [OF x(2) y(2)] snoc.prems(5) False by (simp add: ys)
    then show ?thesis by (auto simp: collision_def ys)
  next
    case True
    then have len: "length xs = length ys'" and "end_hash p xs = end_hash p ys'"
      using x y by simp_all
    show ?thesis
    proof (cases "xs = []")
      case True
      with len \<open>x = y\<close> show ?thesis by (simp add: ys)
    next
      case False
      with len have "ys' \<noteq> []" by auto
      with False have "own (last xs) = own (last ys')"
        using \<open>end_hash p xs = end_hash p ys'\<close> by (simp add: end_hash_def)
      from snoc.IH [OF x(1) y(1) False \<open>ys' \<noteq> []\<close> this] \<open>x = y\<close>
      show ?thesis by (auto simp: ys collision_def)
    qed
  qed
qed simp

text \<open>A log that was extended: the longer one begins with the shorter one.\<close>

lemma same_hash_prefix:
  assumes "linked p i xs" "linked p i ys" "xs \<noteq> []" "k < length ys" "own (last xs) = own (ys ! k)"
  shows "xs = take (Suc k) ys \<or> collision xs ys"
proof -
  have "linked p i (take (Suc k) ys)"
    using assms(2) linked_append [of p i "take (Suc k) ys" "drop (Suc k) ys"] by simp
  moreover have "last (take (Suc k) ys) = ys ! k" "take (Suc k) ys \<noteq> []"
    using assms(4) by (auto simp: take_Suc_conv_app_nth)
  ultimately have "xs = take (Suc k) ys \<or> collision xs (take (Suc k) ys)"
    using same_end [OF assms(1)] assms(3,5) by metis
  then show ?thesis unfolding collision_def by (meson in_set_takeD)
qed

end

end
