(* ===== verification/Evidence.thy ===== *)
theory Evidence
  imports Parse Hash_Chain
begin

text \<open>
  \<open>internal/rpf/evidence.go\<close> without the graph: the line scanner, \<open>ParseEventStream\<close>, the
  validation of one event, its digest, the verification of the hash chain, and the completeness
  of a manifest. Events of an accepted stream are in normal form, so that event and line
  determine each other (\<open>ParseEventStream_iff\<close>). The locale \<open>hash_chain\<close> states what makes a log
  tamper evident; it is interpreted on events in \<open>Chain\<close>.
\<close>

section \<open>Lines\<close>

text \<open>\<open>unicode.IsSpace\<close>: the encodings of the white space runes.\<close>

definition space_runes :: "string list" where
  "space_runes =
     [[CHR 0x09], [CHR 0x0A], [CHR 0x0B], [CHR 0x0C], [CHR 0x0D], [CHR 0x20],
      [CHR 0xC2, CHR 0x85], [CHR 0xC2, CHR 0xA0], [CHR 0xE1, CHR 0x9A, CHR 0x80],
      [CHR 0xE2, CHR 0x80, CHR 0x80], [CHR 0xE2, CHR 0x80, CHR 0x81], [CHR 0xE2, CHR 0x80, CHR 0x82],
      [CHR 0xE2, CHR 0x80, CHR 0x83], [CHR 0xE2, CHR 0x80, CHR 0x84], [CHR 0xE2, CHR 0x80, CHR 0x85],
      [CHR 0xE2, CHR 0x80, CHR 0x86], [CHR 0xE2, CHR 0x80, CHR 0x87], [CHR 0xE2, CHR 0x80, CHR 0x88],
      [CHR 0xE2, CHR 0x80, CHR 0x89], [CHR 0xE2, CHR 0x80, CHR 0x8A], [CHR 0xE2, CHR 0x80, CHR 0xA8],
      [CHR 0xE2, CHR 0x80, CHR 0xA9], [CHR 0xE2, CHR 0x80, CHR 0xAF], [CHR 0xE2, CHR 0x81, CHR 0x9F],
      [CHR 0xE3, CHR 0x80, CHR 0x80]]"

function trim_start :: "string list \<Rightarrow> string \<Rightarrow> string" where
  "trim_start rs s =
     (case find (\<lambda>r. r \<noteq> [] \<and> take (length r) s = r) rs of
        None \<Rightarrow> s
      | Some r \<Rightarrow> trim_start rs (drop (length r) s))"
  by pat_completeness auto
termination
proof (relation "measure (\<lambda>(rs, s). length s)")
  fix rs s r
  assume "find (\<lambda>r. r \<noteq> [] \<and> take (length r) s = r) rs = Some r"
  then have "r \<noteq> []" "take (length r) s = r" by (auto simp: find_Some_iff)
  then show "((rs, drop (length r) s), rs, s) \<in> measure (\<lambda>(rs, s). length s)"
    by (cases s) auto
qed simp

declare trim_start.simps [simp del]

text \<open>\<open>bytes.TrimSpace\<close>.\<close>

definition TrimSpace :: "bytes \<Rightarrow> bytes" where
  "TrimSpace s = rev (trim_start (map rev space_runes) (rev (trim_start space_runes s)))"

text \<open>The piece up to the next newline, and \<open>bufio.ScanLines\<close>' \<open>dropCR\<close>.\<close>

definition line_feed :: char where "line_feed = CHR 0x0A"

definition first_line :: "bytes \<Rightarrow> bytes" where
  "first_line raw = takeWhile (\<lambda>c. c \<noteq> line_feed) raw"

definition after_line :: "bytes \<Rightarrow> bytes" where
  "after_line raw = drop (length (first_line raw) + 1) raw"

definition dropCR :: "bytes \<Rightarrow> bytes" where
  "dropCR s = (if s \<noteq> [] \<and> last s = CHR 0x0D then butlast s else s)"

section \<open>One event\<close>

definition allowedOperations :: "string list" where
  "allowedOperations =
     [''sensor_started'', ''process_exec'', ''process_exit'', ''file_open_sensitive'',
      ''file_open_output'', ''file_rename_output'', ''network_connect'', ''privilege_change'',
      ''artifact_finalized'', ''sensor_finalized'']"

definition process_incomplete :: "Process \<Rightarrow> bool" where
  "process_incomplete p \<longleftrightarrow>
     pr_ProcessKey p = [] \<or> pr_TGID p = 0 \<or> pr_StartTimeNS p = 0 \<or> pr_PIDNamespace p = 0 \<or>
     pr_MountNamespace p = 0 \<or> ex_Path (pr_Executable p) = [] \<or>
     ex_IdentityKind (pr_Executable p) = [] \<or>
     (ex_IdentityKind (pr_Executable p) \<noteq> ''path_only'' \<and> ex_Identity (pr_Executable p) = [])"

definition validateEvent :: "Event \<Rightarrow> unit result" where
  "validateEvent event =
     (let build = ev_Build event; sensor = ev_Sensor event in
      if ev_SchemaVersion event \<noteq> EventSchema then
        Inl (EventErr (UnsupportedEventSchema (ev_SchemaVersion event)))
      else if ev_EventID event = [] \<or> bs_BuildID build = [] \<or> bs_RunID build = [] then
        Inl (EventErr MissingIdentity)
      else if bs_BootID build = [] \<or> bs_CgroupID build = 0 \<or> bs_CgroupPathHash build = [] then
        Inl (EventErr IncompleteKernelScope)
      else if src_Repository (bs_Source build) = [] \<or> src_Revision (bs_Source build) = [] then
        Inl (EventErr MissingSource)
      else if ev_Sequence event = 0 \<or> ev_MonotonicNS event = 0 then
        Inl (EventErr NonPositiveSequence)
      else if ev_Operation event \<notin> set allowedOperations then
        Inl (EventErr (UnsupportedOperation (ev_Operation event)))
      else if sn_Name sensor = [] \<or> sn_Version sensor = [] \<or> sn_ConfigDigest sensor = [] then
        Inl (EventErr IncompleteSensor)
      else if ev_Operation event = ''process_exec'' \<and> ev_Process event = None then
        Inl (EventErr ExecWithoutProcess)
      else if (case ev_Process event of None \<Rightarrow> False | Some p \<Rightarrow> process_incomplete p) then
        Inl (EventErr IncompleteProcess)
      else Inr ())"

text \<open>
  \<open>integrity\<close> is the map inside \<open>body\<close>, so deleting \<open>event_hash\<close> from it changes \<open>body\<close>; here the
  shortened map is put back.
\<close>

definition eventDigest :: "Event \<Rightarrow> string result" where
  "eventDigest event =
     and_then (canonical (enc_event event)) (\<lambda>raw.
     and_then (decodeStrict (dec_map dec_any ANil) raw None maxEventBytes) (\<lambda>body.
       (case map_get (elems body) ''integrity'' of
          Some (AMap integrity) \<Rightarrow>
            and_then
              (canonical (enc_map enc_any
                (Some (map_put ''integrity'' (AMap (map_delete ''event_hash'' integrity)) (elems body)))))
              (\<lambda>canonicalBody. Inr (''sha256:'' @ Digest canonicalBody))
        | _ \<Rightarrow> Inl (EventErr MissingIntegrity))))"

section \<open>The chain\<close>

text \<open>The loop of \<open>verifyChain\<close>; \<open>index\<close> counts the events before.\<close>

fun chain_loop :: "BuildScope \<Rightarrow> Sensor \<Rightarrow> string \<Rightarrow> uint64 \<Rightarrow> nat \<Rightarrow> Event list \<Rightarrow> unit result" where
  "chain_loop buildScope sensor previous previousMonotonic index [] = Inr ()"
| "chain_loop buildScope sensor previous previousMonotonic index (event # events) =
     (let wantSequence = of_nat (index + 1) in
      if ev_Sequence event \<noteq> wantSequence then
        Inl (StreamErr (SequenceMismatch (ev_Sequence event) wantSequence))
      else if bs_BuildID (ev_Build event) \<noteq> bs_BuildID buildScope \<or>
              bs_RunID (ev_Build event) \<noteq> bs_RunID buildScope \<or> ev_Build event \<noteq> buildScope then
        Inl (StreamErr (CrossesBuild (ev_Sequence event)))
      else if ev_Sensor event \<noteq> sensor then
        Inl (StreamErr (ChangesSensor (ev_Sequence event)))
      else if ev_MonotonicNS event < previousMonotonic then
        Inl (StreamErr (ReversesTime (ev_Sequence event)))
      else if in_PreviousEventHash (ev_Integrity event) \<noteq> previous then
        Inl (StreamErr (PreviousHashMismatch (ev_Sequence event)))
      else and_then (eventDigest event) (\<lambda>actual.
        if in_EventHash (ev_Integrity event) \<noteq> actual then
          Inl (StreamErr (HashMismatch (ev_Sequence event)))
        else chain_loop buildScope sensor actual (ev_MonotonicNS event) (index + 1) events))"

text \<open>Go would panic on an empty slice; the only caller has excluded it.\<close>

definition verifyChain :: "Event list \<Rightarrow> unit result" where
  "verifyChain events =
     (case events of
        [] \<Rightarrow> Inl (StreamErr EmptyStream)
      | event # _ \<Rightarrow> chain_loop (ev_Build event) (ev_Sensor event) zeroHash 0 0 events)"

section \<open>ParseEventStream\<close>

text \<open>What is done with one line, and the loop over the lines with the events found so far.\<close>

definition parse_line :: "nat \<Rightarrow> bytes \<Rightarrow> Event result" where
  "parse_line k text =
     (let line = TrimSpace text in
      if line = [] then Inl (StreamErr BlankLine)
      else
        and_then (wrap (EventLine k) (decodeStrict dec_event line zero_event maxEventBytes)) (\<lambda>event.
        and_then (wrap (EventLine k) (validateEvent event)) (\<lambda>_.
          if canonical (enc_event event) \<noteq> Inr line then Inl (StreamErr (NotCanonical k))
          else Inr event)))"

function scan_events :: "bytes \<Rightarrow> Event list \<Rightarrow> Event list result" where
  "scan_events raw events =
     (if raw = [] then Inr events
      else if length (first_line raw) \<ge> maxEventBytes then Inl (StreamErr ScanFailed)
      else
        and_then (parse_line (length events + 1) (dropCR (first_line raw))) (\<lambda>event.
          if length (events @ [event]) > maxEvents then Inl (StreamErr TooManyEvents)
          else scan_events (after_line raw) (events @ [event])))"
  by pat_completeness auto
termination
  by (relation "measure (\<lambda>(raw, events). length raw)") (auto simp: after_line_def)

declare scan_events.simps [simp del]

definition ParseEventStream :: "bytes \<Rightarrow> Event list result" where
  "ParseEventStream raw =
     (if raw = [] \<or> length raw > maxDocumentBytes then Inl (StreamErr (StreamSize (length raw)))
      else
        and_then (scan_events raw []) (\<lambda>events.
          if events = [] then Inl (StreamErr EmptyStream)
          else and_then (verifyChain events) (\<lambda>_. Inr events)))"

section \<open>Completeness\<close>

text \<open>The sum of the five counters wraps at 64 bits, as in Go.\<close>

definition completeness :: "Manifest \<Rightarrow> string" where
  "completeness manifest =
     (let loss = mf_Loss manifest in
      if \<not> lc_Started (mf_Lifecycle manifest) \<or> \<not> lc_Finalized (mf_Lifecycle manifest) \<or>
         ls_CounterReadError loss then ''unknown''
      else if ls_KernelReserve loss + ls_KernelCorrelation loss + ls_Decode loss + ls_Queue loss +
              ls_Persistence loss > 0 then ''incomplete''
      else ''complete'')"
section \<open>The digest of an event\<close>

text \<open>The members of an event but the last, and the body that is hashed: no \<open>event_hash\<close>.\<close>

definition event_fields :: "Event \<Rightarrow> (string \<times> json) list" where
  "event_fields e =
     [(''schema_version'', JStr (ev_SchemaVersion e)),
      (''event_id'', JStr (ev_EventID e)),
      (''sequence'', enc_uint (ev_Sequence e)),
      (''observed_at'', JStr (ev_ObservedAt e)),
      (''monotonic_ns'', enc_uint (ev_MonotonicNS e)),
      (''build'', enc_build (ev_Build e)),
      (''process'', enc_ptr enc_process (ev_Process e)),
      (''operation'', JStr (ev_Operation e)),
      (''resource'', enc_map enc_any (ev_Resource e)),
      (''outcome'', enc_outcome (ev_Outcome e)),
      (''sensor'', enc_sensor (ev_Sensor e))]"

definition unhashed :: "Event \<Rightarrow> json" where
  "unhashed e = JObj (event_fields e @
     [(''integrity'', JObj [(''previous_event_hash'', JStr (in_PreviousEventHash (ev_Integrity e)))])])"

definition hash_material :: "Event \<Rightarrow> bytes" where
  "hash_material e = marshal (canon (unhashed e))"

definition event_fits :: "Event \<Rightarrow> bool" where
  "event_fits e \<longleftrightarrow> length (marshal (canon (enc_event e))) \<le> maxEventBytes \<and> shape_ok (canon (enc_event e))"

lemma numbers_event_iff [simp]: "numbers_ok (enc_event e) = event_ok e"
  by (auto simp: event_ok_def enc_event_def)

lemma enc_event_fields: "enc_event e = JObj (event_fields e @ [(''integrity'', enc_integrity (ev_Integrity e))])"
  by (simp add: enc_event_def event_fields_def)

lemma numbers_unhashed [simp]: "numbers_ok (unhashed e) = event_ok e"
  by (auto simp: unhashed_def event_fields_def event_ok_def)

definition fields_canon :: "Event \<Rightarrow> json gomap" where
  "fields_canon e = map_lit (map (\<lambda>(k, v). (sanitize k, canon v)) (event_fields e))"

lemma fields_canon_wf [simp]: "map_wf (fields_canon e)"
  by (simp add: fields_canon_def)

lemma canon_event: "canon (enc_event e) = JObj (map_put ''integrity'' (canon (enc_integrity (ev_Integrity e))) (fields_canon e))"
  by (simp add: enc_event_fields canon_JObj fields_canon_def map_lit_snoc sanitize_ascii)

lemma canon_unhashed:
  "canon (unhashed e) = JObj (map_put ''integrity''
     (JObj [(''previous_event_hash'', JStr (sanitize (in_PreviousEventHash (ev_Integrity e))))]) (fields_canon e))"
  by (simp add: unhashed_def codec_simps fields_canon_def map_lit_snoc [unfolded map_lit_def])

lemma normal_fields: "event_ok e \<Longrightarrow> normal (JObj (fields_canon e))"
proof -
  assume "event_ok e"
  then have "numbers_ok (JObj (event_fields e))" by (simp add: event_fields_def event_ok_def)
  then have "normal (canon (JObj (event_fields e)))" by (rule normal_canon)
  then show ?thesis by (simp add: canon_JObj fields_canon_def)
qed

lemma canon_integrity: "canon (enc_integrity i) =
  JObj [(''event_hash'', JStr (sanitize (in_EventHash i))),
        (''previous_event_hash'', JStr (sanitize (in_PreviousEventHash i)))]"
  by (simp add: codec_simps enc_integrity_def)

text \<open>Decoding a normal object into \<open>map[string]any\<close>, and encoding it again.\<close>

lemma dec_any_map_normal:
  assumes "map_wf ms"
  shows "dec_map dec_any ANil (JObj ms) None = Some (Some (map_vals any_of ms))"
proof -
  have "dec_entries dec_any ANil (map_vals (\<lambda>j. j) ms) [] = Some (map_lit (map_vals any_of ms))"
    unfolding map_lit_def by (rule dec_entries_map) (simp add: dec_any_def)
  moreover have "map_vals (\<lambda>j. j) ms = ms" by (auto simp: map_vals_def)
  ultimately show ?thesis using assms by (simp add: dec_map_def map_lit_wf)
qed

lemma map_vals_delete: "map_vals f (map_delete k m) = map_delete k (map_vals f m)"
  by (induction k m rule: map_delete.induct) auto

lemma enc_any_of_normal_map:
  "normal (JObj ms) \<Longrightarrow> map_vals (\<lambda>v. enc_any (any_of v)) ms = ms"
  unfolding map_vals_def
  by (rule map_idI) (force simp: normal_def intro!: any_of_enc_normal)

lemma eventDigest_eq:
  "eventDigest e = Inr d \<longleftrightarrow> event_ok e \<and> event_fits e \<and> d = ''sha256:'' @ Digest (hash_material e)"
proof (cases "event_ok e")
  case False
  then show ?thesis using canonical_ok_iff [of "enc_event e"] by (auto simp: eventDigest_def and_then_eq_Inr)
next
  case ok: True
  let ?ev = "fields_canon e"
  let ?i = "canon (enc_integrity (ev_Integrity e))"
  let ?ms = "map_put ''integrity'' ?i ?ev"
  let ?raw = "marshal (canon (enc_event e))"
  have n: "normal (JObj ?ms)" using ok by (simp flip: canon_event)
  have wf: "map_wf ?ms" by (simp add: gm.wf_put)
  have raw: "canonical (enc_event e) = Inr ?raw" using ok by (simp add: canonical_eq)
  have parse: "parse_json ?raw = Some (JObj ?ms, [])"
    using parse_normal [OF n, of "[]"] by (simp add: canon_event)
  have strict: "decodeStrict (dec_map dec_any ANil) ?raw None maxEventBytes = Inr body \<longleftrightarrow>
      event_fits e \<and> body = Some (map_vals any_of ?ms)" for body
    using parse by (auto simp: decodeStrict_ok_iff parse_json_Nil event_fits_def canon_event dec_any_map_normal [OF wf])
  have get: "map_get (map_vals any_of ?ms) ''integrity'' = Some (any_of ?i)"
    by (simp add: map_get_vals map_get_put)
  have i: "any_of ?i = AMap [(''event_hash'', AString (sanitize (in_EventHash (ev_Integrity e)))),
      (''previous_event_hash'', AString (sanitize (in_PreviousEventHash (ev_Integrity e))))]"
    by (simp add: canon_integrity map_lit_def)
  let ?body = "map_put ''integrity'' (AMap [(''previous_event_hash'',
      AString (sanitize (in_PreviousEventHash (ev_Integrity e))))]) (map_vals any_of ?ms)"
  have "enc_map enc_any (Some ?body) = canon (unhashed e)"
    using enc_any_of_normal_map [OF normal_fields [OF ok]]
    by (simp add: enc_map_def map_vals_put canon_unhashed gm.put_overwrite)
  then have body: "canonical (enc_map enc_any (Some ?body)) = Inr (hash_material e)"
    using ok by (simp add: canonical_normal hash_material_def)
  show ?thesis
    using ok by (auto simp: eventDigest_def and_then_eq_Inr raw strict get i body)
qed

text \<open>
  Event and hash are recovered from the material: two events with the same material and the same
  \<open>event_hash\<close> are the same up to their normal form.
\<close>

lemma fields_canon_no_integrity: "map_get (fields_canon e) ''integrity'' = None"
  by (simp add: fields_canon_def map_get_lit event_fields_def sanitize_ascii)

lemma material_inject:
  assumes "event_ok e" "event_ok e'" "hash_material e = hash_material e'"
    "in_EventHash (ev_Integrity e) = in_EventHash (ev_Integrity e')"
  shows "canon (enc_event e) = canon (enc_event e')"
proof -
  have "canon (unhashed e) = canon (unhashed e')"
    using assms by (simp add: hash_material_def marshal_inject)
  then have eq: "map_put ''integrity'' (JObj [(''previous_event_hash'', JStr (sanitize (in_PreviousEventHash (ev_Integrity e))))]) (fields_canon e)
    = map_put ''integrity'' (JObj [(''previous_event_hash'', JStr (sanitize (in_PreviousEventHash (ev_Integrity e'))))]) (fields_canon e')"
    (is "map_put _ ?p ?f = map_put _ ?p' ?f'") by (simp add: canon_unhashed)
  have "?f = ?f'"
    using arg_cong [OF eq, of "map_delete ''integrity''"]
    by (simp add: gm.delete_put fields_canon_no_integrity)
  moreover have "?p = ?p'" using arg_cong [OF eq, of "\<lambda>m. map_get m ''integrity''"] by (simp add: map_get_put)
  ultimately show ?thesis using assms(4) by (simp add: canon_event canon_integrity)
qed
section \<open>Events as a hash chain\<close>

text \<open>An event in normal form whose \<open>event_hash\<close> is its digest.\<close>

definition sealed :: "Event \<Rightarrow> bool" where
  "sealed e \<longleftrightarrow> norm_event e = e \<and> eventDigest e = Inr (in_EventHash (ev_Integrity e))"

lemma sealed_ok: "sealed e \<Longrightarrow> event_ok e"
  by (simp add: sealed_def eventDigest_eq)

interpretation log: hash_chain sealed
    "\<lambda>e. in_PreviousEventHash (ev_Integrity e)" "\<lambda>e. in_EventHash (ev_Integrity e)"
    hash_material "\<lambda>e. unat (ev_Sequence e)"
proof
  fix e
  show "sealed e \<Longrightarrow> in_EventHash (ev_Integrity e) = ''sha256:'' @ Digest (hash_material e)"
    by (simp add: sealed_def eventDigest_eq)
next
  fix e e'
  assume s: "sealed e" "sealed e'" and m: "hash_material e = hash_material e'"
    and h: "in_EventHash (ev_Integrity e) = in_EventHash (ev_Integrity e')"
  then have ok: "event_ok e" "event_ok e'" by (simp_all add: sealed_ok)
  then have "canonical (enc_event e) = canonical (enc_event e')"
    by (simp add: event_codec.canonical_enc material_inject [OF ok m h])
  then have "norm_event e = norm_event e'" using event_codec.canonical_norm_inject [OF ok] by blast
  then show "e = e'" using s by (simp add: sealed_def)
qed

lemma eq_of_nat_iff: "k < 2 ^ 64 \<Longrightarrow> (w :: uint64) = of_nat k \<longleftrightarrow> unat w = k"
proof
  assume "k < 2 ^ 64" "w = of_nat k"
  then show "unat w = k" by (simp add: unsigned_of_nat take_bit_nat_eq_self)
next
  assume "unat w = k"
  then show "w = of_nat k" by auto
qed

lemma chain_loop_ok_iff:
  "index + length events < 2 ^ 64 \<Longrightarrow> \<forall>e \<in> set events. norm_event e = e \<Longrightarrow>
   chain_loop build sensor previous since index events = Inr () \<longleftrightarrow>
   log.linked previous (Suc index) events \<and>
   (\<forall>e \<in> set events. ev_Build e = build \<and> ev_Sensor e = sensor) \<and>
   sorted (since # map ev_MonotonicNS events)"
proof (induction events arbitrary: previous since index)
  case (Cons e events)
  have seq: "ev_Sequence e = of_nat (index + 1) \<longleftrightarrow> unat (ev_Sequence e) = Suc index"
    using Cons.prems(1) eq_of_nat_iff [of "Suc index" "ev_Sequence e"] by simp
  have IH: "chain_loop build sensor (in_EventHash (ev_Integrity e)) (ev_MonotonicNS e) (index + 1) events = Inr () \<longleftrightarrow>
     log.linked (in_EventHash (ev_Integrity e)) (Suc (index + 1)) events \<and>
     (\<forall>e \<in> set events. ev_Build e = build \<and> ev_Sensor e = sensor) \<and>
     sorted (ev_MonotonicNS e # map ev_MonotonicNS events)"
    using Cons.prems by (intro Cons.IH) auto
  have "chain_loop build sensor previous since index (e # events) = Inr () \<longleftrightarrow>
    ev_Sequence e = of_nat (index + 1) \<and> ev_Build e = build \<and> ev_Sensor e = sensor \<and>
    since \<le> ev_MonotonicNS e \<and> in_PreviousEventHash (ev_Integrity e) = previous \<and>
    eventDigest e = Inr (in_EventHash (ev_Integrity e)) \<and>
    chain_loop build sensor (in_EventHash (ev_Integrity e)) (ev_MonotonicNS e) (index + 1) events = Inr ()"
    by (auto simp: Let_def and_then_eq_Inr)
  also have "\<dots> \<longleftrightarrow> log.linked previous (Suc index) (e # events) \<and>
    (\<forall>e \<in> set (e # events). ev_Build e = build \<and> ev_Sensor e = sensor) \<and>
    sorted (since # map ev_MonotonicNS (e # events))"
    unfolding seq IH using Cons.prems(2) by (auto simp: sealed_def)
  finally show ?case .
qed simp

definition chain_ok :: "Event list \<Rightarrow> bool" where
  "chain_ok events \<longleftrightarrow> events \<noteq> [] \<and> log.linked zeroHash 1 events \<and>
     (\<forall>e \<in> set events. ev_Build e = ev_Build (hd events) \<and> ev_Sensor e = ev_Sensor (hd events)) \<and>
     sorted (map ev_MonotonicNS events)"

lemma verifyChain_ok_iff:
  "length events < 2 ^ 64 \<Longrightarrow> \<forall>e \<in> set events. norm_event e = e \<Longrightarrow>
   verifyChain events = Inr () \<longleftrightarrow> chain_ok events"
  using chain_loop_ok_iff [of 0 events]
  by (cases events) (auto simp: verifyChain_def chain_ok_def simp del: chain_loop.simps)

section \<open>What ParseEventStream accepts\<close>

definition valid_event :: "Event \<Rightarrow> bool" where
  "valid_event e \<longleftrightarrow> validateEvent e = Inr () \<and> norm_event e = e \<and> event_ok e \<and> event_fits e"

definition line :: "Event \<Rightarrow> bytes" where
  "line e = marshal (canon (enc_event e))"

lemma marshal_obj: "\<exists>t. marshal (canon (enc_event e)) = open_brace # t @ [close_brace]"
  by (simp add: canon_event)

lemma canonical_line: "canonical (enc_event e) = Inr t \<longleftrightarrow> event_ok e \<and> t = line e"
  by (simp add: canonical_ok_iff line_def)

lemma parse_line_ok_iff: "parse_line k text = Inr e \<longleftrightarrow> valid_event e \<and> TrimSpace text = line e"
proof
  assume "parse_line k text = Inr e"
  then have d: "decodeStrict dec_event (TrimSpace text) zero_event maxEventBytes = Inr e"
    and v: "validateEvent e = Inr ()" and c: "canonical (enc_event e) = Inr (TrimSpace text)"
    by (auto simp: parse_line_def Let_def and_then_eq_Inr split: if_splits)
  from c have ok: "event_ok e" "TrimSpace text = line e" by (simp_all add: canonical_line)
  with event_codec.decodeStrict_canonical_unique [OF ok(1) c d] v
  show "valid_event e \<and> TrimSpace text = line e" by (simp add: valid_event_def event_fits_def line_def)
next
  assume *: "valid_event e \<and> TrimSpace text = line e"
  then have c: "canonical (enc_event e) = Inr (TrimSpace text)" by (simp add: canonical_line valid_event_def)
  have "decodeStrict dec_event (TrimSpace text) zero_event maxEventBytes = Inr (norm_event e)"
    by (rule event_codec.decodeStrict_canonical [OF _ c]) (use * in \<open>simp_all add: valid_event_def event_fits_def line_def\<close>)
  moreover have "line e \<noteq> []" using marshal_obj [of e] by (auto simp: line_def)
  ultimately show "parse_line k text = Inr e"
    using * c by (simp add: parse_line_def valid_event_def)
qed

function raw_lines :: "bytes \<Rightarrow> bytes list" where
  "raw_lines raw = (if raw = [] then [] else first_line raw # raw_lines (after_line raw))"
  by pat_completeness auto
termination
  by (relation "measure length") (auto simp: after_line_def)

declare raw_lines.simps [simp del]

definition line_of :: "bytes \<Rightarrow> Event \<Rightarrow> bool" where
  "line_of text e \<longleftrightarrow> length text < maxEventBytes \<and> valid_event e \<and> TrimSpace (dropCR text) = line e"

lemma scan_events_ok_iff:
  "length acc \<le> maxEvents \<Longrightarrow> scan_events raw acc = Inr es \<longleftrightarrow>
   (\<exists>new. es = acc @ new \<and> list_all2 line_of (raw_lines raw) new \<and> length es \<le> maxEvents)"
proof (induction raw acc rule: scan_events.induct)
  case (1 raw acc)
  show ?case
  proof (cases "raw = []")
    case True
    with "1.prems" show ?thesis by (auto simp: scan_events.simps raw_lines.simps)
  next
    case False
    have lines: "raw_lines raw = first_line raw # raw_lines (after_line raw)"
      using False by (simp add: raw_lines.simps [of raw])
    have "scan_events raw acc = Inr es \<longleftrightarrow> (\<exists>e. line_of (first_line raw) e \<and>
        length (acc @ [e]) \<le> maxEvents \<and> scan_events (after_line raw) (acc @ [e]) = Inr es)"
      using False by (subst scan_events.simps) (auto simp: and_then_eq_Inr parse_line_ok_iff line_of_def)
    also have "\<dots> \<longleftrightarrow> (\<exists>e. line_of (first_line raw) e \<and> length (acc @ [e]) \<le> maxEvents \<and>
        (\<exists>new. es = (acc @ [e]) @ new \<and> list_all2 line_of (raw_lines (after_line raw)) new \<and> length es \<le> maxEvents))"
    proof (intro ex_cong conj_cong refl)
      fix e
      assume e: "line_of (first_line raw) e" "length (acc @ [e]) \<le> maxEvents"
      then have pl: "parse_line (length acc + 1) (dropCR (first_line raw)) = Inr e"
        and "\<not> maxEventBytes \<le> length (first_line raw)" "\<not> maxEvents < length (acc @ [e])"
        by (simp_all add: line_of_def parse_line_ok_iff)
      then show "scan_events (after_line raw) (acc @ [e]) = Inr es \<longleftrightarrow>
          (\<exists>new. es = (acc @ [e]) @ new \<and> list_all2 line_of (raw_lines (after_line raw)) new \<and> length es \<le> maxEvents)"
        using "1.IH" [OF False _ pl] e by simp
    qed
    also have "\<dots> \<longleftrightarrow> (\<exists>new. es = acc @ new \<and> list_all2 line_of (raw_lines raw) new \<and> length es \<le> maxEvents)"
      unfolding lines list_all2_Cons1 by auto
    finally show ?thesis .
  qed
qed

lemma raw_lines_eq_Nil [simp]: "raw_lines raw = [] \<longleftrightarrow> raw = []"
  by (subst raw_lines.simps) simp

text \<open>Accepted: each line is, up to white space around it, the canonical text of a valid event.\<close>

lemma ParseEventStream_iff:
  "ParseEventStream raw = Inr es \<longleftrightarrow>
   raw \<noteq> [] \<and> length raw \<le> maxDocumentBytes \<and> list_all2 line_of (raw_lines raw) es \<and>
   length es \<le> maxEvents \<and> chain_ok es"
proof -
  have "verifyChain es = Inr () \<longleftrightarrow> chain_ok es"
    if "list_all2 line_of ls es" "length es \<le> maxEvents" for ls
  proof (rule verifyChain_ok_iff)
    show "length es < 2 ^ 64" using that(2) by (simp add: maxEvents_def)
    show "\<forall>e \<in> set es. norm_event e = e"
      using that(1) by (auto simp: list_all2_conv_all_nth line_of_def valid_event_def in_set_conv_nth)
  qed
  moreover have "ParseEventStream raw = Inr es \<longleftrightarrow> raw \<noteq> [] \<and> length raw \<le> maxDocumentBytes \<and>
      scan_events raw [] = Inr es \<and> es \<noteq> [] \<and> verifyChain es = Inr ()"
    by (auto simp: ParseEventStream_def and_then_eq_Inr)
  moreover have "scan_events raw [] = Inr es \<longleftrightarrow> list_all2 line_of (raw_lines raw) es \<and> length es \<le> maxEvents"
    by (subst scan_events_ok_iff) simp_all
  moreover have "es \<noteq> []" if "chain_ok es" using that by (simp add: chain_ok_def)
  ultimately show ?thesis by blast
qed
section \<open>Streams written line by line\<close>

definition render :: "Event list \<Rightarrow> bytes" where
  "render es = concat (map (\<lambda>e. line e @ [line_feed]) es)"

lemma trim_start_other:
  "s \<noteq> [] \<Longrightarrow> \<forall>r \<in> set rs. r \<noteq> [] \<longrightarrow> hd r \<noteq> hd s \<Longrightarrow> trim_start rs s = s"
proof -
  assume s: "s \<noteq> []" and rs: "\<forall>r \<in> set rs. r \<noteq> [] \<longrightarrow> hd r \<noteq> hd s"
  have "find (\<lambda>r. r \<noteq> [] \<and> take (length r) s = r) rs = None"
    unfolding find_None_iff using s rs by (metis hd_take length_greater_0_conv)
  then show ?thesis by (subst trim_start.simps) simp
qed

lemma space_runes_ends:
  "\<forall>r \<in> set space_runes. hd r \<noteq> open_brace" "\<forall>r \<in> set (map rev space_runes). hd r \<noteq> close_brace"
  by (simp_all add: space_runes_def open_brace_def close_brace_def)

lemma TrimSpace_line: "TrimSpace (line e) = line e"
proof -
  obtain t where t: "line e = open_brace # t @ [close_brace]" using marshal_obj by (auto simp: line_def)
  have "trim_start space_runes (line e) = line e"
    by (rule trim_start_other) (use space_runes_ends(1) in \<open>auto simp: t\<close>)
  moreover have "trim_start (map rev space_runes) (rev (line e)) = rev (line e)"
    by (rule trim_start_other) (use space_runes_ends(2) in \<open>auto simp: t\<close>)
  ultimately show ?thesis by (simp add: TrimSpace_def)
qed

lemma dropCR_line: "dropCR (line e) = line e"
  using marshal_obj [of e] by (auto simp: dropCR_def line_def close_brace_def)

lemma line_nonempty [simp]: "line e \<noteq> []"
  using marshal_obj [of e] by (auto simp: line_def)

lemma line_no_feed: "event_ok e \<Longrightarrow> line_feed \<notin> set (line e)"
proof -
  assume "event_ok e"
  then have "printable (line e)"
    unfolding line_def by (intro printable_marshal) (simp add: numbers_ok_canon)
  then show ?thesis by (auto simp: printable_def list_all_iff line_feed_def)
qed

lemma first_line_append: "line_feed \<notin> set l \<Longrightarrow> first_line (l @ line_feed # rest) = l"
  by (induction l) (auto simp: first_line_def)

lemma raw_lines_append: "line_feed \<notin> set l \<Longrightarrow> raw_lines (l @ line_feed # rest) = l # raw_lines rest"
  by (subst raw_lines.simps) (simp add: first_line_append after_line_def)

lemma raw_lines_render: "\<forall>e \<in> set es. event_ok e \<Longrightarrow> raw_lines (render es) = map line es"
  by (induction es) (simp_all add: render_def raw_lines_append line_no_feed)

lemma line_of_line: "line_of (line e) e \<longleftrightarrow> length (line e) < maxEventBytes \<and> valid_event e"
  by (simp add: line_of_def dropCR_line TrimSpace_line)

lemma valid_event_ok: "valid_event e \<Longrightarrow> event_ok e"
  by (simp add: valid_event_def)

lemma ParseEventStream_render:
  "\<forall>e \<in> set es. valid_event e \<and> length (line e) < maxEventBytes \<Longrightarrow> chain_ok es \<Longrightarrow>
   length es \<le> maxEvents \<Longrightarrow> length (render es) \<le> maxDocumentBytes \<Longrightarrow>
   ParseEventStream (render es) = Inr es"
proof -
  assume es: "\<forall>e \<in> set es. valid_event e \<and> length (line e) < maxEventBytes" and c: "chain_ok es"
    and n: "length es \<le> maxEvents" "length (render es) \<le> maxDocumentBytes"
  have "render es \<noteq> []" using c by (cases es) (auto simp: render_def chain_ok_def)
  moreover have "list_all2 line_of (raw_lines (render es)) es"
    using es by (simp add: raw_lines_render valid_event_ok list_all2_map1 list.rel_refl_strong line_of_line)
  ultimately show ?thesis using c n by (simp add: ParseEventStream_iff)
qed

lemma length_TrimSpace: "length (TrimSpace s) \<le> length s"
proof -
  have le: "length (trim_start rs s) \<le> length s" for rs s
  proof (induction rs s rule: trim_start.induct)
    case (1 rs s)
    show ?case
    proof (cases "find (\<lambda>r. r \<noteq> [] \<and> take (length r) s = r) rs")
      case (Some r)
      have "length (trim_start rs (drop (length r) s)) \<le> length (drop (length r) s)" by (rule "1.IH" [OF Some])
      then show ?thesis by (subst trim_start.simps) (simp add: Some)
    qed (subst trim_start.simps, simp)
  qed
  show ?thesis
    using le [of "map rev space_runes" "rev (trim_start space_runes s)"] le [of space_runes s]
    by (simp add: TrimSpace_def)
qed

text \<open>The canonical lines of an accepted stream are accepted too.\<close>

lemma line_of_lengths: "line_of l e \<Longrightarrow> length (line e) \<le> length l"
proof -
  assume "line_of l e"
  then have "length (line e) \<le> length (dropCR l)" using length_TrimSpace [of "dropCR l"] by (simp add: line_of_def)
  also have "\<dots> \<le> length l" by (simp add: dropCR_def)
  finally show ?thesis .
qed

text \<open>Every prefix of a chain is a chain.\<close>

lemma chain_ok_take: "chain_ok es \<Longrightarrow> 0 < k \<Longrightarrow> chain_ok (take k es)"
proof -
  assume c: "chain_ok es" and k: "0 < k"
  have "log.linked zeroHash 1 (take k es)"
    using c log.linked_append [of zeroHash 1 "take k es" "drop k es"] by (simp add: chain_ok_def)
  moreover have "hd (take k es) = hd es" "take k es \<noteq> []" using c k by (auto simp: chain_ok_def)
  moreover have "sorted (map ev_MonotonicNS (take k es))" 
    using c sorted_wrt_take [of "(\<le>)" "map ev_MonotonicNS es" k] by (simp add: chain_ok_def take_map)
  ultimately show ?thesis using c unfolding chain_ok_def by (metis in_set_takeD)
qed

section \<open>Validation\<close>

lemma validateEvent_ok_iff:
  "validateEvent e = Inr u \<longleftrightarrow>
   ev_SchemaVersion e = EventSchema \<and> ev_EventID e \<noteq> [] \<and>
   bs_BuildID (ev_Build e) \<noteq> [] \<and> bs_RunID (ev_Build e) \<noteq> [] \<and> bs_BootID (ev_Build e) \<noteq> [] \<and>
   bs_CgroupID (ev_Build e) \<noteq> 0 \<and> bs_CgroupPathHash (ev_Build e) \<noteq> [] \<and>
   src_Repository (bs_Source (ev_Build e)) \<noteq> [] \<and> src_Revision (bs_Source (ev_Build e)) \<noteq> [] \<and>
   ev_Sequence e \<noteq> 0 \<and> ev_MonotonicNS e \<noteq> 0 \<and> ev_Operation e \<in> set allowedOperations \<and>
   sn_Name (ev_Sensor e) \<noteq> [] \<and> sn_Version (ev_Sensor e) \<noteq> [] \<and> sn_ConfigDigest (ev_Sensor e) \<noteq> [] \<and>
   (ev_Operation e = ''process_exec'' \<longrightarrow> ev_Process e \<noteq> None) \<and>
   (\<forall>p. ev_Process e = Some p \<longrightarrow> \<not> process_incomplete p)"
  by (auto simp: validateEvent_def Let_def split: option.splits)

end
