(* ===== verification/Chain.thy ===== *)
theory Chain
  imports Evidence
begin

text \<open>
  \<open>internal/rpf/chain.go\<close>: the writer of an event stream and the composite process key. A chain is
  the record \<open>EventChain\<close>; \<open>Append\<close> returns the line to write and the chain after the call. The
  relation \<open>written\<close> is what any sequence of calls, failing ones included, can write; by rule
  induction everything written is a prefix of a stream that \<open>ParseEventStream\<close> accepts, as long as
  the caller's clock does not go back and the limits are kept.
\<close>

record EventChain =
  ch_build :: BuildScope
  ch_sensor :: Sensor
  ch_sequence :: uint64
  ch_previous :: string

definition NewEventChain :: "BuildScope \<Rightarrow> Sensor \<Rightarrow> EventChain result" where
  "NewEventChain build source =
     (if bs_BuildID build = [] \<or> bs_RunID build = [] \<or> bs_BootID build = [] \<or>
         bs_CgroupID build = 0 \<or> bs_CgroupPathHash build = [] then
        Inl (ChainErr IncompleteBuildScope)
      else if sn_Name source = [] \<or> sn_Version source = [] \<or> sn_ConfigDigest source = [] then
        Inl (ChainErr IncompleteSensorIdentity)
      else Inr \<lparr>ch_build = build, ch_sensor = source, ch_sequence = 0, ch_previous = zeroHash\<rparr>)"

definition event_id :: "EventChain \<Rightarrow> string" where
  "event_id chain =
     ''urn:rpf:event:'' @ Digest (bs_BuildID (ch_build chain) @ [CHR 0x00] @
       bs_RunID (ch_build chain) @ [CHR 0x00] @ dec_nat (unat (ch_sequence chain)))"

text \<open>The fields the chain owns, before the hash; \<open>chain\<close> already counts this event.\<close>

definition stamp :: "EventChain \<Rightarrow> Event \<Rightarrow> Event" where
  "stamp chain event =
     event\<lparr>ev_SchemaVersion := EventSchema, ev_EventID := event_id chain,
       ev_Sequence := ch_sequence chain, ev_Build := ch_build chain, ev_Sensor := ch_sensor chain,
       ev_Integrity := (ev_Integrity event)\<lparr>in_PreviousEventHash := ch_previous chain\<rparr>\<rparr>"

definition set_hash :: "string \<Rightarrow> Event \<Rightarrow> Event" where
  "set_hash digest event = event\<lparr>ev_Integrity := (ev_Integrity event)\<lparr>in_EventHash := digest\<rparr>\<rparr>"

definition owned_fields_set :: "Event \<Rightarrow> bool" where
  "owned_fields_set event \<longleftrightarrow>
     ev_SchemaVersion event \<noteq> [] \<or> ev_EventID event \<noteq> [] \<or> ev_Sequence event \<noteq> 0 \<or>
     ev_Build event \<noteq> zero_build \<or> ev_Sensor event \<noteq> zero_sensor \<or> ev_Integrity event \<noteq> zero_integrity"

text \<open>
  \<open>Append\<close>. The sequence number is taken first and given back on each error, as in the code; the
  receiver can be \<open>nil\<close>.
\<close>

definition Append :: "EventChain option \<Rightarrow> Event \<Rightarrow> bytes result \<times> EventChain option" where
  "Append receiver event =
     (case receiver of
        None \<Rightarrow> (Inl (ChainErr ChainNil), None)
      | Some chain \<Rightarrow>
          if owned_fields_set event then (Inl (ChainErr CallerSuppliedFields), Some chain)
          else
            (let taken = chain\<lparr>ch_sequence := ch_sequence chain + 1\<rparr>;
                 back = taken\<lparr>ch_sequence := ch_sequence taken - 1\<rparr>;
                 stamped = stamp taken event in
             (case eventDigest stamped of
                Inl e \<Rightarrow> (Inl e, Some back)
              | Inr digest \<Rightarrow>
                  (case validateEvent (set_hash digest stamped) of
                     Inl e \<Rightarrow> (Inl e, Some back)
                   | Inr _ \<Rightarrow>
                       (case canonical (enc_event (set_hash digest stamped)) of
                          Inl e \<Rightarrow> (Inl e, Some back)
                        | Inr raw \<Rightarrow>
                            (Inr (raw @ [line_feed]), Some (taken\<lparr>ch_previous := digest\<rparr>)))))))"

definition ProcessKey :: "string \<Rightarrow> uint64 \<Rightarrow> uint32 \<Rightarrow> uint64 \<Rightarrow> string" where
  "ProcessKey bootID pidNamespace tgid startTimeNS =
     (if bootID = [] \<or> pidNamespace = 0 \<or> tgid = 0 \<or> startTimeNS = 0 then []
      else ''sha256:'' @ Digest
        (''boot='' @ bootID @ [line_feed] @ ''pidns='' @ dec_nat (unat pidNamespace) @ [line_feed] @
         ''tgid='' @ dec_nat (unat tgid) @ [line_feed] @ ''start='' @ dec_nat (unat startTimeNS) @ [line_feed]))"

section \<open>Normal forms of stamped events\<close>

lemma fields_canon_norm: "event_ok e \<Longrightarrow> fields_canon (norm_event e) = fields_canon e"
proof -
  assume ok: "event_ok e"
  have "canon (enc_event (norm_event e)) = canon (enc_event e)" by (rule event_codec.enc_norm [OF ok])
  then have "map_put ''integrity'' (canon (enc_integrity (ev_Integrity (norm_event e)))) (fields_canon (norm_event e)) =
    map_put ''integrity'' (canon (enc_integrity (ev_Integrity e))) (fields_canon e)"
    by (simp add: canon_event)
  from arg_cong [OF this, of "map_delete ''integrity''"] show ?thesis
    by (simp add: gm.delete_put fields_canon_no_integrity)
qed

lemma hash_material_norm: "event_ok e \<Longrightarrow> hash_material (norm_event e) = hash_material e"
proof -
  have "in_PreviousEventHash (ev_Integrity (norm_event e)) = sanitize (in_PreviousEventHash (ev_Integrity e))"
    by (simp add: norm_event_def norm_integrity_def)
  then show "event_ok e \<Longrightarrow> ?thesis"
    by (simp add: hash_material_def canon_unhashed fields_canon_norm)
qed

lemma line_norm: "event_ok e \<Longrightarrow> line (norm_event e) = line e"
  by (simp add: line_def event_codec.enc_norm)

lemma event_fits_norm: "event_ok e \<Longrightarrow> event_fits (norm_event e) = event_fits e"
  by (simp add: event_fits_def event_codec.enc_norm)

lemma sanitize_lit: "list_all (\<lambda>c. c < CHR 0x80) s \<Longrightarrow> sanitize s = s"
  by (rule sanitize_ascii)

lemma allowed_ascii: "\<forall>op \<in> set allowedOperations. sanitize op = op"
  by (simp add: allowedOperations_def sanitize_ascii)

lemma process_incomplete_norm: "\<not> process_incomplete p \<Longrightarrow> \<not> process_incomplete (norm_process p)"
  by (auto simp: process_incomplete_def norm_process_def norm_executable_def sanitize_ascii)

lemma validateEvent_norm: "validateEvent e = Inr () \<Longrightarrow> validateEvent (norm_event e) = Inr ()"
  using allowed_ascii process_incomplete_norm
  by (auto simp: validateEvent_ok_iff norm_event_def norm_build_def norm_source_def norm_sensor_def
      EventSchema_def sanitize_ascii)

section \<open>Append\<close>

lemma Append_error: "Append (Some chain) event = (Inl e, chain') \<Longrightarrow> chain' = Some chain"
  by (auto simp: Append_def Let_def split: if_splits sum.splits)

definition taken :: "EventChain \<Rightarrow> EventChain" where
  "taken chain = chain\<lparr>ch_sequence := ch_sequence chain + 1\<rparr>"

definition appended :: "EventChain \<Rightarrow> Event \<Rightarrow> Event" where
  "appended chain event =
     (let stamped = stamp (taken chain) event
      in set_hash (''sha256:'' @ Digest (hash_material stamped)) stamped)"

lemma Append_ok:
  "Append (Some chain) event = (Inr text, chain') \<longleftrightarrow>
   \<not> owned_fields_set event \<and> event_ok event \<and> event_fits (stamp (taken chain) event) \<and>
   validateEvent (appended chain event) = Inr () \<and> text = line (appended chain event) @ [line_feed] \<and>
   chain' = Some ((taken chain)\<lparr>ch_previous := in_EventHash (ev_Integrity (appended chain event))\<rparr>)"
proof -
  have ok: "event_ok (stamp c event) = event_ok event" "event_ok (set_hash d e) = event_ok e" for c d e
    by (simp_all add: event_ok_def stamp_def set_hash_def)
  have h: "in_EventHash (ev_Integrity (set_hash d e)) = d" for d e by (simp add: set_hash_def)
  let ?s = "stamp (taken chain) event"
  let ?d = "''sha256:'' @ Digest (hash_material ?s)"
  have digest: "eventDigest ?s = Inr d \<longleftrightarrow> event_ok event \<and> event_fits ?s \<and> d = ?d" for d
    by (simp add: eventDigest_eq ok)
  have written: "canonical (enc_event (set_hash d ?s)) = Inr t \<longleftrightarrow> event_ok event \<and> t = line (set_hash d ?s)" for d t
    by (simp add: canonical_line ok)
  have app: "appended chain event = set_hash ?d ?s" by (simp add: appended_def Let_def)
  show ?thesis
  proof (cases "eventDigest ?s")
    case (Inl e)
    with digest [of ?d] show ?thesis by (auto simp: Append_def Let_def app h taken_def [symmetric])
  next
    case (Inr d)
    with digest have d: "event_ok event" "event_fits ?s" "d = ?d" by blast+
    show ?thesis
    proof (cases "validateEvent (set_hash d ?s)")
      case (Inl e)
      with Inr d show ?thesis by (auto simp: Append_def Let_def app h taken_def [symmetric])
    next
      case v: (Inr u)
      have "canonical (enc_event (set_hash d ?s)) = Inr (line (set_hash d ?s))" using written d by blast
      with Inr v d show ?thesis by (auto simp: Append_def Let_def app h taken_def [symmetric])
    qed
  qed
qed
section \<open>What a sequence of calls writes\<close>

text \<open>
  \<open>written b s chain es raw\<close>: after some calls of \<open>Append\<close> on a chain made for \<open>b\<close> and \<open>s\<close> the
  chain is \<open>chain\<close>, \<open>raw\<close> is the concatenation of the lines returned, and \<open>es\<close> are the events a
  reader gets from them.
\<close>

inductive written :: "BuildScope \<Rightarrow> Sensor \<Rightarrow> EventChain \<Rightarrow> Event list \<Rightarrow> bytes \<Rightarrow> bool" where
  created: "NewEventChain build sensor = Inr chain \<Longrightarrow> written build sensor chain [] []"
| wrote: "written build sensor chain es raw \<Longrightarrow> Append (Some chain) event = (Inr out, Some chain') \<Longrightarrow>
    written build sensor chain' (es @ [norm_event (Chain.appended chain event)]) (raw @ out)"
| failed: "written build sensor chain es raw \<Longrightarrow> Append (Some chain) event = (Inl err, Some chain') \<Longrightarrow>
    written build sensor chain' es raw"

inductive_cases writtenE: "written build sensor chain es raw"

lemma appended_fields [simp]:
  "ev_Build (Chain.appended chain event) = ch_build chain"
  "ev_Sensor (Chain.appended chain event) = ch_sensor chain"
  "ev_Sequence (Chain.appended chain event) = ch_sequence chain + 1"
  "ev_MonotonicNS (Chain.appended chain event) = ev_MonotonicNS event"
  "in_PreviousEventHash (ev_Integrity (Chain.appended chain event)) = ch_previous chain"
  "event_ok (Chain.appended chain event) = event_ok event"
  by (simp_all add: Chain.appended_def Let_def set_hash_def stamp_def taken_def event_ok_def)

lemma norm_event_fields [simp]:
  "ev_Build (norm_event e) = norm_build (ev_Build e)"
  "ev_Sensor (norm_event e) = norm_sensor (ev_Sensor e)"
  "ev_Sequence (norm_event e) = ev_Sequence e"
  "ev_MonotonicNS (norm_event e) = ev_MonotonicNS e"
  "ev_Integrity (norm_event e) = norm_integrity (ev_Integrity e)"
  by (simp_all add: norm_event_def)

lemma norm_event_more [simp]:
  "ev_Operation (norm_event e) = sanitize (ev_Operation e)" "ev_Resource (norm_event e) = norm_map (ev_Resource e)"
  "ev_Process (norm_event e) = map_option norm_process (ev_Process e)"
  "ev_ObservedAt (norm_event e) = sanitize (ev_ObservedAt e)"
  by (simp_all add: norm_event_def)

lemma appended_more [simp]:
  "ev_Operation (Chain.appended c e) = ev_Operation e" "ev_Resource (Chain.appended c e) = ev_Resource e"
  "ev_Process (Chain.appended c e) = ev_Process e" "ev_ObservedAt (Chain.appended c e) = ev_ObservedAt e"
  by (simp_all add: Chain.appended_def Let_def set_hash_def stamp_def)

lemma hash_material_set_hash: "hash_material (set_hash d e) = hash_material e"
  by (simp add: hash_material_def unhashed_def event_fields_def set_hash_def)

lemma sanitize_hash: "sanitize (''sha256:'' @ Digest d) = ''sha256:'' @ Digest d"
  by (rule sanitize_ascii) (use Digest_ascii [of d] in simp)

text \<open>
  The event a successful call writes is valid and carries the right hash, provided that its line,
  longer than the hashed one by the hash, is still within the limits.
\<close>

lemma appended_hash: "in_EventHash (ev_Integrity (Chain.appended chain event)) =
  ''sha256:'' @ Digest (hash_material (Chain.appended chain event))"
  by (simp add: Chain.appended_def Let_def hash_material_set_hash) (simp add: set_hash_def)

lemma sealed_appended:
  assumes "event_ok event" "event_fits (Chain.appended chain event)"
  shows "sealed (norm_event (Chain.appended chain event))"
proof -
  let ?e = "Chain.appended chain event"
  have "eventDigest (norm_event ?e) = Inr (''sha256:'' @ Digest (hash_material ?e))"
    using assms by (simp add: eventDigest_eq event_fits_norm hash_material_norm)
  moreover have "in_EventHash (ev_Integrity (norm_event ?e)) = ''sha256:'' @ Digest (hash_material ?e)"
    by (simp add: norm_integrity_def appended_hash sanitize_hash)
  ultimately show ?thesis
    using assms(1) by (simp add: sealed_def event_codec.norm_idem)
qed

lemma ascii_hash: "sanitize zeroHash = zeroHash"
  by (simp add: zeroHash_def sanitize_ascii)

text \<open>The chain remembers the hash and the number of the events written.\<close>

lemma written_state:
  "written build sensor chain es raw \<Longrightarrow>
   ch_build chain = build \<and> ch_sensor chain = sensor \<and>
   ch_previous chain = log.end_hash zeroHash es \<and> ch_sequence chain = of_nat (length es) \<and>
   sanitize (ch_previous chain) = ch_previous chain \<and> raw = render es"
proof (induction rule: written.induct)
  case (created build sensor chain)
  then show ?case by (auto simp: NewEventChain_def ascii_hash render_def split: if_splits)
next
  case (wrote build sensor chain es raw event out chain')
  have "event_ok (Chain.appended chain event)" using wrote.hyps(2) by (auto simp: Append_ok)
  with wrote show ?case
    by (auto simp: Append_ok taken_def render_def line_norm norm_integrity_def appended_hash sanitize_hash)
next
  case (failed build sensor chain es raw event err chain')
  then show ?case using Append_error by fastforce
qed

definition writer_limits :: "Event list \<Rightarrow> bool" where
  "writer_limits es \<longleftrightarrow> length es \<le> maxEvents \<and>
     (\<forall>e \<in> set es. length (line e) < maxEventBytes \<and> shape_ok (canon (enc_event e)))"

lemma written_log:
  "written build sensor chain es raw \<Longrightarrow> writer_limits es \<Longrightarrow>
   log.linked zeroHash 1 es \<and>
   (\<forall>e \<in> set es. valid_event e \<and> ev_Build e = norm_build build \<and> ev_Sensor e = norm_sensor sensor)"
proof (induction rule: written.induct)
  case (wrote build sensor chain es raw event out chain')
  let ?e = "norm_event (Chain.appended chain event)"
  note state = written_state [OF wrote.hyps(1)]
  have lim: "writer_limits es" using wrote.prems by (simp add: writer_limits_def)
  have ok: "event_ok event" and v: "validateEvent (Chain.appended chain event) = Inr ()"
    using wrote.hyps(2) by (simp_all add: Append_ok)
  have "length (line ?e) < maxEventBytes" "shape_ok (canon (enc_event ?e))"
    using wrote.prems by (simp_all add: writer_limits_def)
  then have fits: "event_fits ?e" by (simp add: event_fits_def line_def)
  then have s: "sealed ?e" using ok by (intro sealed_appended) (simp_all add: event_fits_norm)
  have "length es + 1 < 2 ^ 64" using wrote.prems by (simp add: writer_limits_def maxEvents_def)
  then have "unat (ch_sequence chain + 1) = 1 + length es"
    using eq_of_nat_iff [of "length es + 1" "ch_sequence chain + 1"] state by (simp add: add.commute)
  moreover have "in_PreviousEventHash (ev_Integrity ?e) = log.end_hash zeroHash es"
  proof -
    have "in_PreviousEventHash (ev_Integrity ?e) = sanitize (ch_previous chain)"
      by (simp add: norm_integrity_def)
    also have "\<dots> = log.end_hash zeroHash es" using state by metis
    finally show ?thesis .
  qed
  moreover have "valid_event ?e"
    using ok v fits by (simp add: valid_event_def validateEvent_norm event_codec.norm_idem)
  ultimately show ?case
    using wrote.IH [OF lim] s state by (simp add: log.linked_snoc)
qed simp_all

lemma written_chain_ok:
  "written build sensor chain es raw \<Longrightarrow> writer_limits es \<Longrightarrow> es \<noteq> [] \<Longrightarrow>
   sorted (map ev_MonotonicNS es) \<Longrightarrow> chain_ok es"
  using written_log unfolding chain_ok_def by (metis hd_in_set)

text \<open>A reader gets the events back.\<close>

lemma written_parses:
  "written build sensor chain es raw \<Longrightarrow> writer_limits es \<Longrightarrow> es \<noteq> [] \<Longrightarrow>
   sorted (map ev_MonotonicNS es) \<Longrightarrow> length raw \<le> maxDocumentBytes \<Longrightarrow> ParseEventStream raw = Inr es"
  using written_state written_log written_chain_ok
  by (metis ParseEventStream_render writer_limits_def)

section \<open>Process keys\<close>

lemma append_sep_cancel:
  assumes "a @ c # b = a' @ c # b'" "c \<notin> set b" "c \<notin> set b'"
  shows "a = a' \<and> b = b'"
proof -
  have "rev b @ c # rev a = rev b' @ c # rev a'" using arg_cong [OF assms(1), of rev] by simp
  then have "takeWhile (\<lambda>x. x \<noteq> c) (rev b @ c # rev a) = takeWhile (\<lambda>x. x \<noteq> c) (rev b' @ c # rev a')"
    by simp
  moreover have "takeWhile (\<lambda>x. x \<noteq> c) (r @ c # t) = r" if "c \<notin> set r" for r t
    using that by (induction r) auto
  ultimately have "rev b = rev b'" using assms(2,3) by simp
  with assms(1) show ?thesis by simp
qed

lemma line_feed_dec_nat [simp]: "line_feed \<notin> set (dec_nat n)"
  using dec_nat_digits [of n] by (auto simp: list_all_iff line_feed_def is_digit_of_char)

definition key_material :: "string \<Rightarrow> uint64 \<Rightarrow> uint32 \<Rightarrow> uint64 \<Rightarrow> string" where
  "key_material boot ns tgid start =
     ''boot='' @ boot @ [line_feed] @ ''pidns='' @ dec_nat (unat ns) @ [line_feed] @
     ''tgid='' @ dec_nat (unat tgid) @ [line_feed] @ ''start='' @ dec_nat (unat start) @ [line_feed]"

lemma sep_inject:
  assumes "a @ c # p @ c # q @ c # r @ [c] = a' @ c # p' @ c # q' @ c # r' @ [c]"
    "c \<notin> set p \<union> set q \<union> set r" "c \<notin> set p' \<union> set q' \<union> set r'"
  shows "a = a' \<and> p = p' \<and> q = q' \<and> r = r'"
proof -
  have 1: "(((a @ c # p) @ c # q) @ c # r) @ [c] = (((a' @ c # p') @ c # q') @ c # r') @ [c]"
    using assms(1) by simp
  then have "((a @ c # p) @ c # q) @ c # r = ((a' @ c # p') @ c # q') @ c # r'" by (rule append1_eq_conv [THEN iffD1, THEN conjunct1])
  from append_sep_cancel [OF this] assms(2,3)
  have 2: "(a @ c # p) @ c # q = (a' @ c # p') @ c # q'" and r: "r = r'" by blast+
  from append_sep_cancel [OF 2] assms(2,3) have 3: "a @ c # p = a' @ c # p'" and q: "q = q'" by blast+
  from append_sep_cancel [OF 3] assms(2,3) q r show ?thesis by blast
qed

lemma key_material_inject:
  "key_material b n t s = key_material b' n' t' s' \<Longrightarrow> b = b' \<and> n = n' \<and> t = t' \<and> s = s'"
proof -
  assume eq: "key_material b n t s = key_material b' n' t' s'"
  have nf: "line_feed \<notin> set (''pidns='' @ dec_nat i) \<union> set (''tgid='' @ dec_nat j) \<union> set (''start='' @ dec_nat k)"
    for i j k using line_feed_dec_nat by (auto simp: line_feed_def)
  have "''boot='' @ b = ''boot='' @ b' \<and> ''pidns='' @ dec_nat (unat n) = ''pidns='' @ dec_nat (unat n') \<and>
    ''tgid='' @ dec_nat (unat t) = ''tgid='' @ dec_nat (unat t') \<and>
    ''start='' @ dec_nat (unat s) = ''start='' @ dec_nat (unat s')"
    by (rule sep_inject [OF _ nf nf]) (use eq in \<open>simp add: key_material_def\<close>)
  then show ?thesis by (auto intro: unsigned_word_eqI)
qed

lemma ProcessKey_eq:
  "ProcessKey b n t s = (if b = [] \<or> n = 0 \<or> t = 0 \<or> s = 0 then [] else ''sha256:'' @ Digest (key_material b n t s))"
  by (simp add: ProcessKey_def key_material_def)

end
