(* ===== verification/Graph.thy ===== *)
theory Graph
  imports Chain "HOL-Library.Multiset"
begin

text \<open>
  \<open>BuildGraph\<close> and \<open>BuildGraphFromStream\<close> of \<open>internal/rpf/evidence.go\<close>. Go iterates over
  \<open>nodeMap\<close> in a random order, so \<open>BuildGraph\<close> takes the order as a parameter, a function that
  permutes the keys; \<open>BuildGraph_spec\<close> shows that the result does not depend on it and gives the
  graph in closed form. \<open>sort.Slice\<close> is a stable sort here: Go leaves the order of equal keys open,
  but node keys are distinct and, in an accepted stream, so are the sequence numbers of edges.
\<close>

definition resource_get :: "Event \<Rightarrow> string \<Rightarrow> any option" where
  "resource_get event k = map_get (elems (ev_Resource event)) k"

definition resourceIdentity :: "Event \<Rightarrow> string" where
  "resourceIdentity event =
     (case resource_get event ''category'' of
        Some (AString v) \<Rightarrow> ''category:'' @ v
      | _ \<Rightarrow>
          (case resource_get event ''destination'' of
             Some (AString v) \<Rightarrow> ''network:'' @ v
           | _ \<Rightarrow>
               ''resource:sha256:'' @
                 (case canonicalDigest (enc_map enc_any (ev_Resource event)) of Inl _ \<Rightarrow> [] | Inr d \<Rightarrow> d)))"

definition resource_operations :: "string list" where
  "resource_operations =
     [''file_open_sensitive'', ''file_open_output'', ''file_rename_output'', ''network_connect'',
      ''artifact_finalized'']"

text \<open>The node and the edge that one event contributes.\<close>

definition event_node :: "Process \<Rightarrow> GraphNode" where
  "event_node p = zero_node\<lparr>gn_ProcessKey := pr_ProcessKey p, gn_ParentKey := pr_ParentKey p,
     gn_Executable := ex_Path (pr_Executable p)\<rparr>"

definition event_edges :: "Event \<Rightarrow> Process \<Rightarrow> GraphEdge list" where
  "event_edges event p =
     (if ev_Operation event = ''process_exec'' then
        (if pr_ParentKey p \<noteq> [] then
           [zero_edge\<lparr>ge_Sequence := ev_Sequence event, ge_From := pr_ParentKey p,
              ge_To := pr_ProcessKey p, ge_Kind := ''observed_exec_parent''\<rparr>]
         else [])
      else if ev_Operation event \<in> set resource_operations then
        [zero_edge\<lparr>ge_Sequence := ev_Sequence event, ge_From := pr_ProcessKey p,
           ge_To := resourceIdentity event, ge_Kind := ev_Operation event,
           ge_Evidence := ev_Resource event\<rparr>]
      else [])"

fun graph_loop :: "Event list \<Rightarrow> GraphNode gomap \<Rightarrow> GraphEdge list \<Rightarrow> (GraphNode gomap \<times> GraphEdge list) result" where
  "graph_loop [] nodeMap edges = Inr (nodeMap, edges)"
| "graph_loop (event # events) nodeMap edges =
     (case ev_Process event of
        None \<Rightarrow> graph_loop events nodeMap edges
      | Some p \<Rightarrow>
          if pr_ProcessKey p = [] \<or> ex_Path (pr_Executable p) = [] then
            Inl (StreamErr (GraphIncompleteProcess (ev_Sequence event)))
          else if (case map_get nodeMap (pr_ProcessKey p) of None \<Rightarrow> False | Some old \<Rightarrow> old \<noteq> event_node p) then
            Inl (StreamErr (ConflictingIdentity (pr_ProcessKey p)))
          else
            graph_loop events (map_put (pr_ProcessKey p) (event_node p) nodeMap) (edges @ event_edges event p))"

text \<open>Reading a missing key gives the zero node, whose key is empty.\<close>

definition parent_observation :: "GraphNode gomap \<Rightarrow> GraphNode \<Rightarrow> string" where
  "parent_observation nodeMap node =
     (if gn_ParentKey node = [] then ''none''
      else if gn_ProcessKey (case map_get nodeMap (gn_ParentKey node) of None \<Rightarrow> zero_node | Some n \<Rightarrow> n) \<noteq> []
      then ''observed''
      else ''unobserved'')"

text \<open>The loop over the map; it stores each changed node back while it runs.\<close>

fun observe_loop :: "string list \<Rightarrow> GraphNode gomap \<Rightarrow> GraphNode list \<Rightarrow> GraphNode gomap \<times> GraphNode list" where
  "observe_loop [] nodeMap nodes = (nodeMap, nodes)"
| "observe_loop (key # keys) nodeMap nodes =
     (case map_get nodeMap key of
        None \<Rightarrow> observe_loop keys nodeMap nodes
      | Some node \<Rightarrow>
          (let node' = node\<lparr>gn_ParentObservation := parent_observation nodeMap node\<rparr>
           in observe_loop keys (map_put key node' nodeMap) (nodes @ [node'])))"

definition relabel :: "GraphNode gomap \<Rightarrow> GraphEdge \<Rightarrow> GraphEdge" where
  "relabel nodeMap edge =
     (if ge_Kind edge = ''observed_exec_parent'' \<and> map_get nodeMap (ge_From edge) = None
      then edge\<lparr>ge_Kind := ''unobserved_exec_parent''\<rparr> else edge)"

definition BuildGraph :: "(string list \<Rightarrow> string list) \<Rightarrow> Event list \<Rightarrow> ExecutionGraph result" where
  "BuildGraph order events =
     (case events of
        [] \<Rightarrow> Inl (StreamErr EmptyGraphInput)
      | event # _ \<Rightarrow>
          and_then (graph_loop events [] []) (\<lambda>(nodeMap, edges).
            let (nodeMap', nodes) = observe_loop (order (map fst nodeMap)) nodeMap []
            in Inr \<lparr>eg_SchemaVersion = ''0.2'', eg_BuildID = bs_BuildID (ev_Build event),
                 eg_Nodes = Some (sort_key gn_ProcessKey nodes),
                 eg_Edges = Some (sort_key ge_Sequence (map (relabel nodeMap') edges))\<rparr>))"

definition BuildGraphFromStream :: "(string list \<Rightarrow> string list) \<Rightarrow> bytes \<Rightarrow> ExecutionGraph result" where
  "BuildGraphFromStream order raw = and_then (ParseEventStream raw) (BuildGraph order)"

section \<open>The graph in closed form\<close>

text \<open>The processes of a stream, and the streams that have a graph.\<close>

definition processes :: "Event list \<Rightarrow> Process list" where
  "processes events = List.map_filter ev_Process events"

definition graphable :: "Event list \<Rightarrow> bool" where
  "graphable events \<longleftrightarrow>
     (\<forall>p \<in> set (processes events). pr_ProcessKey p \<noteq> [] \<and> ex_Path (pr_Executable p) \<noteq> []) \<and>
     (\<forall>p \<in> set (processes events). \<forall>q \<in> set (processes events).
        pr_ProcessKey p = pr_ProcessKey q \<longrightarrow> event_node p = event_node q)"

definition node_map :: "Event list \<Rightarrow> GraphNode gomap" where
  "node_map events = map_lit (map (\<lambda>p. (pr_ProcessKey p, event_node p)) (processes events))"

definition observed_node :: "Event list \<Rightarrow> GraphNode \<Rightarrow> GraphNode" where
  "observed_node events n = n\<lparr>gn_ParentObservation :=
     (if gn_ParentKey n = [] then ''none''
      else if gn_ParentKey n \<in> pr_ProcessKey ` set (processes events) then ''observed''
      else ''unobserved'')\<rparr>"

definition edge_of :: "Event list \<Rightarrow> GraphEdge \<Rightarrow> GraphEdge" where
  "edge_of events edge =
     (if ge_Kind edge = ''observed_exec_parent'' \<and> ge_From edge \<notin> pr_ProcessKey ` set (processes events)
      then edge\<lparr>ge_Kind := ''unobserved_exec_parent''\<rparr> else edge)"

definition all_edges :: "Event list \<Rightarrow> GraphEdge list" where
  "all_edges events =
     concat (map (\<lambda>e. case ev_Process e of None \<Rightarrow> [] | Some p \<Rightarrow> event_edges e p) events)"

definition graph_of :: "Event list \<Rightarrow> ExecutionGraph" where
  "graph_of events =
     \<lparr>eg_SchemaVersion = ''0.2'', eg_BuildID = bs_BuildID (ev_Build (hd events)),
      eg_Nodes = Some (map (\<lambda>(k, n). observed_node events n) (node_map events)),
      eg_Edges = Some (sort_key ge_Sequence (map (edge_of events) (all_edges events)))\<rparr>"

lemma processes_simps [simp]:
  "processes [] = []"
  "processes (e # es) = (case ev_Process e of None \<Rightarrow> processes es | Some p \<Rightarrow> p # processes es)"
  by (simp_all add: processes_def List.map_filter_simps split: option.split)

lemma set_processes: "p \<in> set (processes es) \<longleftrightarrow> (\<exists>e \<in> set es. ev_Process e = Some p)"
  by (induction es) (auto split: option.splits)

lemma event_node_key [simp]: "gn_ProcessKey (event_node p) = pr_ProcessKey p"
  by (simp add: event_node_def)

lemma node_map_wf [simp]: "map_wf (node_map es)"
  by (simp add: node_map_def)

lemma node_map_keys: "fst ` set (node_map es) = pr_ProcessKey ` set (processes es)"
  by (simp add: node_map_def keys_map_lit image_image)

lemma node_map_entry: "(k, n) \<in> set (node_map es) \<Longrightarrow> gn_ProcessKey n = k \<and> (\<exists>p \<in> set (processes es). n = event_node p)"
  using set_map_lit [of "map (\<lambda>p. (pr_ProcessKey p, event_node p)) (processes es)"]
  by (auto simp: node_map_def)

lemma node_map_get_None: "map_get (node_map es) k = None \<longleftrightarrow> k \<notin> pr_ProcessKey ` set (processes es)"
  using node_map_keys [of es] by (simp add: map_get_def map_of_eq_None_iff)

text \<open>Processes that agree with the nodes found so far, and with each other.\<close>

definition complete_processes :: "Process list \<Rightarrow> bool" where
  "complete_processes ps \<longleftrightarrow> (\<forall>p \<in> set ps. pr_ProcessKey p \<noteq> [] \<and> ex_Path (pr_Executable p) \<noteq> [])"

definition agree_map :: "Process list \<Rightarrow> GraphNode gomap \<Rightarrow> bool" where
  "agree_map ps m \<longleftrightarrow> (\<forall>p \<in> set ps. \<forall>n. map_get m (pr_ProcessKey p) = Some n \<longrightarrow> n = event_node p)"

definition agree :: "Process list \<Rightarrow> bool" where
  "agree ps \<longleftrightarrow> (\<forall>p \<in> set ps. \<forall>q \<in> set ps. pr_ProcessKey p = pr_ProcessKey q \<longrightarrow> event_node p = event_node q)"

lemma agree_Cons:
  "agree_map (p # ps) m \<and> agree (p # ps) \<longleftrightarrow>
   agree_map [p] m \<and> agree_map ps (map_put (pr_ProcessKey p) (event_node p) m) \<and> agree ps"
proof -
  let ?F = "\<forall>q \<in> set ps. pr_ProcessKey q = pr_ProcessKey p \<longrightarrow> event_node p = event_node q"
  let ?X = "\<forall>q \<in> set ps. if pr_ProcessKey q = pr_ProcessKey p then event_node p = event_node q
              else \<forall>n. map_get m (pr_ProcessKey q) = Some n \<longrightarrow> n = event_node q"
  have "agree (p # ps) \<longleftrightarrow> agree ps \<and> ?F"
    unfolding agree_def by (metis (no_types, lifting) list.set_intros set_ConsD)
  moreover have "agree_map (p # ps) m \<longleftrightarrow> agree_map [p] m \<and> agree_map ps m"
    by (simp add: agree_map_def)
  moreover have "agree_map ps (map_put (pr_ProcessKey p) (event_node p) m) \<longleftrightarrow> ?X"
    by (simp add: agree_map_def map_get_put)
  moreover have "agree_map ps m \<longleftrightarrow> ?X" if "agree_map [p] m" ?F
    using that unfolding agree_map_def by (metis list.set_intros(1))
  moreover have ?F if ?X using that by meson
  ultimately show ?thesis by argo
qed

lemma graph_loop_iff:
  "graph_loop es m edges = Inr r \<longleftrightarrow>
   complete_processes (processes es) \<and> agree_map (processes es) m \<and> agree (processes es) \<and>
   r = (fold (\<lambda>(k, v). map_put k v) (map (\<lambda>p. (pr_ProcessKey p, event_node p)) (processes es)) m,
        edges @ all_edges es)"
proof (induction es arbitrary: m edges)
  case Nil
  then show ?case by (auto simp: all_edges_def complete_processes_def agree_map_def agree_def)
next
  case (Cons e es)
  show ?case
  proof (cases "ev_Process e")
    case None
    then show ?thesis using Cons by (simp add: all_edges_def)
  next
    case (Some p)
    have "graph_loop (e # es) m edges = Inr r \<longleftrightarrow>
        complete_processes [p] \<and> agree_map [p] m \<and>
        graph_loop es (map_put (pr_ProcessKey p) (event_node p) m) (edges @ event_edges e p) = Inr r"
      by (simp add: Some complete_processes_def agree_map_def split: option.split)
    also have "\<dots> \<longleftrightarrow> complete_processes (p # processes es) \<and>
        (agree_map (p # processes es) m \<and> agree (p # processes es)) \<and>
        r = (fold (\<lambda>(k, v). map_put k v) (map (\<lambda>p. (pr_ProcessKey p, event_node p)) (p # processes es)) m,
          edges @ all_edges (e # es))"
      unfolding Cons.IH agree_Cons by (auto simp: complete_processes_def all_edges_def Some)
    finally show ?thesis by (simp add: Some)
  qed
qed

lemma graphable_iff: "graphable es \<longleftrightarrow> complete_processes (processes es) \<and> agree (processes es)"
  by (simp add: graphable_def complete_processes_def agree_def)

lemma observe_loop_eq:
  assumes "map_wf m" "distinct ks" "\<And>k. k \<in> set ks \<Longrightarrow> map_get m k = map_get m0 k \<and> map_get m0 k \<noteq> None"
    "\<And>k. map_option gn_ProcessKey (map_get m k) = map_option gn_ProcessKey (map_get m0 k)"
  shows "\<exists>m'. observe_loop ks m acc =
      (m', acc @ map (\<lambda>k. (the (map_get m0 k))\<lparr>gn_ParentObservation := parent_observation m0 (the (map_get m0 k))\<rparr>) ks) \<and>
    (\<forall>k. map_get m' k = None \<longleftrightarrow> map_get m0 k = None)"
  using assms
proof (induction ks arbitrary: m acc)
  case Nil
  have "map_get m k = None \<longleftrightarrow> map_get m0 k = None" for k using Nil(4) [of k] by (metis option.map_disc_iff)
  then show ?case by simp
next
  case (Cons key ks)
  obtain n where n: "map_get m key = Some n" "map_get m0 key = Some n" using Cons.prems(3) [of key] by auto
  have po: "parent_observation m n = parent_observation m0 n"
    using Cons.prems(4) [of "gn_ParentKey n"]
    by (auto simp: parent_observation_def split: option.splits)
  let ?n = "n\<lparr>gn_ParentObservation := parent_observation m0 n\<rparr>"
  let ?m = "map_put key ?n m"
  have "\<exists>m'. observe_loop ks ?m (acc @ [?n]) =
      (m', (acc @ [?n]) @ map (\<lambda>k. (the (map_get m0 k))\<lparr>gn_ParentObservation := parent_observation m0 (the (map_get m0 k))\<rparr>) ks) \<and>
    (\<forall>k. map_get m' k = None \<longleftrightarrow> map_get m0 k = None)"
  proof (rule Cons.IH)
    show "map_wf ?m" using Cons.prems(1) by (rule map_wf_put)
    show "distinct ks" using Cons.prems(2) by simp
    show "map_get ?m k = map_get m0 k \<and> map_get m0 k \<noteq> None" if "k \<in> set ks" for k
      using that Cons.prems(2) Cons.prems(3) [of k] by (auto simp: map_get_put)
    show "map_option gn_ProcessKey (map_get ?m k) = map_option gn_ProcessKey (map_get m0 k)" for k
      using Cons.prems(4) [of k] n by (simp add: map_get_put)
  qed
  then show ?case by (simp add: n po Let_def)
qed

text \<open>Two lists sorted by distinct keys with the same elements are the same list.\<close>

lemma sort_key_unique:
  "mset xs = mset ys \<Longrightarrow> sorted_wrt (<) (map f ys) \<Longrightarrow> sort_key f xs = ys"
proof -
  assume m: "mset xs = mset ys" and s: "sorted_wrt (<) (map f ys)"
  have d: "distinct (map f ys)" and st: "sorted (map f ys)" using s by (auto simp: strict_sorted_iff)
  have ms: "mset (map f (sort_key f xs)) = mset (map f ys)" using m by simp
  then have "distinct (map f (sort_key f xs))" using d mset_eq_imp_distinct_iff by blast
  moreover have "set (sort_key f xs) = set ys" using m by (metis set_mset_mset set_sort)
  ultimately show ?thesis
    using d st by (intro map_sorted_distinct_set_unique [of f])
      (auto simp: distinct_map inj_on_def)
qed

definition permutes :: "(string list \<Rightarrow> string list) \<Rightarrow> bool" where
  "permutes order \<longleftrightarrow> (\<forall>ks. mset (order ks) = mset ks)"

lemma BuildGraph_loop:
  "es \<noteq> [] \<Longrightarrow> BuildGraph order es = and_then (graph_loop es [] []) (\<lambda>(nodeMap, edges).
     let (nodeMap', nodes) = observe_loop (order (map fst nodeMap)) nodeMap []
     in Inr \<lparr>eg_SchemaVersion = ''0.2'', eg_BuildID = bs_BuildID (ev_Build (hd es)),
          eg_Nodes = Some (sort_key gn_ProcessKey nodes),
          eg_Edges = Some (sort_key ge_Sequence (map (relabel nodeMap') edges))\<rparr>)"
  by (cases es) (simp_all add: BuildGraph_def del: graph_loop.simps)

lemma BuildGraph_spec:
  assumes order: "permutes order"
  shows "BuildGraph order es = Inr g \<longleftrightarrow> es \<noteq> [] \<and> graphable es \<and> g = graph_of es"
proof (cases "es \<noteq> [] \<and> graphable es")
  case False
  then show ?thesis
    by (cases es)
      (auto simp: BuildGraph_def and_then_eq_Inr graph_loop_iff graphable_iff simp del: graph_loop.simps processes_simps)
next
  case True
  let ?m = "node_map es"
  let ?ks = "order (map fst ?m)"
  let ?o = "\<lambda>n. n\<lparr>gn_ParentObservation := parent_observation ?m n\<rparr>"
  have loop: "graph_loop es [] [] = Inr (?m, all_edges es)"
    using True by (simp add: graph_loop_iff graphable_iff agree_map_def map_get_def node_map_def map_lit_def)
  have ms: "mset ?ks = mset (map fst ?m)" using order by (simp add: permutes_def)
  then have set_ks: "set ?ks = fst ` set ?m" and dist: "distinct ?ks"
    using map_wf_distinct [of ?m] mset_eq_imp_distinct_iff by (metis list.set_map mset_eq_setD, metis node_map_wf)
  have get: "map_get ?m k \<noteq> None" if "k \<in> set ?ks" for k
    using that set_ks by (auto simp: map_get_def map_of_eq_None_iff)
  obtain m' where obs: "observe_loop ?ks ?m [] = (m', map (\<lambda>k. ?o (the (map_get ?m k))) ?ks)"
    and dom: "\<And>k. map_get m' k = None \<longleftrightarrow> map_get ?m k = None"
    using observe_loop_eq [of ?m ?ks ?m "[]"] dist get by auto
  have entries: "map (\<lambda>k. ?o (the (map_get ?m k))) (map fst ?m) = map (\<lambda>(k, n). observed_node es n) ?m"
  proof -
    have "?o (the (map_get ?m k)) = observed_node es n" if "(k, n) \<in> set ?m" for k n
    proof -
      have "map_get ?m k = Some n" using that by (simp add: map_get_eq_Some)
      moreover have "parent_observation ?m n = gn_ParentObservation (observed_node es n)"
      proof (cases "map_get ?m (gn_ParentKey n)")
        case None
        then show ?thesis using node_map_get_None [of es "gn_ParentKey n"]
          by (simp add: parent_observation_def observed_node_def zero_node_def)
      next
        case (Some q)
        then have "(gn_ParentKey n, q) \<in> set ?m" by (simp add: map_get_eq_Some)
        from node_map_entry [OF this] Some show ?thesis using node_map_get_None [of es "gn_ParentKey n"]
          by (simp add: parent_observation_def observed_node_def)
      qed
      ultimately show ?thesis by (simp add: observed_node_def)
    qed
    then show ?thesis by auto
  qed
  have nodes: "sort_key gn_ProcessKey (map (\<lambda>k. ?o (the (map_get ?m k))) ?ks)
      = map (\<lambda>(k, n). observed_node es n) ?m"
  proof (rule sort_key_unique)
    show "mset (map (\<lambda>k. ?o (the (map_get ?m k))) ?ks) = mset (map (\<lambda>(k, n). observed_node es n) ?m)"
      unfolding entries [symmetric] using ms by (simp add: image_mset.compositionality)
    have keys: "map gn_ProcessKey (map (\<lambda>(k, n). observed_node es n) ?m) = map fst ?m"
      using node_map_entry [of _ _ es] by (auto simp: observed_node_def)
    show "sorted_wrt (<) (map gn_ProcessKey (map (\<lambda>(k, n). observed_node es n) ?m))"
      unfolding keys using node_map_wf [of es] by (simp only: map_wf_def)
  qed
  have edges: "map (relabel m') (all_edges es) = map (edge_of es) (all_edges es)"
    using node_map_get_None [of es] by (simp add: relabel_def edge_of_def dom)
  have "BuildGraph order es = Inr (graph_of es)"
    using True unfolding BuildGraph_loop [of es order, OF conjunct1 [OF True]] loop
    by (simp only: and_then_simps obs prod.case Let_def nodes edges graph_of_def)
  with True show ?thesis by auto
qed

text \<open>The graph of events that can be written can be written.\<close>

lemma event_edges_evidence: "d \<in> set (event_edges e p) \<Longrightarrow> ge_Evidence d = None \<or> ge_Evidence d = ev_Resource e"
  by (auto simp: event_edges_def zero_edge_def split: if_splits)

lemma set_all_edges:
  "d \<in> set (all_edges es) \<longleftrightarrow> (\<exists>e \<in> set es. \<exists>p. ev_Process e = Some p \<and> d \<in> set (event_edges e p))"
  by (induction es) (auto simp: all_edges_def split: option.splits)

lemma edge_ok_edge_of: "edge_ok (edge_of es d) = edge_ok d"
  by (simp add: edge_of_def edge_ok_def)

lemma graph_of_ok: "\<forall>e \<in> set es. event_ok e \<Longrightarrow> graph_ok (graph_of es)"
proof -
  assume ok: "\<forall>e \<in> set es. event_ok e"
  have "edge_ok d" if d: "d \<in> set (all_edges es)" for d
  proof -
    obtain e p where "e \<in> set es" "ev_Process e = Some p" "d \<in> set (event_edges e p)"
      using d by (auto simp: set_all_edges)
    then show ?thesis
      using ok event_edges_evidence [of d e p] by (auto simp: edge_ok_def event_ok_def)
  qed
  then show ?thesis by (auto simp: graph_ok_def graph_of_def edge_ok_edge_of)
qed

text \<open>An accepted stream has only events that can be written.\<close>

lemma parsed_ok: "ParseEventStream raw = Inr es \<Longrightarrow> e \<in> set es \<Longrightarrow> valid_event e"
  by (auto simp: ParseEventStream_iff line_of_def list_all2_conv_all_nth in_set_conv_nth)

end
