(* ===== verification/Limits.thy ===== *)
theory Limits
  imports Graph
begin

text \<open>
  Bounds on the canonical text and the shape of a value that are computed from the value itself,
  without sorting keys or escaping strings: a value within \<open>weight\<close>, \<open>fits_raw\<close> and \<open>nvals\<close> is
  written to a document the strict decoder accepts. A byte of a string takes at most three bytes
  as valid UTF-8 (an invalid byte becomes U+FFFD) and at most six bytes of JSON each.
\<close>

fun weight :: "json \<Rightarrow> nat" where
  "weight (JStr s) = 18 * length s + 2"
| "weight (JNum l) = length l"
| "weight (JArr xs) = 2 + sum_list (map (\<lambda>x. Suc (weight x)) xs)"
| "weight (JObj ms) = 2 + sum_list (map (\<lambda>(k, v). 18 * length k + 4 + weight v) ms)"
| "weight j = 5"

fun fits_raw :: "nat \<Rightarrow> json \<Rightarrow> bool" where
  "fits_raw d (JStr s) \<longleftrightarrow> d \<le> maxDepth \<and> 3 * length s \<le> maxStringBytes"
| "fits_raw d (JArr xs) \<longleftrightarrow> d \<le> maxDepth \<and> (\<forall>x \<in> set xs. fits_raw (d + 1) x)"
| "fits_raw d (JObj ms) \<longleftrightarrow> d \<le> maxDepth \<and>
     (\<forall>(k, v) \<in> set ms. 3 * length k \<le> maxStringBytes \<and> fits_raw (d + 1) v)"
| "fits_raw d j \<longleftrightarrow> d \<le> maxDepth"

section \<open>Strings\<close>

lemma utf8_next_bound: "length (fst (utf8_next (a # s))) + 3 * length (snd (utf8_next (a # s))) \<le> 3 * length (a # s)"
proof (cases "utf8_len (a # s) = 0")
  case True
  then show ?thesis by (simp add: utf8_next_def Let_def replacement_def del: utf8_len.simps)
next
  case False
  then show ?thesis using utf8_len_le [of "a # s"] by (simp add: utf8_next_def Let_def del: utf8_len.simps)
qed

lemma length_sanitize: "length (sanitize s) \<le> 3 * length s"
proof (induction s rule: sanitize.induct)
  case (2 a s)
  then show ?case using utf8_next_bound [of a s] by simp
qed simp

lemma length_escape: "length (escape c) \<le> 6"
  by (simp add: escape_def)

lemma length_escape_rune:
  "length (escape_rune (a # s)) + 6 * length (snd (utf8_next (a # s))) \<le> 6 * length (a # s)"
proof (cases "utf8_len (a # s) = 0")
  case True
  then show ?thesis by (simp add: utf8_next_def Let_def escape_rune_def del: utf8_len.simps)
next
  case False
  then have "length (escape_rune (a # s)) \<le> 6 * utf8_len (a # s)"
    using utf8_len_le [of "a # s"] by (simp add: escape_rune_def Let_def del: utf8_len.simps)
  then show ?thesis using False utf8_len_le [of "a # s"] by (simp add: utf8_next_def Let_def del: utf8_len.simps)
qed

lemma length_quote_body: "length (quote_body s) \<le> 6 * length s"
proof (induction s rule: quote_body.induct)
  case (2 a s)
  then show ?case using length_escape [of a] length_escape_rune [of a s] by (auto simp del: utf8_len.simps)
qed simp

lemma length_quote: "length (quote s) \<le> 6 * length s + 2"
  using length_quote_body [of s] by (simp add: quote_def)

lemma length_quote_sanitize: "length (quote (sanitize s)) \<le> 18 * length s + 2"
  using length_quote [of "sanitize s"] length_sanitize [of s] by simp

section \<open>Documents\<close>

text \<open>The members that stay when keys are sorted are some of the members there were.\<close>

lemma sum_map_put:
  fixes g :: "string \<times> 'v \<Rightarrow> nat"
  shows "sum_list (map g (map_put k v m)) \<le> g (k, v) + sum_list (map g m)"
  by (induction k v m rule: map_put.induct) auto

lemma sum_map_lit:
  fixes g :: "string \<times> 'v \<Rightarrow> nat"
  shows "sum_list (map g (map_lit xs)) \<le> sum_list (map g xs)"
proof (induction xs rule: rev_induct)
  case (snoc x xs)
  obtain k v where x: "x = (k, v)" by force
  have "sum_list (map g (map_put k v (map_lit xs))) \<le> g (k, v) + sum_list (map g (map_lit xs))"
    by (rule sum_map_put)
  with snoc show ?case by (simp add: x map_lit_snoc)
qed (simp add: map_lit_def)

lemma sum_list_bound: "(\<And>x. x \<in> set xs \<Longrightarrow> f x \<le> (g x :: nat)) \<Longrightarrow> sum_list (map f xs) \<le> sum_list (map g xs)"
  by (induction xs) (auto intro: add_mono)

lemma length_join: "length (join [c] xs) \<le> sum_list (map (\<lambda>x. Suc (length x)) xs)"
  by (induction xs) (auto simp: join_Cons)

lemma canon_induct [case_names Arr Obj Leaf]:
  assumes "\<And>xs. (\<And>x. x \<in> set xs \<Longrightarrow> P x) \<Longrightarrow> P (JArr xs)"
    "\<And>ms. (\<And>k v. (k, v) \<in> set ms \<Longrightarrow> P v) \<Longrightarrow> P (JObj ms)"
    "\<And>j. (\<And>xs. j \<noteq> JArr xs) \<Longrightarrow> (\<And>ms. j \<noteq> JObj ms) \<Longrightarrow> P j"
  shows "P j"
proof (induction j rule: clean.induct)
  case (2 xs)
  then show ?case using assms(1) by blast
next
  case (3 ms)
  then show ?case using assms(2) by (metis prod.inject)
qed (use assms(3) in auto)

lemma length_marshal_canon: "length (marshal (canon j)) \<le> weight j"
proof (induction j rule: canon_induct)
  case (Arr xs)
  have "length (marshal (canon (JArr xs))) \<le> 2 + sum_list (map (\<lambda>x. Suc (length x)) (map (\<lambda>x. marshal (canon x)) xs))"
    using length_join [of "CHR '',''" "map (\<lambda>x. marshal (canon x)) xs"]
    by (simp add: canon_simps comp_def)
  also have "\<dots> \<le> weight (JArr xs)" using Arr by (simp add: comp_def) (intro sum_list_bound, simp)
  finally show ?case .
next
  case (Obj ms)
  let ?w = "\<lambda>(k, v). quote k @ CHR '':'' # marshal v"
  let ?ms = "map (\<lambda>(k, v). (sanitize k, canon v)) ms"
  have "length (marshal (canon (JObj ms))) \<le> 2 + sum_list (map (\<lambda>x. Suc (length x)) (map ?w (map_lit ?ms)))"
    using length_join [of "CHR '',''" "map ?w (map_lit ?ms)"] by (simp add: canon_JObj)
  also have "\<dots> \<le> 2 + sum_list (map (\<lambda>m. Suc (length (?w m))) ?ms)"
    using sum_map_lit [of "\<lambda>m. Suc (length (?w m))" ?ms] by (simp add: comp_def)
  also have "\<dots> \<le> weight (JObj ms)"
  proof -
    have "Suc (length (?w (sanitize k, canon v))) \<le> 18 * length k + 4 + weight v" if "(k, v) \<in> set ms" for k v
      using Obj [OF that] length_quote_sanitize [of k] by simp
    then have "sum_list (map (\<lambda>m. Suc (length (?w m))) ?ms) \<le>
        sum_list (map (\<lambda>(k, v). 18 * length k + 4 + weight v) ms)"
      unfolding map_map by (intro sum_list_bound) auto
    then show ?thesis by simp
  qed
  finally show ?case .
next
  case (Leaf j)
  then show ?case using length_quote_sanitize by (cases j) (auto simp: canon_simps)
qed

lemma nvals_canon: "nvals (canon j) \<le> nvals j"
proof (induction j rule: canon_induct)
  case (Arr xs)
  then show ?case by (simp add: canon_simps comp_def sum_list_bound)
next
  case (Obj ms)
  let ?ms = "map (\<lambda>(k, v). (sanitize k, canon v)) ms"
  have "sum_list (map (\<lambda>(k, v). nvals v) (map_lit ?ms)) \<le> sum_list (map (\<lambda>(k, v). nvals v) ?ms)"
    by (rule sum_map_lit)
  also have "\<dots> \<le> sum_list (map (\<lambda>(k, v). nvals v) ms)"
    unfolding map_map by (intro sum_list_bound) (use Obj in auto)
  finally show ?case by (simp add: canon_JObj)
next
  case (Leaf j)
  then show ?case by (cases j) (auto simp: canon_simps)
qed

lemma fits_canon: "fits_raw d j \<Longrightarrow> fits d (canon j)"
proof (induction j arbitrary: d rule: canon_induct)
  case (Arr xs)
  then show ?case by (auto simp: canon_simps)
next
  case (Obj ms)
  let ?ms = "map (\<lambda>(k, v). (sanitize k, canon v)) ms"
  have "length k \<le> maxStringBytes \<and> fits (d + 1) v" if "(k, v) \<in> set (map_lit ?ms)" for k v
  proof -
    from that set_map_lit [of ?ms] obtain k' v' where kv: "(k', v') \<in> set ms" "k = sanitize k'" "v = canon v'"
      by auto
    then have "3 * length k' \<le> maxStringBytes" "fits_raw (d + 1) v'" using Obj.prems by auto
    then show ?thesis using Obj.IH [OF kv(1)] length_sanitize [of k'] kv by simp
  qed
  then show ?case using Obj.prems map_wf_distinct [of "map_lit ?ms"] by (auto simp: canon_JObj)
next
  case (Leaf j)
  show ?case
  proof (cases j)
    case (JStr s)
    then show ?thesis using Leaf.prems length_sanitize [of s] by (simp add: canon_simps)
  qed (use Leaf in \<open>auto simp: canon_simps\<close>)
qed

text \<open>What is written for a value within these bounds is accepted.\<close>

definition small :: "nat \<Rightarrow> json \<Rightarrow> bool" where
  "small limit j \<longleftrightarrow> weight j \<le> limit \<and> fits_raw 0 j \<and> nvals j \<le> maxValues"

lemma small_length: "small limit j \<Longrightarrow> length (marshal (canon j)) \<le> limit"
  using length_marshal_canon [of j] by (simp add: small_def)

lemma small_shape: "small limit j \<Longrightarrow> shape_ok (canon j)"
  using nvals_canon [of j] fits_canon [of 0 j] by (simp add: small_def shape_ok_def)

lemma small_event: "small maxEventBytes (enc_event e) \<Longrightarrow> event_fits e"
  by (simp add: event_fits_def small_length small_shape)

context codec
begin

lemma decodeStrict_small:
  "ok x \<Longrightarrow> small limit (enc x) \<Longrightarrow> decodeStrict dec (marshal (canon (enc x))) zero limit = Inr (norm x)"
  by (rule decodeStrict_canonical) (simp_all add: canonical_enc small_length small_shape)

end

end
