(* ===== verification/Verify.thy ===== *)
theory Verify
  imports Limits
begin

text \<open>
  \<open>internal/rpf/verify.go\<close> without its file functions, and \<open>local_provenance.go\<close>: the assembly of
  an evidence bundle, the verification of a bundle against the inputs it was made from, the
  identity in an SLSA provenance statement, the policy's rules on behaviour, and the provenance of
  the local fixture. \<open>order\<close> is the iteration order of \<open>BuildGraph\<close>.
\<close>

section \<open>Dynamic values\<close>

definition as_map :: "any option \<Rightarrow> any gomap option" where
  "as_map v = (case v of Some (AMap m) \<Rightarrow> Some m | _ \<Rightarrow> None)"

definition as_list :: "any option \<Rightarrow> any list option" where
  "as_list v = (case v of Some (AList xs) \<Rightarrow> Some xs | _ \<Rightarrow> None)"

text \<open>\<open>s, _ := v.(string)\<close>.\<close>

definition as_string :: "any option \<Rightarrow> string" where
  "as_string v = (case v of Some (AString s) \<Rightarrow> s | _ \<Rightarrow> [])"

definition toMap :: "json \<Rightarrow> any gomap option result" where
  "toMap value =
     and_then (canonical value) (\<lambda>raw. decodeStrict (dec_map dec_any ANil) raw None maxDocumentBytes)"

definition canonicalEqual :: "json \<Rightarrow> json \<Rightarrow> bool" where
  "canonicalEqual left right =
     (case (canonical left, canonical right) of (Inr a, Inr b) \<Rightarrow> a = b | _ \<Rightarrow> False)"

section \<open>Inputs and bundles\<close>

record Inputs =
  ip_ArtifactBytes :: bytes
  ip_ArtifactName :: string
  ip_EventBytes :: bytes
  ip_ProvenanceBytes :: bytes
  ip_PolicyBytes :: bytes

record Bundle =
  bd_Graph :: ExecutionGraph
  bd_Manifest :: Manifest
  bd_RuntimeTrace :: Statement

section \<open>Provenance\<close>

fun resolvedSourceMatches :: "any list \<Rightarrow> SourceIdentity \<Rightarrow> bool" where
  "resolvedSourceMatches [] source = False"
| "resolvedSourceMatches (raw # dependencies) source =
     (case as_map (Some raw) of
        None \<Rightarrow> resolvedSourceMatches dependencies source
      | Some dependency \<Rightarrow>
          if map_get dependency ''uri'' \<noteq> Some (AString (src_Repository source)) then
            resolvedSourceMatches dependencies source
          else
            (case as_map (map_get dependency ''digest'') of
               None \<Rightarrow> resolvedSourceMatches dependencies source
             | Some digest \<Rightarrow>
                 if map_get digest ''gitCommit'' = Some (AString (src_Revision source)) then True
                 else resolvedSourceMatches dependencies source))"

text \<open>
  A comparison of an \<open>any\<close> with a string is true only for a string of that value. Reading from a
  map that is missing reads from \<open>nil\<close>.
\<close>

definition provenanceIdentity :: "Statement \<Rightarrow> Correlation result" where
  "provenanceIdentity statement =
     (let predicate = elems (st_Predicate statement) in
      case as_map (map_get predicate ''buildDefinition'') of
        None \<Rightarrow> Inl (ProvenanceErr NoBuildDefinition)
      | Some rawDefinition \<Rightarrow>
      (case as_map (map_get rawDefinition ''internalParameters'') of
        None \<Rightarrow> Inl (ProvenanceErr NoInternalParameters)
      | Some rawInternal \<Rightarrow>
      (case map_get rawInternal BuildIdentityKey of
        None \<Rightarrow> Inl (ProvenanceErr NoBuildIdentity)
      | Some rawIdentity \<Rightarrow>
          and_then (canonical (enc_any rawIdentity)) (\<lambda>raw.
          and_then (wrap InBuildIdentity (decodeStrict dec_correlation raw zero_correlation maxDocumentBytes)) (\<lambda>identity.
          (if co_BuildID identity = [] \<or> co_BuilderID identity = [] \<or>
              ri_RunID (co_RunIdentity identity) = [] \<or> src_Revision (co_Source identity) = [] then
             Inl (ProvenanceErr IdentityIncomplete)
           else
             (let buildType = as_string (map_get rawDefinition ''buildType'');
                  external = as_map (map_get rawDefinition ''externalParameters'');
                  resolved = as_list (map_get rawDefinition ''resolvedDependencies'');
                  runDetails = as_map (map_get predicate ''runDetails'') in
              if buildType = [] \<or> external = None \<or> resolved = None \<or> runDetails = None then
                Inl (ProvenanceErr StructureIncomplete)
              else if map_get (elems external) ''repository'' \<noteq> Some (AString (src_Repository (co_Source identity))) \<or>
                      map_get (elems external) ''revision'' \<noteq> Some (AString (src_Revision (co_Source identity))) then
                Inl (ProvenanceErr ExternalConflict)
              else if \<not> resolvedSourceMatches (elems resolved) (co_Source identity) then
                Inl (ProvenanceErr DependenciesOmitSource)
              else
                (let builder = as_map (map_get (elems runDetails) ''builder'');
                     metadata = as_map (map_get (elems runDetails) ''metadata'');
                     builderID = as_string (map_get (elems builder) ''id'');
                     invocationID = as_string (map_get (elems metadata) ''invocationId'');
                     startedOn = as_string (map_get (elems metadata) ''startedOn'');
                     finishedOn = as_string (map_get (elems metadata) ''finishedOn'') in
                 if builder = None \<or> metadata = None \<or> builderID \<noteq> co_BuilderID identity \<or>
                    invocationID \<noteq> ri_RunID (co_RunIdentity identity) \<or> startedOn = [] \<or> finishedOn = [] then
                   Inl (ProvenanceErr RunDetailsConflict)
                 else Inr identity))))))))"

section \<open>Evidence about the artifact and the losses\<close>

text \<open>Only the first \<open>artifact_finalized\<close> event counts.\<close>

fun verifyArtifactObservation :: "Event list \<Rightarrow> string \<Rightarrow> unit result" where
  "verifyArtifactObservation [] artifactHash = Inl (VerifyErr FinalizationNotObserved)"
| "verifyArtifactObservation (event # events) artifactHash =
     (if ev_Operation event \<noteq> ''artifact_finalized'' then verifyArtifactObservation events artifactHash
      else if as_string (resource_get event ''sha256'') \<noteq> artifactHash then
        Inl (VerifyErr FinalizationDigestDiffers)
      else if ev_Process event = None then Inl (VerifyErr FinalizationLacksProcess)
      else Inr ())"

text \<open>Reading a missing key of the digest map gives the empty string.\<close>

fun subjectMatches :: "Subject list \<Rightarrow> string \<Rightarrow> string \<Rightarrow> bool" where
  "subjectMatches [] name digest = False"
| "subjectMatches (subject # subjects) name digest =
     (if sb_Name subject = name \<and>
         (case map_get (elems (sb_Digest subject)) ''sha256'' of None \<Rightarrow> [] | Some d \<Rightarrow> d) = digest
      then True else subjectMatches subjects name digest)"

definition uintResource :: "any gomap option \<Rightarrow> string \<Rightarrow> uint64" where
  "uintResource resource key =
     (case map_get (elems resource) key of
        Some (ANumber l) \<Rightarrow>
          (case parse_int l of Some i \<Rightarrow> if 0 \<le> i then of_int i else 1 | None \<Rightarrow> 1)
      | _ \<Rightarrow> 1)"

definition boolResource :: "any gomap option \<Rightarrow> string \<Rightarrow> bool" where
  "boolResource resource key =
     (case map_get (elems resource) key of Some (ABool b) \<Rightarrow> b | _ \<Rightarrow> True)"

definition lossFromFinalEvent :: "Event \<Rightarrow> Loss" where
  "lossFromFinalEvent event =
     (if ev_Operation event \<noteq> ''sensor_finalized'' then zero_loss\<lparr>ls_CounterReadError := True\<rparr>
      else
        (let r = ev_Resource event in
         \<lparr>ls_KernelReserve = uintResource r ''kernel_reserve'',
          ls_KernelCorrelation = uintResource r ''kernel_correlation'',
          ls_Decode = uintResource r ''decode'', ls_Queue = uintResource r ''queue'',
          ls_Persistence = uintResource r ''persistence'',
          ls_CounterReadError = boolResource r ''counter_read_error''\<rparr>))"

section \<open>Assemble\<close>

definition assemble_manifest :: "Inputs \<Rightarrow> Event list \<Rightarrow> Correlation \<Rightarrow> string \<Rightarrow> Manifest" where
  "assemble_manifest inputs events identity graphHash =
     \<lparr>mf_SchemaVersion = ManifestSchema, mf_BuildID = co_BuildID identity,
      mf_RunIdentity = co_RunIdentity identity, mf_Source = co_Source identity,
      mf_EventStream =
        \<lparr>sc_SHA256 = Digest (ip_EventBytes inputs), sc_FirstSequence = ev_Sequence (hd events),
         sc_LastSequence = ev_Sequence (last events), sc_EventCount = of_nat (length events)\<rparr>,
      mf_Loss = lossFromFinalEvent (last events),
      mf_Lifecycle =
        \<lparr>lc_Started = (ev_Operation (hd events) = ''sensor_started''),
         lc_Finalized = (ev_Operation (last events) = ''sensor_finalized'')\<rparr>,
      mf_ExecutionGraphSHA256 = graphHash,
      mf_Artifact = \<lparr>ar_Name = ip_ArtifactName inputs, ar_SHA256 = Digest (ip_ArtifactBytes inputs)\<rparr>,
      mf_PolicySHA256 = Digest (ip_PolicyBytes inputs),
      mf_SensorConfigSHA256 = sn_ConfigDigest (ev_Sensor (hd events))\<rparr>"

definition assemble_correlation :: "Inputs \<Rightarrow> Correlation \<Rightarrow> Manifest \<Rightarrow> string \<Rightarrow> string \<Rightarrow> Correlation" where
  "assemble_correlation inputs identity manifest manifestHash graphHash =
     zero_correlation\<lparr>co_BuildID := co_BuildID identity, co_RunIdentity := co_RunIdentity identity,
       co_Source := co_Source identity, co_EvidenceManifestHash := manifestHash,
       co_ExecutionGraphHash := graphHash, co_SLSAProvenanceHash := Digest (ip_ProvenanceBytes inputs),
       co_PolicyHash := Digest (ip_PolicyBytes inputs), co_Completeness := completeness manifest\<rparr>"

definition assemble_trace :: "Inputs \<Rightarrow> Event list \<Rightarrow> Correlation \<Rightarrow> ExecutionGraph \<Rightarrow> any gomap option \<Rightarrow> Statement" where
  "assemble_trace inputs events identity graph correlationMap =
     \<lparr>st_Type = StatementType,
      st_Subject = Some
        [\<lparr>sb_Name = ip_ArtifactName inputs,
          sb_Digest = Some (map_lit [(''sha256'', Digest (ip_ArtifactBytes inputs))])\<rparr>],
      st_PredicateType = RuntimePredicate,
      st_Predicate = Some (map_lit
        [(''monitor'', AMap (map_lit
            [(''type'', AString ''https://github.com/adilalperenciftci/runtime-provenance-firewall/sensor/v0.1'')])),
         (''monitoredProcess'', AMap (map_lit
            [(''hostID'', AString (''urn:uuid:'' @ bs_BootID (ev_Build (hd events)))),
             (''type'', AString ''https://slsa.dev/build/v1''),
             (''event'', AString (ri_RunID (co_RunIdentity identity)))])),
         (''monitorLog'', AMap (map_lit [(''process'', AStruct (enc_slice enc_node (eg_Nodes graph)))])),
         (CorrelationKey, (case correlationMap of None \<Rightarrow> ANil | Some m \<Rightarrow> AMap m))])\<rparr>"

definition Assemble :: "(string list \<Rightarrow> string list) \<Rightarrow> Inputs \<Rightarrow> Bundle result" where
  "Assemble order inputs =
     and_then (ParseEventStream (ip_EventBytes inputs)) (\<lambda>events.
     and_then (wrap InPolicy (decodePolicy (ip_PolicyBytes inputs))) (\<lambda>_.
     and_then (wrap InProvenance (decodeStatement (ip_ProvenanceBytes inputs))) (\<lambda>provenance.
     if st_PredicateType provenance \<noteq> SLSAPredicate then
       Inl (VerifyErr (UnexpectedPredicate (st_PredicateType provenance)))
     else
     and_then (provenanceIdentity provenance) (\<lambda>identity.
     if co_BuildID identity \<noteq> bs_BuildID (ev_Build (hd events)) \<or>
        ri_RunID (co_RunIdentity identity) \<noteq> bs_RunID (ev_Build (hd events)) then
       Inl (VerifyErr BuildIdentityMismatch)
     else if co_Source identity \<noteq> bs_Source (ev_Build (hd events)) then
       Inl (VerifyErr SourceIdentityMismatch)
     else if \<not> subjectMatches (elems (st_Subject provenance)) (ip_ArtifactName inputs)
                (Digest (ip_ArtifactBytes inputs)) then
       Inl (VerifyErr SubjectMismatch)
     else
     and_then (verifyArtifactObservation events (Digest (ip_ArtifactBytes inputs))) (\<lambda>_.
     and_then (BuildGraph order events) (\<lambda>graph.
     and_then (canonicalDigest (enc_graph graph)) (\<lambda>graphHash.
     let manifest = assemble_manifest inputs events identity graphHash in
     and_then (canonicalDigest (enc_manifest manifest)) (\<lambda>manifestHash.
     and_then (toMap (enc_correlation (assemble_correlation inputs identity manifest manifestHash graphHash)))
       (\<lambda>correlationMap.
     Inr \<lparr>bd_Graph = graph, bd_Manifest = manifest,
          bd_RuntimeTrace = assemble_trace inputs events identity graph correlationMap\<rparr>)))))))))"

section \<open>Verify\<close>

definition reason :: "string \<Rightarrow> string \<Rightarrow> string \<Rightarrow> uint64 \<Rightarrow> Reason" where
  "reason code effect message sequence =
     \<lparr>re_Code = code, re_Effect = effect, re_Message = message, re_Sequence = sequence\<rparr>"

text \<open>The rules of \<open>behaviorReasons\<close> on one event.\<close>

definition event_reasons :: "Policy \<Rightarrow> Event \<Rightarrow> Reason list" where
  "event_reasons policy event =
     (let op = ev_Operation event in
      if op = ''process_exec'' then
        (case ev_Process event of
           None \<Rightarrow> []
         | Some p \<Rightarrow>
             if ex_Path (pr_Executable p) \<notin> set (elems (po_AllowedExecutables policy)) then
               [reason ''RPF-PROCESS-001'' ''REVIEW'' ''executable is not declared by policy'' (ev_Sequence event)]
             else [])
      else if op = ''network_connect'' then
        (let destination = as_string (resource_get event ''destination'') in
         if destination = [] \<or> destination \<notin> set (elems (po_AllowedNetworkDestinations policy)) then
           [reason ''RPF-EGRESS-001'' ''REJECT'' ''network destination is not declared by policy'' (ev_Sequence event)]
         else [])
      else if op = ''file_open_sensitive'' then
        (let category = as_string (resource_get event ''category'') in
         if category = [] \<or> category \<in> set (elems (po_ForbiddenSensitiveCategories policy)) then
           [reason ''RPF-SENSITIVE-001'' ''REJECT'' ''forbidden sensitive-path category was accessed'' (ev_Sequence event)]
         else [])
      else if op = ''artifact_finalized'' then
        (if (case ev_Process event of
               None \<Rightarrow> True
             | Some p \<Rightarrow> ex_Path (pr_Executable p) \<notin> set (elems (po_AllowedArtifactProducers policy))) then
           [reason ''RPF-ARTIFACT-PRODUCER-001'' ''REJECT''
              ''artifact-producing executable is not authorized by policy'' (ev_Sequence event)]
         else [])
      else [])"

definition behaviorReasons :: "Event list \<Rightarrow> Policy \<Rightarrow> Reason list" where
  "behaviorReasons events policy = concat (map (event_reasons policy) events)"

text \<open>The loop that turns reasons into a decision; it stops at the first \<open>REJECT\<close>.\<close>

fun decide :: "Reason list \<Rightarrow> string \<Rightarrow> string" where
  "decide [] decision = decision"
| "decide (r # reasons) decision =
     (if re_Effect r = ''REJECT'' then ''REJECT''
      else decide reasons (if re_Effect r = ''REVIEW'' then ''REVIEW'' else decision))"

text \<open>Reasons in the order in which \<open>Verify\<close> appends them.\<close>

definition binding_reasons :: "Bundle \<Rightarrow> Bundle \<Rightarrow> Correlation \<Rightarrow> Reason list" where
  "binding_reasons bundle recomputed identity =
     (if \<not> canonicalEqual (enc_graph (bd_Graph bundle)) (enc_graph (bd_Graph recomputed)) then
        [reason ''RPF-INTEGRITY-001'' ''REJECT'' ''execution graph differs from event-derived graph'' 0] else []) @
     (if \<not> canonicalEqual (enc_manifest (bd_Manifest bundle)) (enc_manifest (bd_Manifest recomputed)) then
        [reason ''RPF-INTEGRITY-002'' ''REJECT'' ''evidence manifest differs from recomputed commitments'' 0] else []) @
     (if \<not> canonicalEqual (enc_statement (bd_RuntimeTrace bundle)) (enc_statement (bd_RuntimeTrace recomputed)) then
        [reason ''RPF-INTEGRITY-003'' ''REJECT'' ''runtime trace differs from artifact/evidence/provenance binding'' 0] else []) @
     (if co_BuildID identity \<noteq> mf_BuildID (bd_Manifest bundle) \<or>
         co_RunIdentity identity \<noteq> mf_RunIdentity (bd_Manifest bundle) then
        [reason ''RPF-IDENTITY-001'' ''REJECT'' ''SLSA provenance identity differs from runtime evidence'' 0] else [])"

definition policy_reasons :: "Policy \<Rightarrow> Correlation \<Rightarrow> string \<Rightarrow> Reason list" where
  "policy_reasons policy identity state =
     (if state \<noteq> ''complete'' then
        [reason ''RPF-EVIDENCE-001'' (po_IncompleteDecision policy) (''runtime evidence is '' @ state) 0] else []) @
     (if ri_Provider (co_RunIdentity identity) \<noteq> po_ExpectedProvider policy then
        [reason ''RPF-CI-001'' ''REJECT'' ''CI provider is not authorized by policy'' 0] else []) @
     (if co_BuilderID identity \<notin> set (elems (po_AllowedBuilderIDs policy)) then
        [reason ''RPF-BUILDER-001'' ''REJECT'' ''provenance builder identity is not authorized by policy'' 0] else []) @
     (if src_Repository (co_Source identity) \<notin> set (elems (po_AllowedRepositories policy)) then
        [reason ''RPF-SOURCE-001'' ''REJECT'' ''source repository identity is not authorized by policy'' 0] else [])"

definition Verify :: "(string list \<Rightarrow> string list) \<Rightarrow> Inputs \<Rightarrow> Bundle \<Rightarrow> Decision result" where
  "Verify order inputs bundle =
     and_then (ParseEventStream (ip_EventBytes inputs)) (\<lambda>events.
     and_then (decodePolicy (ip_PolicyBytes inputs)) (\<lambda>policy.
     and_then (decodeStatement (ip_ProvenanceBytes inputs)) (\<lambda>provenance.
     and_then (provenanceIdentity provenance) (\<lambda>identity.
     let state = completeness (bd_Manifest bundle) in
     if ar_SHA256 (mf_Artifact (bd_Manifest bundle)) \<noteq> Digest (ip_ArtifactBytes inputs) then
       Inr \<lparr>de_Decision = ''REJECT'', de_Completeness = state,
            de_Reasons = Some [reason ''RPF-ARTIFACT-001'' ''REJECT''
              ''artifact digest does not match evidence manifest'' 0]\<rparr>
     else
     and_then (Assemble order inputs) (\<lambda>recomputed.
     let reasons = binding_reasons bundle recomputed identity @ policy_reasons policy identity state @
           behaviorReasons events policy in
     Inr \<lparr>de_Decision = decide reasons ''ALLOW'', de_Completeness = state, de_Reasons = Some reasons\<rparr>)))))"

section \<open>The local fixture's provenance\<close>

definition LocalBuildType :: string where
  "LocalBuildType =
     ''https://github.com/adilalperenciftci/runtime-provenance-firewall/build-types/local-fixture/v0.1''"

definition LocalBuilderID :: string where
  "LocalBuilderID =
     ''https://github.com/adilalperenciftci/runtime-provenance-firewall/builders/local-fixture/v0.1''"

definition local_identity :: "Event \<Rightarrow> string \<Rightarrow> string \<Rightarrow> Correlation" where
  "local_identity first repository revision =
     zero_correlation\<lparr>co_BuildID := bs_BuildID (ev_Build first), co_BuilderID := LocalBuilderID,
       co_RunIdentity := \<lparr>ri_Provider = ''local'', ri_RunID = bs_RunID (ev_Build first), ri_Attempt = 1\<rparr>,
       co_Source := \<lparr>src_Repository = repository, src_Revision = revision\<rparr>\<rparr>"

definition CreateLocalFixtureProvenance ::
    "string \<Rightarrow> bytes \<Rightarrow> Event list \<Rightarrow> string \<Rightarrow> string \<Rightarrow> Statement result" where
  "CreateLocalFixtureProvenance artifactName artifact events repository revision =
     (if artifactName = [] \<or> artifact = [] \<or> events = [] \<or> repository = [] \<or> revision = [] then
        Inl (VerifyErr LocalInputsIncomplete)
      else
        and_then (verifyArtifactObservation events (Digest artifact)) (\<lambda>_.
          if bs_Source (ev_Build (hd events)) \<noteq> \<lparr>src_Repository = repository, src_Revision = revision\<rparr> then
            Inl (VerifyErr LocalSourceDiffers)
          else
            and_then (toMap (enc_correlation (local_identity (hd events) repository revision))) (\<lambda>identityMap.
              Inr \<lparr>st_Type = StatementType,
                st_Subject = Some [\<lparr>sb_Name = artifactName, sb_Digest = Some (map_lit [(''sha256'', Digest artifact)])\<rparr>],
                st_PredicateType = SLSAPredicate,
                st_Predicate = Some (map_lit
                  [(''buildDefinition'', AMap (map_lit
                      [(''buildType'', AString LocalBuildType),
                       (''externalParameters'', AMap (map_lit
                          [(''repository'', AString repository), (''revision'', AString revision)])),
                       (''internalParameters'', AMap (map_lit
                          [(BuildIdentityKey, (case identityMap of None \<Rightarrow> ANil | Some m \<Rightarrow> AMap m))])),
                       (''resolvedDependencies'', AList [AMap (map_lit
                          [(''uri'', AString repository),
                           (''digest'', AMap (map_lit [(''gitCommit'', AString revision)]))])])])),
                   (''runDetails'', AMap (map_lit
                      [(''builder'', AMap (map_lit [(''id'', AString LocalBuilderID)])),
                       (''metadata'', AMap (map_lit
                          [(''invocationId'', AString (bs_RunID (ev_Build (hd events)))),
                           (''startedOn'', AString (ev_ObservedAt (hd events))),
                           (''finishedOn'', AString (ev_ObservedAt (last events)))]))]))])\<rparr>)))"

end
