(* ===== verification/Verdict.thy ===== *)
theory Verdict
  imports Verify
begin

text \<open>
  What \<open>Assemble\<close> and \<open>Verify\<close> promise. The decision is specified on an ordered type of verdicts:
  the string that \<open>Verify\<close> returns is the greatest verdict of its reasons. Bundles are compared by
  canonical text, which is equality of normal forms; the commitments in a bundle determine the
  inputs up to an explicit SHA-256 collision.
\<close>

section \<open>Verdicts\<close>

datatype verdict = Allow | Review | Reject

instantiation verdict :: linorder
begin

definition verdict_rank :: "verdict \<Rightarrow> nat" where
  "verdict_rank v = (case v of Allow \<Rightarrow> 0 | Review \<Rightarrow> 1 | Reject \<Rightarrow> 2)"

definition less_eq_verdict :: "verdict \<Rightarrow> verdict \<Rightarrow> bool" where
  "less_eq_verdict a b \<longleftrightarrow> verdict_rank a \<le> verdict_rank b"

definition less_verdict :: "verdict \<Rightarrow> verdict \<Rightarrow> bool" where
  "less_verdict a b \<longleftrightarrow> verdict_rank a < verdict_rank b"

instance
  by standard (auto simp: less_eq_verdict_def less_verdict_def verdict_rank_def split: verdict.splits)

end

fun verdict_name :: "verdict \<Rightarrow> string" where
  "verdict_name Allow = ''ALLOW''"
| "verdict_name Review = ''REVIEW''"
| "verdict_name Reject = ''REJECT''"

definition reason_verdict :: "Reason \<Rightarrow> verdict" where
  "reason_verdict r =
     (if re_Effect r = ''REJECT'' then Reject else if re_Effect r = ''REVIEW'' then Review else Allow)"

definition worst :: "Reason list \<Rightarrow> verdict" where
  "worst rs = foldr (\<lambda>r v. max (reason_verdict r) v) rs Allow"

lemma verdict_le [simp]: "Allow \<le> v" "v \<le> Reject"
  by (cases v; simp add: less_eq_verdict_def verdict_rank_def)+

lemma max_verdict [simp]:
  "max Reject v = Reject" "max v Reject = Reject" "max Allow v = v" "max v Allow = v"
  by (cases v; simp add: max_def less_eq_verdict_def verdict_rank_def)+

lemma worst_simps [simp]: "worst [] = Allow" "worst (r # rs) = max (reason_verdict r) (worst rs)"
  by (simp_all add: worst_def)

lemma worst_append: "worst (xs @ ys) = max (worst xs) (worst ys)"
  by (induction xs) (simp_all add: max.assoc)

lemma decide_worst: "decide rs (verdict_name v) = verdict_name (max v (worst rs))" if "v \<noteq> Reject"
  using that
proof (induction rs arbitrary: v)
  case (Cons r rs)
  consider "re_Effect r = ''REJECT''" | "re_Effect r = ''REVIEW''" | "reason_verdict r = Allow" "re_Effect r \<noteq> ''REJECT''" "re_Effect r \<noteq> ''REVIEW''"
    by (auto simp: reason_verdict_def)
  then show ?case
  proof cases
    case 1
    then show ?thesis by (simp add: reason_verdict_def)
  next
    case 2
    have "max v (max Review w) = max Review w" for w
      using Cons.prems by (cases v; cases w) (simp_all add: max_def less_eq_verdict_def verdict_rank_def)
    with 2 Cons.IH [of Review] show ?thesis by (simp add: reason_verdict_def)
  next
    case 3
    with Cons.IH [OF Cons.prems] show ?thesis by simp
  qed
qed simp

lemma decide_ALLOW: "decide rs ''ALLOW'' = verdict_name (worst rs)"
  using decide_worst [of Allow rs] by simp

lemma verdict_name_inject [simp]: "verdict_name a = verdict_name b \<longleftrightarrow> a = b"
  by (cases a; cases b) simp_all

lemma verdict_name_eq [simp]:
  "verdict_name v = ''ALLOW'' \<longleftrightarrow> v = Allow" "verdict_name v = ''REVIEW'' \<longleftrightarrow> v = Review"
  "verdict_name v = ''REJECT'' \<longleftrightarrow> v = Reject"
  by (cases v; simp)+

lemma worst_Reject: "worst rs = Reject \<longleftrightarrow> (\<exists>r \<in> set rs. re_Effect r = ''REJECT'')"
proof (induction rs)
  case (Cons r rs)
  have "max a b = Reject \<longleftrightarrow> a = Reject \<or> b = Reject" for a b :: verdict
    by (cases a; cases b) (simp_all add: max_def less_eq_verdict_def verdict_rank_def)
  with Cons show ?case by (auto simp: reason_verdict_def)
qed simp

lemma worst_Allow: "worst rs = Allow \<longleftrightarrow> (\<forall>r \<in> set rs. re_Effect r \<noteq> ''REJECT'' \<and> re_Effect r \<noteq> ''REVIEW'')"
proof (induction rs)
  case (Cons r rs)
  have "max a b = Allow \<longleftrightarrow> a = Allow \<and> b = Allow" for a b :: verdict
    by (cases a; cases b) (simp_all add: max_def less_eq_verdict_def verdict_rank_def)
  with Cons show ?case by (auto simp: reason_verdict_def)
qed simp

text \<open>Every reason of \<open>Verify\<close> has an effect, the policy's included.\<close>

definition effective :: "Reason list \<Rightarrow> bool" where
  "effective rs \<longleftrightarrow> (\<forall>r \<in> set rs. re_Effect r \<in> {''REVIEW'', ''REJECT''})"

lemma effective_simps [simp]:
  "effective []" "effective (r # rs) \<longleftrightarrow> re_Effect r \<in> {''REVIEW'', ''REJECT''} \<and> effective rs"
  "effective (xs @ ys) \<longleftrightarrow> effective xs \<and> effective ys"
  by (auto simp: effective_def)

lemma re_Effect_reason [simp]: "re_Effect (reason c e m s) = e"
  by (simp add: reason_def)

lemma effective_binding: "effective (binding_reasons b b' i)"
  by (simp add: binding_reasons_def)

lemma effective_policy: "decodePolicy raw = Inr policy \<Longrightarrow> effective (policy_reasons policy i s)"
  by (auto simp: policy_reasons_def decodePolicy_ok_iff)

lemma effective_event: "effective (event_reasons policy e)"
  by (simp add: event_reasons_def Let_def split: option.split)

lemma effective_behavior: "effective (behaviorReasons es policy)"
  using effective_event [of policy] by (auto simp: behaviorReasons_def effective_def)

lemma effective_Allow: "effective rs \<Longrightarrow> worst rs = Allow \<longleftrightarrow> rs = []"
  unfolding worst_Allow effective_def by (cases rs) auto

section \<open>Canonical equality\<close>

lemma canonicalEqual_iff:
  "canonicalEqual l r \<longleftrightarrow> numbers_ok l \<and> numbers_ok r \<and> canon l = canon r"
proof -
  have n: "\<not> numbers_ok j \<Longrightarrow> \<exists>x. canonical j = Inl x" for j
    using canonical_ok_iff [of j] by (cases "canonical j") auto
  show ?thesis
    using n [of l] n [of r] marshal_inject [of "canon l" "canon r"]
    by (cases "numbers_ok l"; cases "numbers_ok r") (auto simp: canonicalEqual_def canonical_eq split: sum.split)
qed

lemma canonicalEqual_refl: "numbers_ok j \<Longrightarrow> canonicalEqual j j"
  by (simp add: canonicalEqual_iff)

lemma canonicalDigest_ok_iff:
  "canonicalDigest j = Inr d \<longleftrightarrow> numbers_ok j \<and> d = Digest (marshal (canon j))"
  by (auto simp: canonicalDigest_def and_then_eq_Inr canonical_ok_iff)

lemma toMap_ok_iff:
  assumes "enc = JObj ms0" "numbers_ok enc"
  shows "toMap enc = Inr m \<longleftrightarrow> length (marshal (canon enc)) \<le> maxDocumentBytes \<and> shape_ok (canon enc) \<and>
    (\<exists>ms. canon enc = JObj ms \<and> m = Some (map_vals any_of ms))"
proof -
  let ?ms = "map_lit (map (\<lambda>(k, v). (sanitize k, canon v)) ms0)"
  have c: "canon enc = JObj ?ms" using assms(1) by (simp add: canon_JObj)
  have p: "parse_json (marshal (canon enc)) = Some (canon enc, [])"
    using parse_normal [of "canon enc" "[]"] assms(2) by simp
  then have "marshal (canon enc) \<noteq> []" by (auto simp: parse_json_Nil)
  with p show ?thesis
    using assms(2)
    by (simp add: toMap_def canonical_eq decodeStrict_ok_iff) (auto simp: c dec_any_map_normal)
qed

section \<open>What Assemble returns\<close>

text \<open>The values a successful \<open>Assemble\<close> went through.\<close>

record assembly =
  as_events :: "Event list"
  as_policy :: Policy
  as_provenance :: Statement
  as_identity :: Correlation
  as_graph :: ExecutionGraph

definition as_graphHash :: "assembly \<Rightarrow> string" where
  "as_graphHash a = Digest (marshal (canon (enc_graph (as_graph a))))"

definition as_manifest :: "Inputs \<Rightarrow> assembly \<Rightarrow> Manifest" where
  "as_manifest inputs a = assemble_manifest inputs (as_events a) (as_identity a) (as_graphHash a)"

definition as_correlation :: "Inputs \<Rightarrow> assembly \<Rightarrow> Correlation" where
  "as_correlation inputs a = assemble_correlation inputs (as_identity a) (as_manifest inputs a)
     (Digest (marshal (canon (enc_manifest (as_manifest inputs a))))) (as_graphHash a)"

definition inputs_parse :: "Inputs \<Rightarrow> assembly \<Rightarrow> bool" where
  "inputs_parse inputs a \<longleftrightarrow>
     ParseEventStream (ip_EventBytes inputs) = Inr (as_events a) \<and>
     decodePolicy (ip_PolicyBytes inputs) = Inr (as_policy a) \<and>
     decodeStatement (ip_ProvenanceBytes inputs) = Inr (as_provenance a) \<and>
     provenanceIdentity (as_provenance a) = Inr (as_identity a)"

definition consistent :: "Inputs \<Rightarrow> assembly \<Rightarrow> bool" where
  "consistent inputs a \<longleftrightarrow>
     st_PredicateType (as_provenance a) = SLSAPredicate \<and>
     co_BuildID (as_identity a) = bs_BuildID (ev_Build (hd (as_events a))) \<and>
     ri_RunID (co_RunIdentity (as_identity a)) = bs_RunID (ev_Build (hd (as_events a))) \<and>
     co_Source (as_identity a) = bs_Source (ev_Build (hd (as_events a))) \<and>
     subjectMatches (elems (st_Subject (as_provenance a))) (ip_ArtifactName inputs) (Digest (ip_ArtifactBytes inputs)) \<and>
     verifyArtifactObservation (as_events a) (Digest (ip_ArtifactBytes inputs)) = Inr ()"

definition assembles :: "(string list \<Rightarrow> string list) \<Rightarrow> Inputs \<Rightarrow> assembly \<Rightarrow> Bundle \<Rightarrow> bool" where
  "assembles order inputs a b \<longleftrightarrow>
     inputs_parse inputs a \<and> consistent inputs a \<and> BuildGraph order (as_events a) = Inr (as_graph a) \<and>
     numbers_ok (enc_graph (as_graph a)) \<and>
     (\<exists>m. toMap (enc_correlation (as_correlation inputs a)) = Inr m \<and>
        b = \<lparr>bd_Graph = as_graph a, bd_Manifest = as_manifest inputs a,
             bd_RuntimeTrace = assemble_trace inputs (as_events a) (as_identity a) (as_graph a) m\<rparr>)"

abbreviation made :: "Event list \<Rightarrow> Policy \<Rightarrow> Statement \<Rightarrow> Correlation \<Rightarrow> ExecutionGraph \<Rightarrow> assembly" where
  "made events policy provenance identity graph \<equiv>
     \<lparr>as_events = events, as_policy = policy, as_provenance = provenance, as_identity = identity,
      as_graph = graph\<rparr>"

lemma Assemble_iff: "Assemble order inputs = Inr b \<longleftrightarrow> (\<exists>a. assembles order inputs a b)"
proof
  assume "Assemble order inputs = Inr b"
  then obtain events policy provenance identity graph m where
    "ParseEventStream (ip_EventBytes inputs) = Inr events" "decodePolicy (ip_PolicyBytes inputs) = Inr policy"
    "decodeStatement (ip_ProvenanceBytes inputs) = Inr provenance" "provenanceIdentity provenance = Inr identity"
    "BuildGraph order events = Inr graph" "numbers_ok (enc_graph graph)"
    "consistent inputs (made events policy provenance identity graph)"
    "toMap (enc_correlation (as_correlation inputs (made events policy provenance identity graph))) = Inr m"
    "b = \<lparr>bd_Graph = graph, bd_Manifest = as_manifest inputs (made events policy provenance identity graph),
       bd_RuntimeTrace = assemble_trace inputs events identity graph m\<rparr>"
    by (auto simp: Assemble_def and_then_eq_Inr Let_def canonicalDigest_ok_iff consistent_def as_manifest_def
        as_correlation_def as_graphHash_def)
  then have "assembles order inputs (made events policy provenance identity graph) b"
    by (simp add: assembles_def inputs_parse_def)
  then show "\<exists>a. assembles order inputs a b" by blast
next
  assume "\<exists>a. assembles order inputs a b"
  then show "Assemble order inputs = Inr b"
    by (auto simp: Assemble_def assembles_def inputs_parse_def consistent_def canonicalDigest_ok_iff Let_def
        and_then_eq_Inr as_manifest_def as_correlation_def as_graphHash_def)
qed

lemma inputs_parse_unique:
  "inputs_parse inputs a \<Longrightarrow> inputs_parse inputs a' \<Longrightarrow> as_events a = as_events a' \<and> as_policy a = as_policy a' \<and>
   as_provenance a = as_provenance a' \<and> as_identity a = as_identity a'"
  by (auto simp: inputs_parse_def)

text \<open>The decision for a bundle whose artifact digest is right, and for one where it is not.\<close>

definition verify_reasons :: "assembly \<Rightarrow> Bundle \<Rightarrow> Bundle \<Rightarrow> Reason list" where
  "verify_reasons a b recomputed =
     binding_reasons b recomputed (as_identity a) @
     policy_reasons (as_policy a) (as_identity a) (completeness (bd_Manifest b)) @
     behaviorReasons (as_events a) (as_policy a)"

definition verified :: "assembly \<Rightarrow> Bundle \<Rightarrow> Bundle \<Rightarrow> Decision" where
  "verified a b recomputed =
     \<lparr>de_Decision = verdict_name (worst (verify_reasons a b recomputed)),
      de_Completeness = completeness (bd_Manifest b), de_Reasons = Some (verify_reasons a b recomputed)\<rparr>"

definition artifact_mismatch :: "Bundle \<Rightarrow> Decision" where
  "artifact_mismatch b =
     \<lparr>de_Decision = ''REJECT'', de_Completeness = completeness (bd_Manifest b),
      de_Reasons = Some [reason ''RPF-ARTIFACT-001'' ''REJECT'' ''artifact digest does not match evidence manifest'' 0]\<rparr>"

definition artifact_bound :: "Inputs \<Rightarrow> Bundle \<Rightarrow> bool" where
  "artifact_bound inputs b \<longleftrightarrow> ar_SHA256 (mf_Artifact (bd_Manifest b)) = Digest (ip_ArtifactBytes inputs)"

lemma Verify_mismatch:
  "inputs_parse inputs a \<Longrightarrow> \<not> artifact_bound inputs b \<Longrightarrow> Verify order inputs b = Inr (artifact_mismatch b)"
  by (simp add: Verify_def inputs_parse_def Let_def artifact_mismatch_def artifact_bound_def)

lemma Verify_parsed:
  "inputs_parse inputs a \<Longrightarrow> artifact_bound inputs b \<Longrightarrow>
   Verify order inputs b = and_then (Assemble order inputs) (\<lambda>recomputed. Inr (verified a b recomputed))"
  by (simp add: Verify_def inputs_parse_def Let_def artifact_bound_def verified_def verify_reasons_def decide_ALLOW)

lemma Verify_parses: "Verify order inputs b = Inr d \<Longrightarrow> \<exists>a. inputs_parse inputs a"
proof -
  assume "Verify order inputs b = Inr d"
  then obtain events policy provenance identity where
    "ParseEventStream (ip_EventBytes inputs) = Inr events" "decodePolicy (ip_PolicyBytes inputs) = Inr policy"
    "decodeStatement (ip_ProvenanceBytes inputs) = Inr provenance" "provenanceIdentity provenance = Inr identity"
    by (auto simp: Verify_def and_then_eq_Inr)
  then have "inputs_parse inputs (made events policy provenance identity zero_graph)" by (simp add: inputs_parse_def)
  then show ?thesis by blast
qed

lemma verified_cong: "inputs_parse inputs a \<Longrightarrow> inputs_parse inputs a' \<Longrightarrow> verified a b r = verified a' b r"
  using inputs_parse_unique [of inputs a a'] by (simp add: verified_def verify_reasons_def)

lemma Verify_iff:
  "Verify order inputs b = Inr d \<longleftrightarrow>
   (\<exists>a. inputs_parse inputs a \<and> \<not> artifact_bound inputs b \<and> d = artifact_mismatch b) \<or>
   (\<exists>a recomputed. artifact_bound inputs b \<and> assembles order inputs a recomputed \<and> d = verified a b recomputed)"
proof (cases "\<exists>a. inputs_parse inputs a")
  case False
  then show ?thesis using Verify_parses [of order inputs b d] by (auto simp: assembles_def)
next
  case True
  then obtain a where a: "inputs_parse inputs a" by blast
  have "verified a' b r = verified a b r" if "assembles order inputs a' r" for a' r
    using verified_cong [OF _ a] that by (simp add: assembles_def)
  then have same: "(\<exists>a' r. assembles order inputs a' r \<and> d = verified a' b r) \<longleftrightarrow>
      (\<exists>a' r. assembles order inputs a' r \<and> d = verified a b r)" by metis
  show ?thesis
  proof (cases "artifact_bound inputs b")
    case True
    with same Verify_parsed [OF a, of b order] show ?thesis by (auto simp: and_then_eq_Inr Assemble_iff)
  next
    case False
    with a Verify_mismatch [OF a, of b order] show ?thesis by auto
  qed
qed

section \<open>The decision\<close>

lemma effective_verify: "inputs_parse inputs a \<Longrightarrow> effective (verify_reasons a b r)"
  by (auto simp: verify_reasons_def effective_binding effective_behavior inputs_parse_def intro: effective_policy)

text \<open>The behaviour the policy allows, event by event.\<close>

definition event_allowed :: "Policy \<Rightarrow> Event \<Rightarrow> bool" where
  "event_allowed policy e \<longleftrightarrow>
     (ev_Operation e = ''process_exec'' \<longrightarrow>
        (\<forall>p. ev_Process e = Some p \<longrightarrow> ex_Path (pr_Executable p) \<in> set (elems (po_AllowedExecutables policy)))) \<and>
     (ev_Operation e = ''network_connect'' \<longrightarrow>
        as_string (resource_get e ''destination'') \<noteq> [] \<and>
        as_string (resource_get e ''destination'') \<in> set (elems (po_AllowedNetworkDestinations policy))) \<and>
     (ev_Operation e = ''file_open_sensitive'' \<longrightarrow>
        as_string (resource_get e ''category'') \<noteq> [] \<and>
        as_string (resource_get e ''category'') \<notin> set (elems (po_ForbiddenSensitiveCategories policy))) \<and>
     (ev_Operation e = ''artifact_finalized'' \<longrightarrow>
        (\<exists>p. ev_Process e = Some p \<and> ex_Path (pr_Executable p) \<in> set (elems (po_AllowedArtifactProducers policy))))"

lemma event_reasons_Nil: "event_reasons policy e = [] \<longleftrightarrow> event_allowed policy e"
  by (cases "ev_Process e") (auto simp: event_reasons_def event_allowed_def Let_def)

lemma behaviorReasons_Nil: "behaviorReasons es policy = [] \<longleftrightarrow> (\<forall>e \<in> set es. event_allowed policy e)"
  by (simp add: behaviorReasons_def event_reasons_Nil)

definition policy_allows :: "Policy \<Rightarrow> Correlation \<Rightarrow> bool" where
  "policy_allows policy identity \<longleftrightarrow>
     ri_Provider (co_RunIdentity identity) = po_ExpectedProvider policy \<and>
     co_BuilderID identity \<in> set (elems (po_AllowedBuilderIDs policy)) \<and>
     src_Repository (co_Source identity) \<in> set (elems (po_AllowedRepositories policy))"

lemma policy_reasons_Nil:
  "policy_reasons policy identity state = [] \<longleftrightarrow> state = ''complete'' \<and> policy_allows policy identity"
  by (simp add: policy_reasons_def policy_allows_def)

definition bundle_matches :: "Bundle \<Rightarrow> Bundle \<Rightarrow> bool" where
  "bundle_matches b r \<longleftrightarrow>
     canonicalEqual (enc_graph (bd_Graph b)) (enc_graph (bd_Graph r)) \<and>
     canonicalEqual (enc_manifest (bd_Manifest b)) (enc_manifest (bd_Manifest r)) \<and>
     canonicalEqual (enc_statement (bd_RuntimeTrace b)) (enc_statement (bd_RuntimeTrace r))"

definition identity_matches :: "Correlation \<Rightarrow> Manifest \<Rightarrow> bool" where
  "identity_matches identity m \<longleftrightarrow>
     co_BuildID identity = mf_BuildID m \<and> co_RunIdentity identity = mf_RunIdentity m"

lemma binding_reasons_Nil:
  "binding_reasons b r identity = [] \<longleftrightarrow> bundle_matches b r \<and> identity_matches identity (bd_Manifest b)"
  by (simp add: binding_reasons_def bundle_matches_def identity_matches_def)

lemma binding_reject: "re_Effect x \<noteq> ''REJECT'' \<Longrightarrow> x \<notin> set (binding_reasons b r identity)"
  by (auto simp: binding_reasons_def split: if_splits)

lemma worst_binding: "worst (binding_reasons b r identity) = (if binding_reasons b r identity = [] then Allow else Reject)"
proof (cases "binding_reasons b r identity")
  case (Cons x xs)
  have "re_Effect x = ''REJECT''" using binding_reject [of x b r identity] by (auto simp: Cons)
  then show ?thesis by (simp add: Cons reason_verdict_def)
qed simp

lemma verified_ALLOW:
  assumes "inputs_parse inputs a"
  shows "de_Decision (verified a b r) = ''ALLOW'' \<longleftrightarrow>
    bundle_matches b r \<and> identity_matches (as_identity a) (bd_Manifest b) \<and>
    completeness (bd_Manifest b) = ''complete'' \<and> policy_allows (as_policy a) (as_identity a) \<and>
    (\<forall>e \<in> set (as_events a). event_allowed (as_policy a) e)"
proof -
  have "de_Decision (verified a b r) = ''ALLOW'' \<longleftrightarrow> verify_reasons a b r = []"
    using effective_Allow [OF effective_verify [OF assms]] by (simp add: verified_def)
  also have "\<dots> \<longleftrightarrow> binding_reasons b r (as_identity a) = [] \<and>
      policy_reasons (as_policy a) (as_identity a) (completeness (bd_Manifest b)) = [] \<and>
      behaviorReasons (as_events a) (as_policy a) = []"
    by (simp add: verify_reasons_def)
  finally show ?thesis by (simp add: binding_reasons_Nil policy_reasons_Nil behaviorReasons_Nil conj_assoc)
qed

lemma not_reject_matches:
  "de_Decision (verified a b r) \<noteq> ''REJECT'' \<Longrightarrow> bundle_matches b r \<and> identity_matches (as_identity a) (bd_Manifest b)"
  using worst_binding [of b r "as_identity a"] binding_reasons_Nil [of b r "as_identity a"]
  by (auto simp: verified_def verify_reasons_def worst_append split: if_splits)

section \<open>A bundle verifies against the inputs it was assembled from\<close>

lemma enc_correlation_obj: "\<exists>ms. enc_correlation c = JObj ms"
  by (simp add: enc_correlation_def)

lemma toMap_correlation:
  "toMap (enc_correlation c) = Inr m \<Longrightarrow>
   \<exists>ms. canon (enc_correlation c) = JObj ms \<and> normal (JObj ms) \<and> m = Some (map_vals any_of ms)"
proof -
  assume t: "toMap (enc_correlation c) = Inr m"
  obtain ms0 where o: "enc_correlation c = JObj ms0" using enc_correlation_obj by blast
  have n: "numbers_ok (enc_correlation c)" by simp
  from t obtain ms where "canon (enc_correlation c) = JObj ms" "m = Some (map_vals any_of ms)"
    unfolding toMap_ok_iff [OF o n] by blast
  moreover from this normal_canon [OF n] have "normal (JObj ms)" by simp
  ultimately show ?thesis by blast
qed

lemma enc_map_any_of_normal:
  "normal (JObj ms) \<Longrightarrow> enc_any (AMap (map_vals any_of ms)) = JObj ms"
  using enc_any_of_normal_map [of ms] by simp

lemma numbers_enc_nodes: "numbers_ok (enc_slice enc_node s)"
  by simp

lemma numbers_map_lit: "\<forall>(k, v) \<in> set xs. numbers_ok (enc_any v) \<Longrightarrow> numbers_ok (enc_any (AMap (map_lit xs)))"
  using set_map_lit [of xs] by (fastforce simp: set_map_vals)

lemma numbers_enc_map_lit:
  "\<forall>(k, v) \<in> set xs. numbers_ok (enc_any v) \<Longrightarrow> numbers_ok (enc_map enc_any (Some (map_lit xs)))"
  using numbers_map_lit [of xs] by (simp add: enc_map_def)

lemma trace_ok:
  assumes "toMap (enc_correlation c) = Inr m"
  shows "statement_ok (assemble_trace inputs events identity graph m)"
proof -
  obtain ms where ms: "normal (JObj ms)" "m = Some (map_vals any_of ms)"
    using toMap_correlation [OF assms] by blast
  have "numbers_ok (enc_any (AMap (map_vals any_of ms)))"
    using enc_map_any_of_normal [OF ms(1)] ms(1) by (simp add: normal_def)
  then have "numbers_ok (enc_any (case m of None \<Rightarrow> ANil | Some m \<Rightarrow> AMap m))" by (simp add: ms(2))
  then show ?thesis
    unfolding statement_ok_def assemble_trace_def
    by (simp del: enc_any.simps(8)) (intro numbers_enc_map_lit, simp add: numbers_map_lit del: enc_any.simps(8))
qed

lemma assembles_verifies:
  assumes order: "permutes order" "permutes order'" and a: "assembles order inputs a b"
  shows "Verify order' inputs b = Inr
    \<lparr>de_Decision = verdict_name (worst (policy_reasons (as_policy a) (as_identity a) (completeness (bd_Manifest b)) @
        behaviorReasons (as_events a) (as_policy a))),
     de_Completeness = completeness (bd_Manifest b),
     de_Reasons = Some (policy_reasons (as_policy a) (as_identity a) (completeness (bd_Manifest b)) @
        behaviorReasons (as_events a) (as_policy a))\<rparr>"
proof -
  have a': "assembles order' inputs a b"
    using a unfolding assembles_def BuildGraph_spec [OF order(1)] BuildGraph_spec [OF order(2)] .
  have "artifact_bound inputs b"
    using a by (auto simp: assembles_def artifact_bound_def as_manifest_def assemble_manifest_def)
  then have v: "Verify order' inputs b = Inr (verified a b b)" using a' Verify_iff [of order' inputs b] by blast
  obtain m where m: "toMap (enc_correlation (as_correlation inputs a)) = Inr m" and g: "numbers_ok (enc_graph (as_graph a))"
    and b: "b = \<lparr>bd_Graph = as_graph a, bd_Manifest = as_manifest inputs a,
             bd_RuntimeTrace = assemble_trace inputs (as_events a) (as_identity a) (as_graph a) m\<rparr>"
    using a by (auto simp: assembles_def)
  have "bundle_matches b b"
    using g trace_ok [OF m] by (simp add: bundle_matches_def b canonicalEqual_refl)
  moreover have "identity_matches (as_identity a) (bd_Manifest b)"
    by (simp add: identity_matches_def b as_manifest_def assemble_manifest_def)
  ultimately have "binding_reasons b b (as_identity a) = []" by (simp add: binding_reasons_Nil)
  then show ?thesis using v by (simp add: verified_def verify_reasons_def)
qed

end
