(* ===== verification/Binding.thy ===== *)
theory Binding
  imports Verdict
begin

text \<open>
  What a bundle commits to: a bundle that verifies without \<open>REJECT\<close> carries the digests of the
  inputs it is verified with. And the provenance of the local fixture: \<open>Assemble\<close> reads the
  identity from it that \<open>CreateLocalFixtureProvenance\<close> put in.
\<close>

section \<open>Loops of verify.go in closed form\<close>

lemma verifyArtifactObservation_ok_iff:
  "verifyArtifactObservation es h = Inr u \<longleftrightarrow>
   (\<exists>pre e post. es = pre @ e # post \<and> (\<forall>x \<in> set pre. ev_Operation x \<noteq> ''artifact_finalized'') \<and>
      ev_Operation e = ''artifact_finalized'' \<and> as_string (resource_get e ''sha256'') = h \<and> ev_Process e \<noteq> None)"
proof (induction es)
  case (Cons e es)
  show ?case
  proof (cases "ev_Operation e = ''artifact_finalized''")
    case True
    have "(\<exists>pre x post. e # es = pre @ x # post \<and> (\<forall>y \<in> set pre. ev_Operation y \<noteq> ''artifact_finalized'') \<and>
        ev_Operation x = ''artifact_finalized'' \<and> as_string (resource_get x ''sha256'') = h \<and> ev_Process x \<noteq> None) \<longleftrightarrow>
      as_string (resource_get e ''sha256'') = h \<and> ev_Process e \<noteq> None" (is "?A \<longleftrightarrow> ?B")
    proof
      assume ?A
      then obtain pre x post where *: "e # es = pre @ x # post" "\<forall>y \<in> set pre. ev_Operation y \<noteq> ''artifact_finalized''"
        "as_string (resource_get x ''sha256'') = h" "ev_Process x \<noteq> None" by blast
      then have "pre = []" using True by (cases pre) auto
      with * show ?B by simp
    next
      assume ?B
      with True show ?A by (intro exI [of _ "[]"] exI [of _ e] exI [of _ es]) simp
    qed
    with True show ?thesis by simp
  next
    case False
    have "(\<exists>pre x post. e # es = pre @ x # post \<and> (\<forall>y \<in> set pre. ev_Operation y \<noteq> ''artifact_finalized'') \<and>
        ev_Operation x = ''artifact_finalized'' \<and> as_string (resource_get x ''sha256'') = h \<and> ev_Process x \<noteq> None) \<longleftrightarrow>
      (\<exists>pre x post. es = pre @ x # post \<and> (\<forall>y \<in> set pre. ev_Operation y \<noteq> ''artifact_finalized'') \<and>
        ev_Operation x = ''artifact_finalized'' \<and> as_string (resource_get x ''sha256'') = h \<and> ev_Process x \<noteq> None)"
      (is "?A \<longleftrightarrow> ?B")
    proof
      assume ?A
      then obtain pre x post where *: "e # es = pre @ x # post" "\<forall>y \<in> set pre. ev_Operation y \<noteq> ''artifact_finalized''"
        "ev_Operation x = ''artifact_finalized''" "as_string (resource_get x ''sha256'') = h" "ev_Process x \<noteq> None"
        by blast
      then obtain pre' where "pre = e # pre'" using False by (cases pre) auto
      with * show ?B by (intro exI [of _ pre'] exI [of _ x] exI [of _ post]) simp
    next
      assume ?B
      then obtain pre x post where "es = pre @ x # post" "\<forall>y \<in> set pre. ev_Operation y \<noteq> ''artifact_finalized''"
        "ev_Operation x = ''artifact_finalized''" "as_string (resource_get x ''sha256'') = h" "ev_Process x \<noteq> None"
        by blast
      with False show ?A by (intro exI [of _ "e # pre"] exI [of _ x] exI [of _ post]) simp
    qed
    with False Cons show ?thesis by simp
  qed
qed simp

lemma subjectMatches_iff:
  "subjectMatches subjects name digest \<longleftrightarrow>
   (\<exists>s \<in> set subjects. sb_Name s = name \<and>
      (case map_get (elems (sb_Digest s)) ''sha256'' of None \<Rightarrow> [] | Some d \<Rightarrow> d) = digest)"
  by (induction subjects) auto

lemma resolvedSourceMatches_iff:
  "resolvedSourceMatches ds source \<longleftrightarrow>
   (\<exists>m g. AMap m \<in> set ds \<and> map_get m ''uri'' = Some (AString (src_Repository source)) \<and>
      map_get m ''digest'' = Some (AMap g) \<and> map_get g ''gitCommit'' = Some (AString (src_Revision source)))"
proof (induction ds)
  case (Cons d ds)
  have as: "as_map v = Some m \<longleftrightarrow> v = Some (AMap m)" for v m
    by (auto simp: as_map_def split: option.splits any.splits)
  show ?case
  proof (cases "\<exists>m g. d = AMap m \<and> map_get m ''uri'' = Some (AString (src_Repository source)) \<and>
      map_get m ''digest'' = Some (AMap g) \<and> map_get g ''gitCommit'' = Some (AString (src_Revision source))")
    case True
    then show ?thesis by (auto simp: as_map_def)
  next
    case False
    then have "resolvedSourceMatches (d # ds) source \<longleftrightarrow> resolvedSourceMatches ds source"
      by (auto simp: as split: option.split)
    with Cons False show ?thesis by auto
  qed
qed simp

section \<open>Digests survive normalisation\<close>

lemma sanitize_ascii_conv: "list_all (\<lambda>c. c < CHR 0x80) (sanitize s) \<Longrightarrow> sanitize s = s"
proof (induction s rule: sanitize.induct)
  case (2 a s)
  obtain c r where cr: "utf8_next (a # s) = (c, r)" by force
  have c: "list_all (\<lambda>c. c < CHR 0x80) c" "list_all (\<lambda>c. c < CHR 0x80) (sanitize r)"
    using "2.prems" by (simp_all add: cr)
  show ?case
  proof (cases "a < CHR 0x80")
    case True
    then show ?thesis using 2 by simp
  next
    case False
    have "\<exists>x \<in> set c. \<not> x < CHR 0x80"
    proof (cases "utf8_len (a # s) = 0")
      case True
      then have "c = replacement" using cr by (simp add: utf8_next_def Let_def del: utf8_len.simps)
      then show ?thesis by (simp add: replacement_def)
    next
      case n: False
      then have "c = take (utf8_len (a # s)) (a # s)" using cr by (simp add: utf8_next_def Let_def del: utf8_len.simps)
      with n have "a \<in> set c" by (cases "utf8_len (a # s)") (simp_all del: utf8_len.simps)
      with False show ?thesis by blast
    qed
    with c(1) show ?thesis by (auto simp: list_all_iff)
  qed
qed simp

lemma sanitize_eq_Digest [simp]: "sanitize s = Digest d \<longleftrightarrow> s = Digest d"
  using sanitize_ascii_conv [of s] Digest_ascii [of d] by auto

section \<open>Commitments of the manifest\<close>

lemma manifest_matches:
  "canonicalEqual (enc_manifest m) (enc_manifest m') \<longleftrightarrow> norm_manifest m = norm_manifest m'"
proof -
  have "canonicalEqual (enc_manifest m) (enc_manifest m') \<longleftrightarrow> canonical (enc_manifest m) = canonical (enc_manifest m')"
    by (simp add: canonicalEqual_iff manifest_codec.canonical_inject)
  then show ?thesis by (simp add: manifest_codec.canonical_norm_inject)
qed

text \<open>What the commitments of a manifest say about the inputs.\<close>

definition commits :: "Manifest \<Rightarrow> Inputs \<Rightarrow> Event list \<Rightarrow> bool" where
  "commits m inputs events \<longleftrightarrow>
     sc_SHA256 (mf_EventStream m) = Digest (ip_EventBytes inputs) \<and>
     sc_FirstSequence (mf_EventStream m) = ev_Sequence (hd events) \<and>
     sc_LastSequence (mf_EventStream m) = ev_Sequence (last events) \<and>
     sc_EventCount (mf_EventStream m) = of_nat (length events) \<and>
     mf_ExecutionGraphSHA256 m = Digest (marshal (canon (enc_graph (graph_of events)))) \<and>
     ar_SHA256 (mf_Artifact m) = Digest (ip_ArtifactBytes inputs) \<and>
     sanitize (ar_Name (mf_Artifact m)) = sanitize (ip_ArtifactName inputs) \<and>
     mf_PolicySHA256 m = Digest (ip_PolicyBytes inputs) \<and>
     mf_Loss m = lossFromFinalEvent (last events) \<and>
     lc_Started (mf_Lifecycle m) = (ev_Operation (hd events) = ''sensor_started'') \<and>
     lc_Finalized (mf_Lifecycle m) = (ev_Operation (last events) = ''sensor_finalized'')"

lemma norm_manifest_fields [simp]:
  "mf_EventStream (norm_manifest m) = norm_stream (mf_EventStream m)"
  "mf_ExecutionGraphSHA256 (norm_manifest m) = sanitize (mf_ExecutionGraphSHA256 m)"
  "mf_Artifact (norm_manifest m) = norm_artifact (mf_Artifact m)"
  "mf_PolicySHA256 (norm_manifest m) = sanitize (mf_PolicySHA256 m)"
  "mf_Loss (norm_manifest m) = mf_Loss m" "mf_Lifecycle (norm_manifest m) = mf_Lifecycle m"
  by (simp_all add: norm_manifest_def)

lemma norm_manifest_commits:
  assumes "norm_manifest m = norm_manifest (as_manifest inputs a)" "as_graph a = graph_of (as_events a)"
  shows "commits m inputs (as_events a)"
proof -
  let ?m = "as_manifest inputs a"
  have s: "norm_stream (mf_EventStream m) = norm_stream (mf_EventStream ?m)"
    and g: "sanitize (mf_ExecutionGraphSHA256 m) = sanitize (mf_ExecutionGraphSHA256 ?m)"
    and ar: "norm_artifact (mf_Artifact m) = norm_artifact (mf_Artifact ?m)"
    and p: "sanitize (mf_PolicySHA256 m) = sanitize (mf_PolicySHA256 ?m)"
    and l: "mf_Loss m = mf_Loss ?m" "mf_Lifecycle m = mf_Lifecycle ?m"
    using assms(1) by (metis norm_manifest_fields)+
  show ?thesis
    using s g ar p l assms(2)
    by (cases "mf_EventStream m"; cases "mf_Artifact m")
      (auto simp: commits_def as_manifest_def assemble_manifest_def as_graphHash_def norm_stream_def norm_artifact_def)
qed

lemma not_reject_commits:
  assumes "permutes order" "Verify order inputs b = Inr d" "de_Decision d \<noteq> ''REJECT''"
  shows "\<exists>a. inputs_parse inputs a \<and> commits (bd_Manifest b) inputs (as_events a)"
proof -
  obtain a r where a: "assembles order inputs a r" and d: "d = verified a b r"
    using assms(2,3) unfolding Verify_iff by (auto simp: artifact_mismatch_def)
  then have "bundle_matches b r" using assms(3) not_reject_matches by blast
  then have "norm_manifest (bd_Manifest b) = norm_manifest (bd_Manifest r)"
    by (simp add: bundle_matches_def manifest_matches)
  moreover have "bd_Manifest r = as_manifest inputs a" using a by (auto simp: assembles_def)
  moreover have "as_graph a = graph_of (as_events a)"
    using a by (auto simp: assembles_def BuildGraph_spec [OF assms(1)])
  ultimately show ?thesis using a norm_manifest_commits [of "bd_Manifest b" inputs a] by (auto simp: assembles_def)
qed

section \<open>Commitments of the runtime trace\<close>

text \<open>Looking up in the normal form of a map whose keys are valid text.\<close>

lemma norm_entries_valid:
  assumes "map_wf es" "\<forall>k \<in> fst ` set es. sanitize k = k"
  shows "norm_entries norm (Some es) = Some (map_vals norm es)"
proof -
  have "map (\<lambda>(k, v). (sanitize k, norm v)) es = map_vals norm es"
    unfolding map_vals_def by (rule map_cong) (use assms(2) in force)+
  then show ?thesis using assms(1) by (simp add: norm_entries_def map_lit_wf)
qed

lemma keys_lit_valid: "\<forall>k \<in> set (map fst xs). sanitize k = k \<Longrightarrow> \<forall>k \<in> fst ` set (map_lit xs). sanitize k = k"
  by (simp add: keys_map_lit)

lemma norm_map_lit:
  "\<forall>k \<in> set (map fst xs). sanitize k = k \<Longrightarrow> norm_map (Some (map_lit xs)) = Some (map_vals norm_any (map_lit xs))"
  unfolding norm_map_def by (rule norm_entries_valid) (simp_all add: keys_map_lit)

lemma norm_any_normal: "normal j \<Longrightarrow> norm_any (any_of j) = any_of j"
  by (simp add: norm_any_def any_of_enc_normal canon_normal)

lemma any_of_normal_obj: "normal (JObj ms) \<Longrightarrow> any_of (JObj ms) = AMap (map_vals any_of ms)"
  by (simp add: normal_def map_lit_wf)

lemma CorrelationKey_valid: "sanitize CorrelationKey = CorrelationKey"
  by (simp add: CorrelationKey_def sanitize_ascii)

lemma norm_map_lit_get:
  "\<forall>k \<in> set (map fst xs). sanitize k = k \<Longrightarrow> map_of (rev xs) k = Some v \<Longrightarrow>
   map_get (elems (norm_map (Some (map_lit xs)))) k = Some (norm_any v)"
  by (simp only: norm_map_lit elems_simps map_get_vals map_get_lit option.map)

lemma trace_correlation:
  assumes "toMap (enc_correlation c) = Inr m"
  shows "map_get (elems (norm_map (st_Predicate (assemble_trace inputs events identity graph m)))) CorrelationKey
    = Some (any_of (canon (enc_correlation c)))"
proof -
  obtain ms where ms: "canon (enc_correlation c) = JObj ms" "normal (JObj ms)" "m = Some (map_vals any_of ms)"
    using toMap_correlation [OF assms] by blast
  have m: "(case m of None \<Rightarrow> ANil | Some m \<Rightarrow> AMap m) = any_of (canon (enc_correlation c))"
    using any_of_normal_obj [OF ms(2)] by (simp add: ms)
  have "map_get (elems (norm_map (st_Predicate (assemble_trace inputs events identity graph m)))) CorrelationKey
    = Some (norm_any (any_of (canon (enc_correlation c))))"
    unfolding assemble_trace_def m Statement.simps
    by (rule norm_map_lit_get) (simp_all add: CorrelationKey_valid sanitize_ascii)
  then show ?thesis using ms norm_any_normal [of "canon (enc_correlation c)"] by simp
qed

lemma trace_matches_correlation:
  assumes "canonicalEqual (enc_statement t) (enc_statement t1)" "canonicalEqual (enc_statement t) (enc_statement t2)"
    "t1 = assemble_trace i1 e1 d1 g1 m1" "t2 = assemble_trace i2 e2 d2 g2 m2"
    "toMap (enc_correlation c1) = Inr m1" "toMap (enc_correlation c2) = Inr m2"
  shows "norm_correlation c1 = norm_correlation c2"
proof -
  have ok: "statement_ok t1" "statement_ok t2" using assms(3-6) trace_ok by blast+
  have "canon (enc_statement t1) = canon (enc_statement t2)" using assms(1,2) by (simp add: canonicalEqual_iff)
  then have "norm_statement t1 = norm_statement t2"
    using statement_codec.canonical_norm_inject [OF ok] statement_codec.canonical_inject [OF ok] by blast
  then have "norm_map (st_Predicate t1) = norm_map (st_Predicate t2)"
    unfolding norm_statement_def by (cases t1; cases t2) simp
  then have "any_of (canon (enc_correlation c1)) = any_of (canon (enc_correlation c2))"
    using trace_correlation [OF assms(5)] trace_correlation [OF assms(6)] assms(3,4) by (metis option.inject)
  then have "enc_any (any_of (canon (enc_correlation c1))) = enc_any (any_of (canon (enc_correlation c2)))" by simp
  then have "canon (enc_correlation c1) = canon (enc_correlation c2)" by (simp add: any_of_enc_normal)
  then show ?thesis
    using correlation_codec.canonical_norm_inject [of c1 c2] correlation_codec.canonical_inject [of c1 c2] by simp
qed

lemma same_bundle_provenance:
  assumes "Verify order i1 b = Inr d1" "de_Decision d1 \<noteq> ''REJECT''"
    "Verify order i2 b = Inr d2" "de_Decision d2 \<noteq> ''REJECT''"
  shows "Digest (ip_ProvenanceBytes i1) = Digest (ip_ProvenanceBytes i2)"
proof -
  obtain a1 r1 where a1: "assembles order i1 a1 r1" and d1: "d1 = verified a1 b r1"
    using assms(1,2) unfolding Verify_iff by (auto simp: artifact_mismatch_def)
  obtain a2 r2 where a2: "assembles order i2 a2 r2" and d2: "d2 = verified a2 b r2"
    using assms(3,4) unfolding Verify_iff by (auto simp: artifact_mismatch_def)
  have "bundle_matches b r1" "bundle_matches b r2" using assms(2,4) d1 d2 not_reject_matches by blast+
  then have t: "canonicalEqual (enc_statement (bd_RuntimeTrace b)) (enc_statement (bd_RuntimeTrace r1))"
    "canonicalEqual (enc_statement (bd_RuntimeTrace b)) (enc_statement (bd_RuntimeTrace r2))"
    by (simp_all add: bundle_matches_def)
  obtain m1 where m1: "toMap (enc_correlation (as_correlation i1 a1)) = Inr m1"
    "bd_RuntimeTrace r1 = assemble_trace i1 (as_events a1) (as_identity a1) (as_graph a1) m1"
    using a1 by (auto simp: assembles_def)
  obtain m2 where m2: "toMap (enc_correlation (as_correlation i2 a2)) = Inr m2"
    "bd_RuntimeTrace r2 = assemble_trace i2 (as_events a2) (as_identity a2) (as_graph a2) m2"
    using a2 by (auto simp: assembles_def)
  have "norm_correlation (as_correlation i1 a1) = norm_correlation (as_correlation i2 a2)"
    by (rule trace_matches_correlation [OF t m1(2) m2(2) m1(1) m2(1)])
  then have "co_SLSAProvenanceHash (norm_correlation (as_correlation i1 a1)) =
    co_SLSAProvenanceHash (norm_correlation (as_correlation i2 a2))" by simp
  then show ?thesis by (simp add: norm_correlation_def as_correlation_def assemble_correlation_def)
qed

section \<open>When Assemble succeeds\<close>

lemma parsed_graph_ok: "ParseEventStream raw = Inr es \<Longrightarrow> graph_ok (graph_of es)"
  using graph_of_ok parsed_ok valid_event_ok by blast

lemma parsed_nonempty: "ParseEventStream raw = Inr es \<Longrightarrow> es \<noteq> []"
  by (auto simp: ParseEventStream_iff chain_ok_def)

definition correlation_fits :: "Correlation \<Rightarrow> bool" where
  "correlation_fits c \<longleftrightarrow>
     length (marshal (canon (enc_correlation c))) \<le> maxDocumentBytes \<and> shape_ok (canon (enc_correlation c))"

lemma toMap_correlation_iff: "(\<exists>m. toMap (enc_correlation c) = Inr m) \<longleftrightarrow> correlation_fits c"
proof -
  obtain ms0 where o: "enc_correlation c = JObj ms0" using enc_correlation_obj by blast
  have n: "numbers_ok (enc_correlation c)" by simp
  show ?thesis unfolding toMap_ok_iff [OF o n] by (simp add: correlation_fits_def o canon_JObj)
qed

lemma assembles_ex_iff:
  assumes "permutes order"
  shows "(\<exists>b. assembles order inputs a b) \<longleftrightarrow>
    inputs_parse inputs a \<and> consistent inputs a \<and> graphable (as_events a) \<and> as_graph a = graph_of (as_events a) \<and>
    correlation_fits (as_correlation inputs a)"
proof (cases "inputs_parse inputs a")
  case True
  then have "ParseEventStream (ip_EventBytes inputs) = Inr (as_events a)" by (simp add: inputs_parse_def)
  then have "graph_ok (graph_of (as_events a))" "as_events a \<noteq> []"
    using parsed_graph_ok parsed_nonempty by blast+
  then show ?thesis
    using toMap_correlation_iff [of "as_correlation inputs a"] True
    by (auto simp: assembles_def BuildGraph_spec [OF assms])
qed (auto simp: assembles_def)

end
