(* ===== verification/Local.thy ===== *)
theory Local
  imports Binding
begin

text \<open>
  The statement of \<open>CreateLocalFixtureProvenance\<close> (\<open>local_provenance.go\<close>) is what
  \<open>provenanceIdentity\<close> reads: written to a document and read back it has the identity of the local
  fixture, and it names the artifact and the source. With it the completeness of a manifest, and
  what its five counters do and do not count.
\<close>

section \<open>Normal forms of dynamic values\<close>

lemma norm_any_simps [simp]:
  "norm_any (AString s) = AString (sanitize s)"
  "norm_any ANil = ANil" "norm_any (ABool b) = ABool b"
  "norm_any (AList xs) = AList (map norm_any xs)"
  by (simp_all add: norm_any_def canon_simps comp_def)

lemma norm_map_get:
  "\<forall>k \<in> set (map fst xs). sanitize k = k \<Longrightarrow>
   map_get (elems (norm_map (Some (map_lit xs)))) k = map_option norm_any (map_of (rev xs) k)"
  by (simp only: norm_map_lit elems_simps map_get_vals map_get_lit)

lemma norm_any_AInt: "norm_any (AInt i) = ANumber (dec_int i)"
  by (simp add: norm_any_def canon_simps)

lemma norm_any_map_lit:
  assumes "\<forall>k \<in> set (map fst xs). sanitize k = k"
  shows "norm_any (AMap (map_lit xs)) = AMap (map_vals norm_any (map_lit xs))"
proof -
  let ?m = "map_lit xs"
  have keys: "\<forall>k \<in> fst ` set ?m. sanitize k = k" using assms by (simp add: keys_map_lit)
  have "map (\<lambda>(k, v). (sanitize k, canon v)) (map_vals enc_any ?m) = map_vals (\<lambda>v. canon (enc_any v)) ?m"
    unfolding map_vals_def using keys by (auto simp: map_vals_def)
  then have "canon (enc_any (AMap ?m)) = JObj (map_vals (\<lambda>v. canon (enc_any v)) ?m)"
    by (simp add: canon_JObj map_lit_wf)
  then show ?thesis by (simp add: norm_any_def [abs_def] map_lit_wf)
qed

lemma as_map_simps [simp]: "as_map (Some (AMap m)) = Some m" "as_list (Some (AList xs)) = Some xs"
  "as_string (Some (AString s)) = s"
  by (simp_all add: as_map_def as_list_def as_string_def)

lemma BuildIdentityKey_valid: "sanitize BuildIdentityKey = BuildIdentityKey"
  by (simp add: BuildIdentityKey_def sanitize_ascii)

section \<open>The round trip of the local statement\<close>

lemma sanitize_LocalBuilderID: "sanitize LocalBuilderID = LocalBuilderID"
  by (simp add: LocalBuilderID_def sanitize_ascii)

lemma sanitize_LocalBuildType: "sanitize LocalBuildType = LocalBuildType"
  by (simp add: LocalBuildType_def sanitize_ascii)

lemma local_nonempty: "LocalBuilderID \<noteq> []" "LocalBuildType \<noteq> []"
  by (simp_all add: LocalBuilderID_def LocalBuildType_def)

text \<open>The statement made for given values.\<close>

definition local_statement :: "string \<Rightarrow> bytes \<Rightarrow> Event list \<Rightarrow> string \<Rightarrow> string \<Rightarrow> any gomap \<Rightarrow> Statement" where
  "local_statement name artifact events repository revision m =
     \<lparr>st_Type = StatementType,
      st_Subject = Some [\<lparr>sb_Name = name, sb_Digest = Some (map_lit [(''sha256'', Digest artifact)])\<rparr>],
      st_PredicateType = SLSAPredicate,
      st_Predicate = Some (map_lit
        [(''buildDefinition'', AMap (map_lit
            [(''buildType'', AString LocalBuildType),
             (''externalParameters'', AMap (map_lit
                [(''repository'', AString repository), (''revision'', AString revision)])),
             (''internalParameters'', AMap (map_lit [(BuildIdentityKey, AMap m)])),
             (''resolvedDependencies'', AList [AMap (map_lit
                [(''uri'', AString repository),
                 (''digest'', AMap (map_lit [(''gitCommit'', AString revision)]))])])])),
         (''runDetails'', AMap (map_lit
            [(''builder'', AMap (map_lit [(''id'', AString LocalBuilderID)])),
             (''metadata'', AMap (map_lit
                [(''invocationId'', AString (bs_RunID (ev_Build (hd events)))),
                 (''startedOn'', AString (ev_ObservedAt (hd events))),
                 (''finishedOn'', AString (ev_ObservedAt (last events)))]))]))])\<rparr>"

definition local_ok :: "string \<Rightarrow> bytes \<Rightarrow> Event list \<Rightarrow> string \<Rightarrow> string \<Rightarrow> bool" where
  "local_ok name artifact events repository revision \<longleftrightarrow>
     name \<noteq> [] \<and> artifact \<noteq> [] \<and> events \<noteq> [] \<and> repository \<noteq> [] \<and> revision \<noteq> [] \<and>
     verifyArtifactObservation events (Digest artifact) = Inr () \<and>
     bs_Source (ev_Build (hd events)) = \<lparr>src_Repository = repository, src_Revision = revision\<rparr>"

lemma CreateLocalFixtureProvenance_ok_iff:
  "CreateLocalFixtureProvenance name artifact events repository revision = Inr st \<longleftrightarrow>
   local_ok name artifact events repository revision \<and>
   (\<exists>ms. toMap (enc_correlation (local_identity (hd events) repository revision)) = Inr (Some ms) \<and>
      st = local_statement name artifact events repository revision ms)"
proof -
  have "m \<noteq> None" if "toMap (enc_correlation c) = Inr m" for c m
    using toMap_correlation [OF that] by auto
  then show ?thesis
    by (auto simp: CreateLocalFixtureProvenance_def and_then_eq_Inr local_ok_def local_statement_def
        split: option.splits)
qed
lemmas local_valid = sanitize_LocalBuilderID sanitize_LocalBuildType BuildIdentityKey_valid

text \<open>Reading the members of a map literal in normal form.\<close>

lemma member_norm:
  "\<forall>k \<in> set (map fst xs). sanitize k = k \<Longrightarrow> map_of (rev xs) k = Some v \<Longrightarrow>
   norm_any (AMap (map_lit xs)) = AMap m \<Longrightarrow> map_get m k = Some (norm_any v)"
  by (auto simp: norm_any_map_lit map_get_vals map_get_lit)

definition identity_ready :: "Event list \<Rightarrow> bool" where
  "identity_ready events \<longleftrightarrow>
     bs_BuildID (ev_Build (hd events)) \<noteq> [] \<and> bs_RunID (ev_Build (hd events)) \<noteq> [] \<and>
     ev_ObservedAt (hd events) \<noteq> [] \<and> ev_ObservedAt (last events) \<noteq> []"

lemma norm_local_identity:
  "norm_correlation (local_identity e repository revision) =
   zero_correlation\<lparr>co_BuildID := sanitize (bs_BuildID (ev_Build e)), co_BuilderID := LocalBuilderID,
       co_RunIdentity := \<lparr>ri_Provider = ''local'', ri_RunID = sanitize (bs_RunID (ev_Build e)), ri_Attempt = 1\<rparr>,
       co_Source := \<lparr>src_Repository = sanitize repository, src_Revision = sanitize revision\<rparr>\<rparr>"
  by (simp add: norm_correlation_def local_identity_def zero_correlation_def norm_run_identity_def norm_source_def
      local_valid sanitize_ascii)

lemma toMap_round:
  assumes "toMap (enc_correlation c) = Inr (Some ms)"
  shows "canonical (enc_any (norm_any (AMap ms))) = Inr (marshal (canon (enc_correlation c)))"
    "decodeStrict dec_correlation (marshal (canon (enc_correlation c))) zero_correlation maxDocumentBytes
       = Inr (norm_correlation c)"
proof -
  obtain js where js: "canon (enc_correlation c) = JObj js" "normal (JObj js)" "ms = map_vals any_of js"
    using toMap_correlation [OF assms] by auto
  then have "norm_any (AMap ms) = any_of (JObj js)"
    using norm_any_normal [of "JObj js"] any_of_normal_obj [of js] by simp
  then show "canonical (enc_any (norm_any (AMap ms))) = Inr (marshal (canon (enc_correlation c)))"
    using js by (simp only: any_of_enc_normal canonical_normal)
  obtain ms0 where o: "enc_correlation c = JObj ms0" using enc_correlation_obj by blast
  have n: "numbers_ok (enc_correlation c)" by simp
  have "length (marshal (canon (enc_correlation c))) \<le> maxDocumentBytes" "shape_ok (canon (enc_correlation c))"
    using assms unfolding toMap_ok_iff [OF o n] by blast+
  then show "decodeStrict dec_correlation (marshal (canon (enc_correlation c))) zero_correlation maxDocumentBytes
       = Inr (norm_correlation c)"
    by (intro correlation_codec.decodeStrict_canonical) (simp_all add: correlation_codec.canonical_enc)
qed

lemma local_identity_read:
  assumes "local_ok name artifact events repository revision" "identity_ready events"
    "toMap (enc_correlation (local_identity (hd events) repository revision)) = Inr (Some ms)"
  shows "provenanceIdentity (norm_statement (local_statement name artifact events repository revision ms))
    = Inr (norm_correlation (local_identity (hd events) repository revision))"
proof -
  let ?c = "local_identity (hd events) repository revision"
  let ?st = "norm_statement (local_statement name artifact events repository revision ms)"
  have ne: "repository \<noteq> []" "revision \<noteq> []" using assms(1) by (simp_all add: local_ok_def)
  have lit: "sanitize s = s" if "list_all (\<lambda>c. c < CHR 0x80) s" for s using that by (rule sanitize_ascii)
  note valid = local_valid lit
  have top: "map_get (elems (st_Predicate ?st)) ''buildDefinition'' = Some (norm_any (AMap (map_lit
       [(''buildType'', AString LocalBuildType),
        (''externalParameters'', AMap (map_lit [(''repository'', AString repository), (''revision'', AString revision)])),
        (''internalParameters'', AMap (map_lit [(BuildIdentityKey, AMap ms)])),
        (''resolvedDependencies'', AList [AMap (map_lit [(''uri'', AString repository),
            (''digest'', AMap (map_lit [(''gitCommit'', AString revision)]))])])])))"
    "map_get (elems (st_Predicate ?st)) ''runDetails'' = Some (norm_any (AMap (map_lit
       [(''builder'', AMap (map_lit [(''id'', AString LocalBuilderID)])),
        (''metadata'', AMap (map_lit
            [(''invocationId'', AString (bs_RunID (ev_Build (hd events)))),
             (''startedOn'', AString (ev_ObservedAt (hd events))),
             (''finishedOn'', AString (ev_ObservedAt (last events)))]))])))"
    unfolding norm_statement_def local_statement_def Statement.simps
    by (rule norm_map_lit_get; simp add: lit)+
  note get = map_get_vals map_get_lit
  note round = toMap_round [OF assms(3)]
  show ?thesis
    unfolding provenanceIdentity_def top Let_def
    using assms(2) ne
    by (simp add: norm_any_map_lit valid get round norm_local_identity identity_ready_def
        resolvedSourceMatches_iff local_nonempty)
qed

lemma local_statement_ok:
  assumes "toMap (enc_correlation c) = Inr (Some ms)"
  shows "statement_ok (local_statement name artifact events repository revision ms)"
proof -
  obtain js where "normal (JObj js)" "ms = map_vals any_of js"
    using toMap_correlation [OF assms] by auto
  then have "numbers_ok (enc_any (AMap ms))" using enc_map_any_of_normal [of js] by (simp add: normal_def)
  then show ?thesis
    unfolding statement_ok_def local_statement_def
    by (simp del: enc_any.simps(8)) (intro numbers_enc_map_lit, simp add: numbers_map_lit del: enc_any.simps(8))
qed

text \<open>The statement as a file: canonical text and a newline.\<close>

context codec
begin

lemma decodeStrict_file:
  assumes "ok x" "length (marshal (canon (enc x))) < limit" "shape_ok (canon (enc x))"
  shows "decodeStrict dec (marshal (canon (enc x)) @ [line_feed]) zero limit = Inr (norm x)"
proof -
  have "parse_json (marshal (canon (enc x)) @ [line_feed]) = Some (canon (enc x), [line_feed])"
    using parse_canonical [OF assms(1) canonical_enc [OF assms(1)], of "[line_feed]"]
    by (simp add: number_ends_def line_feed_def is_digit_def)
  moreover have "skip_ws [line_feed] = []" by (simp add: skip_ws_def is_space_def line_feed_def)
  ultimately show ?thesis using assms by (simp add: decodeStrict_ok_iff dec_canon)
qed

end

definition statement_fits :: "Statement \<Rightarrow> bool" where
  "statement_fits st \<longleftrightarrow>
     length (marshal (canon (enc_statement st))) < maxDocumentBytes \<and> shape_ok (canon (enc_statement st))"

definition document :: "Statement \<Rightarrow> bytes" where
  "document st = marshal (canon (enc_statement st)) @ [line_feed]"

lemma local_statement_decodes:
  assumes "statement_ok st" "statement_fits st" "st = local_statement name artifact events repository revision ms"
  shows "decodeStatement (document st) = Inr (norm_statement st)"
proof -
  have "decodeStrict dec_statement (document st) zero_statement maxDocumentBytes = Inr (norm_statement st)"
    using assms(1,2) by (simp add: document_def statement_fits_def statement_codec.decodeStrict_file)
  moreover have "st_Type (norm_statement st) = StatementType" "elems (st_Subject (norm_statement st)) \<noteq> []"
    by (simp_all add: assms(3) norm_statement_def local_statement_def StatementType_def sanitize_ascii)
  ultimately show ?thesis by (simp add: decodeStatement_ok_iff)
qed

lemma local_round_trip:
  assumes "CreateLocalFixtureProvenance name artifact events repository revision = Inr st"
    "identity_ready events" "statement_fits st"
  shows "decodeStatement (document st) = Inr (norm_statement st)"
    "provenanceIdentity (norm_statement st) = Inr (norm_correlation (local_identity (hd events) repository revision))"
    "subjectMatches (elems (st_Subject (norm_statement st))) (sanitize name) (Digest artifact)"
proof -
  obtain ms where ok: "local_ok name artifact events repository revision"
    and m: "toMap (enc_correlation (local_identity (hd events) repository revision)) = Inr (Some ms)"
    and st: "st = local_statement name artifact events repository revision ms"
    using assms(1) by (auto simp: CreateLocalFixtureProvenance_ok_iff)
  show "decodeStatement (document st) = Inr (norm_statement st)"
    by (rule local_statement_decodes [OF _ assms(3) st]) (simp add: st local_statement_ok [OF m])
  show "provenanceIdentity (norm_statement st) = Inr (norm_correlation (local_identity (hd events) repository revision))"
    unfolding st by (rule local_identity_read [OF ok assms(2) m])
  show "subjectMatches (elems (st_Subject (norm_statement st))) (sanitize name) (Digest artifact)"
    by (simp add: st local_statement_def norm_statement_def norm_subject_def norm_strings_def norm_entries_def
        map_lit_def map_get_def sanitize_ascii)
qed

section \<open>Completeness\<close>

text \<open>The sum that \<open>completeness\<close> compares with zero.\<close>

definition lost :: "Loss \<Rightarrow> uint64" where
  "lost loss = ls_KernelReserve loss + ls_KernelCorrelation loss + ls_Decode loss + ls_Queue loss + ls_Persistence loss"

lemma completeness_cases:
  "completeness m =
    (if \<not> lc_Started (mf_Lifecycle m) \<or> \<not> lc_Finalized (mf_Lifecycle m) \<or> ls_CounterReadError (mf_Loss m) then ''unknown''
     else if lost (mf_Loss m) = 0 then ''complete'' else ''incomplete'')"
  by (auto simp: completeness_def lost_def Let_def word_neq_0_conv)

lemma completeness_range: "completeness m \<in> {''unknown'', ''incomplete'', ''complete''}"
  by (simp add: completeness_cases)

text \<open>Without wrap-around the sum is zero only if every counter is.\<close>

lemma lost_zero:
  assumes "unat (ls_KernelReserve l) + unat (ls_KernelCorrelation l) + unat (ls_Decode l) + unat (ls_Queue l) +
    unat (ls_Persistence l) < 2 ^ 64"
  shows "lost l = 0 \<longleftrightarrow> ls_KernelReserve l = 0 \<and> ls_KernelCorrelation l = 0 \<and> ls_Decode l = 0 \<and>
    ls_Queue l = 0 \<and> ls_Persistence l = 0"
proof -
  have "unat (lost l) = unat (ls_KernelReserve l) + unat (ls_KernelCorrelation l) + unat (ls_Decode l) +
      unat (ls_Queue l) + unat (ls_Persistence l)"
    using assms unfolding lost_def by (simp add: unat_word_ariths)
  then show ?thesis by (auto simp: unat_eq_0 simp flip: unat_eq_0)
qed

section \<open>Writing an accepted stream again\<close>

lemma length_raw_lines: "sum_list (map (\<lambda>l. length l + 1) (raw_lines raw)) \<le> length raw + 1"
proof (induction raw rule: raw_lines.induct)
  case (1 raw)
  show ?case
  proof (cases "raw = []")
    case False
    have split: "length (first_line raw) + 1 + length (after_line raw) \<le> length raw + (if after_line raw = [] then 1 else 0)"
      using length_takeWhile_le [of "\<lambda>c. c \<noteq> line_feed" raw]
      by (auto simp: after_line_def first_line_def not_le)
    show ?thesis
    proof (cases "after_line raw = []")
      case True
      with False split show ?thesis by (simp add: raw_lines.simps [of raw] raw_lines.simps [of "[]"])
    next
      case ne: False
      with False split "1.IH" [OF False] show ?thesis by (simp add: raw_lines.simps [of raw])
    qed
  qed (simp add: raw_lines.simps [of "[]"])
qed

lemma length_render: "length (render es) = sum_list (map (\<lambda>e. length (line e) + 1) es)"
  by (induction es) (simp_all add: render_def)

lemma length_render_take: "length (render (take k es)) \<le> length (render es)"
  by (metis append_take_drop_id concat_append length_append le_add1 map_append render_def)

lemma length_render_parsed:
  assumes "list_all2 line_of (raw_lines raw) es"
  shows "length (render es) \<le> length raw + 1"
proof -
  have "sum_list (map (\<lambda>e. length (line e) + 1) es) \<le> sum_list (map (\<lambda>l. length l + 1) ls)"
    if "list_all2 line_of ls es" for ls
    using that by (induction ls es rule: list_all2_induct) (use line_of_lengths in force)+
  then show ?thesis using assms length_raw_lines [of raw] by (simp add: length_render) (meson le_trans)
qed

lemma parsed_line: "ParseEventStream raw = Inr es \<Longrightarrow> e \<in> set es \<Longrightarrow> valid_event e \<and> length (line e) < maxEventBytes"
  using line_of_lengths
  by (fastforce simp: ParseEventStream_iff line_of_def list_all2_conv_all_nth in_set_conv_nth)

end
