(* ===== verification/Paths.thy ===== *)
theory Paths
  imports Prelude
begin

text \<open>
  The functions of Go's \<open>path/filepath\<close> (on Unix) and \<open>strings\<close> that the commands and the bundle
  files use, on byte strings.
\<close>

definition slash :: char where "slash = CHR ''/''"

text \<open>The pieces between slashes, empty ones included.\<close>

fun segments :: "string \<Rightarrow> string list" where
  "segments [] = [[]]"
| "segments (c # s) =
     (if c = slash then [] # segments s
      else (case segments s of [] \<Rightarrow> [[c]] | t # ts \<Rightarrow> (c # t) # ts))"

definition IsAbs :: "string \<Rightarrow> bool" where
  "IsAbs path \<longleftrightarrow> path \<noteq> [] \<and> hd path = slash"

text \<open>The loop of \<open>Clean\<close> over the pieces, with the pieces kept so far, the last one first.\<close>

fun clean_loop :: "bool \<Rightarrow> string list \<Rightarrow> string list \<Rightarrow> string list" where
  "clean_loop rooted kept [] = rev kept"
| "clean_loop rooted kept (t # ts) =
     (if t = [] \<or> t = ''.'' then clean_loop rooted kept ts
      else if t = ''..'' then
        (if kept \<noteq> [] \<and> hd kept \<noteq> ''..'' then clean_loop rooted (tl kept) ts
         else if rooted then clean_loop rooted kept ts
         else clean_loop rooted (t # kept) ts)
      else clean_loop rooted (t # kept) ts)"

definition Clean :: "string \<Rightarrow> string" where
  "Clean path =
     (let kept = clean_loop (IsAbs path) [] (segments path) in
      if IsAbs path then slash # join [slash] kept
      else if kept = [] then ''.'' else join [slash] kept)"

definition Join :: "string \<Rightarrow> string \<Rightarrow> string" where
  "Join directory name =
     (if directory \<noteq> [] then Clean (directory @ [slash] @ name)
      else if name \<noteq> [] then Clean name else [])"

definition Base :: "string \<Rightarrow> string" where
  "Base path =
     (if path = [] then ''.''
      else
        (let trimmed = rev (dropWhile (\<lambda>c. c = slash) (rev path));
             name = rev (takeWhile (\<lambda>c. c \<noteq> slash) (rev trimmed)) in
         if name = [] then [slash] else name))"

definition Dir :: "string \<Rightarrow> string" where
  "Dir path = Clean (rev (dropWhile (\<lambda>c. c \<noteq> slash) (rev path)))"

definition HasPrefix :: "string \<Rightarrow> string \<Rightarrow> bool" where
  "HasPrefix s prefix \<longleftrightarrow> take (length prefix) s = prefix"

definition HasSuffix :: "string \<Rightarrow> string \<Rightarrow> bool" where
  "HasSuffix s suffix \<longleftrightarrow> length suffix \<le> length s \<and> drop (length s - length suffix) s = suffix"

section \<open>Joining a directory and a plain name\<close>

definition plain :: "string \<Rightarrow> bool" where
  "plain name \<longleftrightarrow> name \<noteq> [] \<and> slash \<notin> set name \<and> name \<noteq> ''.'' \<and> name \<noteq> ''..''"

text \<open>What the cleaned directory puts before a name.\<close>

definition stem :: "string \<Rightarrow> string" where
  "stem directory = (if IsAbs directory then [slash] else []) @
     concat (map (\<lambda>t. t @ [slash]) (clean_loop (IsAbs directory) [] (segments directory)))"

lemma segments_plain: "slash \<notin> set s \<Longrightarrow> segments s = [s]"
  by (induction s) auto

lemma segments_nonempty [simp]: "segments s \<noteq> []"
  by (cases s) (auto split: list.split)

lemma segments_append: "segments (s @ slash # t) = segments s @ segments t"
  by (induction s) (auto split: list.split)

lemma clean_loop_append:
  "clean_loop rooted kept (ts @ us) = clean_loop rooted (rev (clean_loop rooted kept ts)) us"
proof (induction ts arbitrary: kept)
  case (Cons t ts)
  then show ?case by (cases rooted) simp_all
qed simp

lemma clean_loop_plain: "plain t \<Longrightarrow> clean_loop rooted kept (ts @ [t]) = clean_loop rooted kept ts @ [t]"
  by (simp add: clean_loop_append plain_def)

lemma join_snoc: "join [slash] (ts @ [t]) = concat (map (\<lambda>t. t @ [slash]) ts) @ t"
  by (induction ts) (auto simp: join_Cons)

lemma Join_plain: "plain name \<Longrightarrow> Join directory name = stem directory @ name"
proof -
  assume p: "plain name"
  then have s: "segments name = [name]" by (simp add: plain_def segments_plain)
  show ?thesis
  proof (cases "directory = []")
    case True
    have "\<not> IsAbs name" using p by (cases name) (auto simp: plain_def IsAbs_def)
    moreover have "clean_loop False [] (segments name) = [name]" using p by (simp add: s plain_def)
    ultimately show ?thesis using p True
      by (simp add: Join_def Clean_def stem_def IsAbs_def plain_def join_snoc [of "[]", simplified])
  next
    case False
    have "segments (directory @ slash # name) = segments directory @ [name]" by (simp add: segments_append s)
    moreover have "IsAbs (directory @ slash # name) = IsAbs directory" using False by (simp add: IsAbs_def)
    ultimately show ?thesis using False
      by (simp add: Join_def Clean_def stem_def clean_loop_plain [OF p] join_snoc)
  qed
qed

lemma Join_inject: "plain m \<Longrightarrow> plain n \<Longrightarrow> Join d m = Join d n \<longleftrightarrow> m = n"
  by (simp add: Join_plain)

end
