(* ===== verification/Files.thy ===== *)
theory Files
  imports Local Paths
begin

text \<open>
  The file functions at the end of \<open>internal/rpf/verify.go\<close>: \<open>ReadInputs\<close>, \<open>WriteBundle\<close>,
  \<open>WriteCanonicalExclusive\<close> and \<open>LoadBundle\<close>. The state is the part of the file system that holds
  regular files, by path, and the outcomes of the calls to come: a call can fail, and a write that
  fails can leave the first bytes behind. Directories, permissions and other processes are left
  out; \<open>MkdirAll\<close> succeeds or fails. Paths are cleaned as \<open>filepath\<close> does (\<open>Paths\<close>).
\<close>

section \<open>Calls that can fail\<close>

text \<open>\<open>Refused\<close>: the call did nothing. \<open>Broken n\<close>: a write stopped after \<open>n\<close> bytes.\<close>

datatype fault = Refused | Broken nat

text \<open>The fault of each call to come, \<open>None\<close> for success; calls after the end of the list succeed.\<close>

record os =
  os_files :: "string \<Rightarrow> bytes option"
  os_faults :: "fault option list"

definition next_fault :: "os \<Rightarrow> fault option" where
  "next_fault s = (case os_faults s of [] \<Rightarrow> None | f # _ \<Rightarrow> f)"

definition called :: "os \<Rightarrow> os" where
  "called s = s\<lparr>os_faults := tl (os_faults s)\<rparr>"

definition put_file :: "string \<Rightarrow> bytes \<Rightarrow> os \<Rightarrow> os" where
  "put_file path data s = s\<lparr>os_files := (os_files s)(path := Some data)\<rparr>"

definition drop_file :: "string \<Rightarrow> os \<Rightarrow> os" where
  "drop_file path s = s\<lparr>os_files := (os_files s)(path := None)\<rparr>"

abbreviation io_error :: gerr where "io_error \<equiv> VerifyErr FileError"

definition ReadFile :: "string \<Rightarrow> os \<Rightarrow> bytes result \<times> os" where
  "ReadFile path s =
     (case (next_fault s, os_files s path) of
        (None, Some data) \<Rightarrow> (Inr data, called s)
      | _ \<Rightarrow> (Inl io_error, called s))"

text \<open>A call that only succeeds or fails: \<open>MkdirAll\<close>, \<open>Sync\<close>, \<open>Close\<close>.\<close>

definition plain_call :: "os \<Rightarrow> unit result \<times> os" where
  "plain_call s = (case next_fault s of None \<Rightarrow> (Inr (), called s) | Some _ \<Rightarrow> (Inl io_error, called s))"

text \<open>\<open>os.WriteFile\<close> creates or truncates the file and writes.\<close>

definition WriteFile :: "string \<Rightarrow> bytes \<Rightarrow> os \<Rightarrow> unit result \<times> os" where
  "WriteFile path data s =
     (case next_fault s of
        None \<Rightarrow> (Inr (), put_file path data (called s))
      | Some Refused \<Rightarrow> (Inl io_error, called s)
      | Some (Broken n) \<Rightarrow> (Inl io_error, put_file path (take n data) (called s)))"

definition Rename :: "string \<Rightarrow> string \<Rightarrow> os \<Rightarrow> unit result \<times> os" where
  "Rename old new s =
     (case (next_fault s, os_files s old) of
        (None, Some data) \<Rightarrow> (Inr (), put_file new data (drop_file old (called s)))
      | _ \<Rightarrow> (Inl io_error, called s))"

text \<open>\<open>os.OpenFile\<close> with \<open>O_CREATE|O_EXCL\<close>, and \<open>Write\<close> on the file it opened.\<close>

definition OpenExclusive :: "string \<Rightarrow> os \<Rightarrow> unit result \<times> os" where
  "OpenExclusive path s =
     (case (next_fault s, os_files s path) of
        (None, None) \<Rightarrow> (Inr (), put_file path [] (called s))
      | _ \<Rightarrow> (Inl io_error, called s))"

definition Write :: "string \<Rightarrow> bytes \<Rightarrow> os \<Rightarrow> unit result \<times> os" where
  "Write path data s =
     (let old = (case os_files s path of None \<Rightarrow> [] | Some d \<Rightarrow> d) in
      case next_fault s of
        None \<Rightarrow> (Inr (), put_file path (old @ data) (called s))
      | Some Refused \<Rightarrow> (Inl io_error, called s)
      | Some (Broken n) \<Rightarrow> (Inl io_error, put_file path (old @ take n data) (called s)))"

definition Remove :: "string \<Rightarrow> os \<Rightarrow> unit result \<times> os" where
  "Remove path s =
     (case (next_fault s, os_files s path) of
        (None, Some _) \<Rightarrow> (Inr (), drop_file path (called s))
      | _ \<Rightarrow> (Inl io_error, called s))"

text \<open>\<open>x, err := f(); if err != nil { return err }\<close> with the state passed on.\<close>

definition io_then :: "'a result \<times> os \<Rightarrow> ('a \<Rightarrow> os \<Rightarrow> 'b result \<times> os) \<Rightarrow> 'b result \<times> os" where
  "io_then m f = (case m of (Inl e, s) \<Rightarrow> (Inl e, s) | (Inr x, s) \<Rightarrow> f x s)"

lemma io_then_simps [simp]: "io_then (Inl e, s) f = (Inl e, s)" "io_then (Inr x, s) f = f x s"
  by (simp_all add: io_then_def)

lemma io_then_eq_Inr: "io_then m f = (Inr y, s') \<longleftrightarrow> (\<exists>x s. m = (Inr x, s) \<and> f x s = (Inr y, s'))"
  by (cases m; cases "fst m") (auto simp: io_then_def)

section \<open>The code\<close>

definition ReadInputs :: "string \<Rightarrow> string \<Rightarrow> string \<Rightarrow> string \<Rightarrow> os \<Rightarrow> Inputs result \<times> os" where
  "ReadInputs artifactPath eventPath provenancePath policyPath s =
     io_then (ReadFile artifactPath s) (\<lambda>artifact s.
     io_then (ReadFile eventPath s) (\<lambda>events s.
     io_then (ReadFile provenancePath s) (\<lambda>provenance s.
     io_then (ReadFile policyPath s) (\<lambda>policy s.
       (Inr \<lparr>ip_ArtifactBytes = artifact, ip_ArtifactName = Base artifactPath, ip_EventBytes = events,
          ip_ProvenanceBytes = provenance, ip_PolicyBytes = policy\<rparr>, s)))))"

text \<open>One round of the loop of \<open>WriteBundle\<close>, and the loop over the names in some order.\<close>

definition temporary :: "string \<Rightarrow> string" where "temporary path = path @ ''.tmp''"

definition write_entry :: "string \<Rightarrow> string \<Rightarrow> json \<Rightarrow> os \<Rightarrow> unit result \<times> os" where
  "write_entry directory name value s =
     (case canonical value of
        Inl e \<Rightarrow> (Inl e, s)
      | Inr raw \<Rightarrow>
          (let path = Join directory name in
           io_then (WriteFile (temporary path) (raw @ [line_feed]) s) (\<lambda>_ s.
             Rename (temporary path) path s)))"

fun write_entries :: "string \<Rightarrow> json gomap \<Rightarrow> string list \<Rightarrow> os \<Rightarrow> unit result \<times> os" where
  "write_entries directory files [] s = (Inr (), s)"
| "write_entries directory files (name # names) s =
     (case map_get files name of
        None \<Rightarrow> write_entries directory files names s
      | Some value \<Rightarrow>
          io_then (write_entry directory name value s) (\<lambda>_ s. write_entries directory files names s))"

definition graph_name :: string where "graph_name = ''execution-graph.json''"
definition manifest_name :: string where "manifest_name = ''evidence-manifest.json''"
definition trace_name :: string where "trace_name = ''runtime-trace.json''"

definition bundle_files :: "Bundle \<Rightarrow> json gomap" where
  "bundle_files bundle = map_lit
     [(graph_name, enc_graph (bd_Graph bundle)), (manifest_name, enc_manifest (bd_Manifest bundle)),
      (trace_name, enc_statement (bd_RuntimeTrace bundle))]"

definition WriteBundle :: "(string list \<Rightarrow> string list) \<Rightarrow> string \<Rightarrow> Bundle \<Rightarrow> os \<Rightarrow> unit result \<times> os" where
  "WriteBundle order directory bundle s =
     io_then (plain_call s) (\<lambda>_ s.
       write_entries directory (bundle_files bundle) (order (map fst (bundle_files bundle))) s)"

text \<open>
  \<open>WriteCanonicalExclusive\<close>: after the file was created, each failure closes it (but for a failing
  \<open>Close\<close>) and removes it; the results of that are ignored.
\<close>

definition WriteCanonicalExclusive :: "string \<Rightarrow> json \<Rightarrow> os \<Rightarrow> unit result \<times> os" where
  "WriteCanonicalExclusive path value s =
     (case canonical value of
        Inl e \<Rightarrow> (Inl e, s)
      | Inr raw \<Rightarrow>
          io_then (OpenExclusive path s) (\<lambda>_ s.
            (let cleanup = (\<lambda>s. snd (Remove path (snd (plain_call s)))) in
             case Write path (raw @ [line_feed]) s of
               (Inl e, s) \<Rightarrow> (Inl e, cleanup s)
             | (Inr _, s) \<Rightarrow>
                 (case plain_call s of
                    (Inl e, s) \<Rightarrow> (Inl e, cleanup s)
                  | (Inr _, s) \<Rightarrow>
                      (case plain_call s of
                         (Inl e, s) \<Rightarrow> (Inl e, snd (Remove path s))
                       | (Inr _, s) \<Rightarrow> (Inr (), s))))))"

definition read_document :: "'a decode \<Rightarrow> 'a \<Rightarrow> string \<Rightarrow> string \<Rightarrow> os \<Rightarrow> 'a result \<times> os" where
  "read_document dec zero directory name s =
     io_then (ReadFile (Join directory name) s) (\<lambda>raw s. (decodeStrict dec raw zero maxDocumentBytes, s))"

definition LoadBundle :: "string \<Rightarrow> os \<Rightarrow> Bundle result \<times> os" where
  "LoadBundle directory s =
     io_then (read_document dec_graph zero_graph directory graph_name s) (\<lambda>graph s.
     io_then (read_document dec_manifest zero_manifest directory manifest_name s) (\<lambda>manifest s.
     io_then (read_document dec_statement zero_statement directory trace_name s) (\<lambda>trace s.
       (Inr \<lparr>bd_Graph = graph, bd_Manifest = manifest, bd_RuntimeTrace = trace\<rparr>, s))))"

section \<open>What the calls change\<close>

lemma called_files [simp]: "os_files (called s) = os_files s"
  by (simp add: called_def)

lemma put_drop_files [simp]:
  "os_files (put_file p d s) = (os_files s)(p := Some d)" "os_files (drop_file p s) = (os_files s)(p := None)"
  by (simp_all add: put_file_def drop_file_def)

text \<open>The document that is written for a value.\<close>

definition document_of :: "json \<Rightarrow> bytes" where
  "document_of value = marshal (canon value) @ [line_feed]"

lemma plain_call_files: "plain_call s = (r, s') \<Longrightarrow> os_files s' = os_files s"
  by (auto simp: plain_call_def split: option.splits)

lemma WriteFile_files:
  "WriteFile path data s = (r, s') \<Longrightarrow>
   (\<forall>p. p \<noteq> path \<longrightarrow> os_files s' p = os_files s p) \<and> (r = Inr () \<longrightarrow> os_files s' path = Some data)"
  by (auto simp: WriteFile_def split: option.splits fault.splits)

lemma Rename_files:
  "old \<noteq> new \<Longrightarrow> Rename old new s = (r, s') \<Longrightarrow>
   (\<forall>p. p \<noteq> old \<and> p \<noteq> new \<longrightarrow> os_files s' p = os_files s p) \<and>
   (r = Inr () \<longrightarrow> os_files s' new = os_files s old \<and> os_files s old \<noteq> None \<and> os_files s' old = None) \<and>
   (r \<noteq> Inr () \<longrightarrow> os_files s' = os_files s)"
  by (auto simp: Rename_def split: option.splits)

text \<open>
  After a round of the loop the file is the document, or it is what it was before; besides it only
  the temporary file can have changed.
\<close>

lemma write_entry_files:
  assumes "write_entry directory name value s = (r, s')"
  shows "\<forall>p. p \<noteq> Join directory name \<and> p \<noteq> temporary (Join directory name) \<longrightarrow> os_files s' p = os_files s p"
    "r = Inr () \<Longrightarrow> os_files s' (Join directory name) = Some (document_of value)"
    "r \<noteq> Inr () \<Longrightarrow> os_files s' (Join directory name) = os_files s (Join directory name)"
proof -
  let ?p = "Join directory name"
  have d: "temporary ?p \<noteq> ?p" "?p \<noteq> temporary ?p" by (simp_all add: temporary_def)
  have "(\<forall>p. p \<noteq> ?p \<and> p \<noteq> temporary ?p \<longrightarrow> os_files s' p = os_files s p) \<and>
    (r = Inr () \<longrightarrow> os_files s' ?p = Some (document_of value)) \<and> (r \<noteq> Inr () \<longrightarrow> os_files s' ?p = os_files s ?p)"
  proof (cases "canonical value")
    case (Inl e)
    with assms show ?thesis by (auto simp: write_entry_def)
  next
    case (Inr raw)
    then have raw: "raw = marshal (canon value)" by (simp add: canonical_ok_iff)
    obtain r1 s1 where w: "WriteFile (temporary ?p) (raw @ [line_feed]) s = (r1, s1)" by force
    note wf = WriteFile_files [OF w]
    show ?thesis
    proof (cases r1)
      case (Inl e)
      with assms Inr w wf d show ?thesis by (auto simp: write_entry_def Let_def)
    next
      case (Inr u)
      then have rn: "Rename (temporary ?p) ?p s1 = (r, s')"
        using assms \<open>canonical value = Inr raw\<close> w by (simp add: write_entry_def Let_def)
      show ?thesis using Rename_files [OF d(1) rn] wf Inr d by (auto simp: document_of_def raw)
    qed
  qed
  then show "\<forall>p. p \<noteq> Join directory name \<and> p \<noteq> temporary (Join directory name) \<longrightarrow> os_files s' p = os_files s p"
    "r = Inr () \<Longrightarrow> os_files s' (Join directory name) = Some (document_of value)"
    "r \<noteq> Inr () \<Longrightarrow> os_files s' (Join directory name) = os_files s (Join directory name)"
    by blast+
qed

text \<open>Names that do not get in each other's way, temporary files included.\<close>

definition apart :: "string list \<Rightarrow> bool" where
  "apart names \<longleftrightarrow> (\<forall>m \<in> set names. plain m) \<and>
     (\<forall>m \<in> set names. \<forall>n \<in> set names. m \<noteq> n @ ''.tmp'')"

lemma apart_Join:
  "apart names \<Longrightarrow> m \<in> set names \<Longrightarrow> n \<in> set names \<Longrightarrow>
   Join d m \<noteq> temporary (Join d n) \<and> (Join d m = Join d n \<longleftrightarrow> m = n)"
  by (auto simp: apart_def temporary_def Join_plain)

definition stored :: "json gomap \<Rightarrow> string \<Rightarrow> bytes" where
  "stored files name = document_of (the (map_get files name))"

lemma write_entries_files:
  assumes "apart (map fst files)" "set names \<subseteq> set (map fst files)" "distinct names" "map_wf files"
    "write_entries directory files names s = (r, s')"
  shows "\<forall>m \<in> set (map fst files).
    (os_files s' (Join directory m) = os_files s (Join directory m) \<or>
     m \<in> set names \<and> os_files s' (Join directory m) = Some (stored files m)) \<and>
    (r = Inr () \<and> m \<in> set names \<longrightarrow> os_files s' (Join directory m) = Some (stored files m))"
  using assms(2,3,5)
proof (induction names arbitrary: s)
  case (Cons n names)
  obtain v where v: "map_get files n = Some v"
    using Cons.prems(1) assms(4) by (auto simp: map_get_eq_Some)
  have n: "n \<in> set (map fst files)" using Cons.prems(1) by simp
  obtain r1 s1 where e: "write_entry directory n v s = (r1, s1)" by force
  have other: "os_files s1 (Join directory m) = os_files s (Join directory m)" if "m \<in> set (map fst files)" "m \<noteq> n" for m
    using write_entry_files(1) [OF e] apart_Join [OF assms(1) that(1) n] that(2) by auto
  show ?case
  proof (cases r1)
    case (Inl err)
    then have "s' = s1" "r = Inl err" using Cons.prems(3) v e by (auto simp: io_then_def)
    then show ?thesis using write_entry_files(3) [OF e] Inl other by auto
  next
    case (Inr u)
    then have rest: "write_entries directory files names s1 = (r, s')" using Cons.prems(3) v e by (simp add: io_then_def)
    have IH: "\<forall>m \<in> set (map fst files).
      (os_files s' (Join directory m) = os_files s1 (Join directory m) \<or>
       m \<in> set names \<and> os_files s' (Join directory m) = Some (stored files m)) \<and>
      (r = Inr () \<and> m \<in> set names \<longrightarrow> os_files s' (Join directory m) = Some (stored files m))"
      by (rule Cons.IH [OF _ _ rest]) (use Cons.prems in auto)
    have "os_files s1 (Join directory n) = Some (stored files n)"
      using write_entry_files(2) [OF e] Inr v by (simp add: stored_def)
    then show ?thesis using IH other n by (metis (no_types, lifting) insert_iff list.simps(15))
  qed
qed auto

lemma bundle_names [simp]: "map fst (bundle_files b) = [manifest_name, graph_name, trace_name]"
  by (simp add: bundle_files_def map_lit_def graph_name_def manifest_name_def trace_name_def)

lemma bundle_apart: "apart (map fst (bundle_files b))"
  by (simp add: apart_def plain_def graph_name_def manifest_name_def trace_name_def slash_def)

lemma bundle_wf: "map_wf (bundle_files b)"
  by (simp add: bundle_files_def)

lemma bundle_stored:
  "stored (bundle_files b) graph_name = document_of (enc_graph (bd_Graph b))"
  "stored (bundle_files b) manifest_name = document_of (enc_manifest (bd_Manifest b))"
  "stored (bundle_files b) trace_name = document_of (enc_statement (bd_RuntimeTrace b))"
  by (simp_all add: stored_def bundle_files_def map_get_lit graph_name_def manifest_name_def trace_name_def)

lemma WriteBundle_files:
  assumes "permutes order" "WriteBundle order directory b s = (r, s')" "name \<in> {manifest_name, graph_name, trace_name}"
  shows "os_files s' (Join directory name) = os_files s (Join directory name) \<or>
      os_files s' (Join directory name) = Some (stored (bundle_files b) name)"
    "r = Inr () \<Longrightarrow> os_files s' (Join directory name) = Some (stored (bundle_files b) name)"
proof -
  let ?keys = "map fst (bundle_files b)"
  have ms: "mset (order ?keys) = mset ?keys" using assms(1) by (simp add: permutes_def)
  have keys: "set (order ?keys) = set ?keys" "distinct (order ?keys)"
    using ms mset_eq_setD map_wf_distinct [OF bundle_wf [of b]] mset_eq_imp_distinct_iff by metis+
  obtain r1 s1 where c: "plain_call s = (r1, s1)" by force
  have f: "os_files s1 = os_files s" by (rule plain_call_files [OF c])
  have "(os_files s' (Join directory name) = os_files s (Join directory name) \<or>
      os_files s' (Join directory name) = Some (stored (bundle_files b) name)) \<and>
    (r = Inr () \<longrightarrow> os_files s' (Join directory name) = Some (stored (bundle_files b) name))"
  proof (cases r1)
    case (Inl e)
    then show ?thesis using assms(2) c f by (auto simp: WriteBundle_def)
  next
    case (Inr u)
    then have "write_entries directory (bundle_files b) (order ?keys) s1 = (r, s')"
      using assms(2) c by (simp add: WriteBundle_def)
    from write_entries_files [OF bundle_apart _ keys(2) bundle_wf this] keys(1) assms(3) f
    show ?thesis by auto
  qed
  then show "os_files s' (Join directory name) = os_files s (Join directory name) \<or>
      os_files s' (Join directory name) = Some (stored (bundle_files b) name)"
    "r = Inr () \<Longrightarrow> os_files s' (Join directory name) = Some (stored (bundle_files b) name)"
    by blast+
qed

section \<open>Reading a bundle back\<close>

definition norm_bundle :: "Bundle \<Rightarrow> Bundle" where
  "norm_bundle b = \<lparr>bd_Graph = norm_graph (bd_Graph b), bd_Manifest = norm_manifest (bd_Manifest b),
     bd_RuntimeTrace = norm_statement (bd_RuntimeTrace b)\<rparr>"

text \<open>Documents \<open>LoadBundle\<close> takes: within the limits of the strict decoder.\<close>

definition loadable :: "json \<Rightarrow> bool" where
  "loadable value \<longleftrightarrow> length (document_of value) \<le> maxDocumentBytes \<and> shape_ok (canon value)"

definition bundle_ok :: "Bundle \<Rightarrow> bool" where
  "bundle_ok b \<longleftrightarrow> graph_ok (bd_Graph b) \<and> statement_ok (bd_RuntimeTrace b) \<and>
     loadable (enc_graph (bd_Graph b)) \<and> loadable (enc_manifest (bd_Manifest b)) \<and>
     loadable (enc_statement (bd_RuntimeTrace b))"

context codec
begin

lemma decodeStrict_loadable:
  "ok x \<Longrightarrow> loadable (enc x) \<Longrightarrow> decodeStrict dec (document_of (enc x)) zero maxDocumentBytes = Inr (norm x)"
  by (simp add: document_of_def loadable_def decodeStrict_file)

end

definition quiet :: "os \<Rightarrow> bool" where
  "quiet s \<longleftrightarrow> os_faults s = []"

lemma quiet_called [simp]: "quiet s \<Longrightarrow> called s = s"
  by (simp add: quiet_def called_def)

lemma ReadFile_quiet: "quiet s \<Longrightarrow> os_files s path = Some data \<Longrightarrow> ReadFile path s = (Inr data, s)"
  by (simp add: ReadFile_def next_fault_def quiet_def called_def)

lemma LoadBundle_stored:
  assumes "quiet s" "bundle_ok b"
    "\<And>name. name \<in> {manifest_name, graph_name, trace_name} \<Longrightarrow>
       os_files s (Join directory name) = Some (stored (bundle_files b) name)"
  shows "LoadBundle directory s = (Inr (norm_bundle b), s)"
proof -
  have "read_document dec_graph zero_graph directory graph_name s = (Inr (norm_graph (bd_Graph b)), s)"
    "read_document dec_manifest zero_manifest directory manifest_name s = (Inr (norm_manifest (bd_Manifest b)), s)"
    "read_document dec_statement zero_statement directory trace_name s = (Inr (norm_statement (bd_RuntimeTrace b)), s)"
    using assms(2)
    by (simp_all add: read_document_def ReadFile_quiet [OF assms(1) assms(3)] bundle_stored bundle_ok_def
        graph_codec.decodeStrict_loadable manifest_codec.decodeStrict_loadable statement_codec.decodeStrict_loadable)
  then show ?thesis by (simp add: LoadBundle_def norm_bundle_def)
qed

section \<open>An identity read from a document is in normal form\<close>

text \<open>A struct decoder keeps what its field decoders keep.\<close>

lemma find_field_mem: "find_field fs k = Some f \<Longrightarrow> \<exists>n. (n, f) \<in> set fs"
  by (auto simp: find_field_def split: option.splits dest!: map_of_SomeD)

lemma dec_members_inv:
  "(\<And>n f j r r'. (n, f) \<in> set fs \<Longrightarrow> all_clean j \<Longrightarrow> P r \<Longrightarrow> f j r = Some r' \<Longrightarrow> P r') \<Longrightarrow>
   all_clean (JObj ms) \<Longrightarrow> P r \<Longrightarrow> dec_members fs ms r = Some r' \<Longrightarrow> P r'"
proof (induction ms arbitrary: r)
  case (Cons m ms)
  obtain k j where m: "m = (k, j)" by force
  obtain f r1 where f: "find_field fs k = Some f" "f j r = Some r1" "dec_members fs ms r1 = Some r'"
    using Cons.prems(4) by (auto simp: m dec_members.simps split: option.splits)
  obtain n where "(n, f) \<in> set fs" using find_field_mem [OF f(1)] by blast
  then have "P r1" using Cons.prems(1) [of n f j r r1] Cons.prems(2,3) f(2) by (simp add: m)
  then show ?case using Cons.IH [OF Cons.prems(1) _ _ f(3)] Cons.prems(2) by (simp add: m)
qed simp

lemma dec_struct_inv:
  assumes "\<And>n f j r r'. (n, f) \<in> set fs \<Longrightarrow> all_clean j \<Longrightarrow> P r \<Longrightarrow> f j r = Some r' \<Longrightarrow> P r'"
    "all_clean j" "P r" "dec_struct fs j r = Some r'"
  shows "P r'"
proof (cases j)
  case (JObj ms)
  then have "dec_members fs ms r = Some r'" using assms(4) by (simp add: dec_struct_def)
  with assms(1) assms(2) [unfolded JObj] assms(3) show ?thesis by (rule dec_members_inv)
qed (use assms(3,4) in \<open>simp_all add: dec_struct_def\<close>)

lemma dec_string_clean: "all_clean j \<Longrightarrow> dec_string j s = Some t \<Longrightarrow> sanitize s = s \<Longrightarrow> sanitize t = t"
  by (cases j) (simp_all add: dec_string_def sanitize_valid)

lemma norm_source_iff:
  "norm_source r = r \<longleftrightarrow> sanitize (src_Repository r) = src_Repository r \<and> sanitize (src_Revision r) = src_Revision r"
  by (cases r) (simp add: norm_source_def)

lemma norm_run_identity_iff:
  "norm_run_identity r = r \<longleftrightarrow> sanitize (ri_Provider r) = ri_Provider r \<and> sanitize (ri_RunID r) = ri_RunID r"
  by (cases r) (simp add: norm_run_identity_def)

lemma norm_correlation_iff:
  "norm_correlation c = c \<longleftrightarrow>
   sanitize (co_BuildID c) = co_BuildID c \<and> sanitize (co_BuilderID c) = co_BuilderID c \<and>
   norm_run_identity (co_RunIdentity c) = co_RunIdentity c \<and> norm_source (co_Source c) = co_Source c \<and>
   sanitize (co_EvidenceManifestHash c) = co_EvidenceManifestHash c \<and>
   sanitize (co_ExecutionGraphHash c) = co_ExecutionGraphHash c \<and>
   sanitize (co_SLSAProvenanceHash c) = co_SLSAProvenanceHash c \<and>
   sanitize (co_PolicyHash c) = co_PolicyHash c \<and> sanitize (co_Completeness c) = co_Completeness c"
  by (cases c) (simp add: norm_correlation_def)

lemma dec_source_clean:
  assumes "all_clean j" "dec_source j r = Some r'" "norm_source r = r"
  shows "norm_source r' = r'"
  by (rule dec_struct_inv [where P = "\<lambda>r. norm_source r = r", OF _ assms(1,3) assms(2) [unfolded dec_source_def]])
    (auto simp: field_def norm_source_iff; metis dec_string_clean)

lemma dec_run_identity_clean:
  assumes "all_clean j" "dec_run_identity j r = Some r'" "norm_run_identity r = r"
  shows "norm_run_identity r' = r'"
  by (rule dec_struct_inv [where P = "\<lambda>r. norm_run_identity r = r", OF _ assms(1,3) assms(2) [unfolded dec_run_identity_def]])
    (auto simp: field_def norm_run_identity_iff; metis dec_string_clean)

lemma dec_correlation_clean:
  assumes "all_clean j" "dec_correlation j r = Some r'" "norm_correlation r = r"
  shows "norm_correlation r' = r'"
  by (rule dec_struct_inv [where P = "\<lambda>r. norm_correlation r = r", OF _ assms(1,3) assms(2) [unfolded dec_correlation_def]])
    (auto simp: field_def norm_correlation_iff; metis dec_string_clean dec_source_clean dec_run_identity_clean)

lemma identity_normal: "provenanceIdentity st = Inr identity \<Longrightarrow> norm_correlation identity = identity"
proof -
  assume "provenanceIdentity st = Inr identity"
  then obtain raw v where "canonical v = Inr raw"
      "decodeStrict dec_correlation raw zero_correlation maxDocumentBytes = Inr identity"
    by (auto simp: provenanceIdentity_def Let_def and_then_eq_Inr split: option.splits if_splits)
  then have "normal (canon v)" "dec_correlation (canon v) zero_correlation = Some identity"
    using parse_normal [of "canon v" "[]"] by (auto simp: canonical_ok_iff decodeStrict_ok_iff)
  moreover have "norm_correlation zero_correlation = zero_correlation"
    by (simp add: norm_correlation_iff norm_run_identity_iff norm_source_iff zero_correlation_def
        zero_run_identity_def zero_source_def)
  ultimately show ?thesis using dec_correlation_clean by (auto simp: normal_def)
qed

section \<open>A loaded bundle verifies as the bundle that was written\<close>

lemma canonicalEqual_norm:
  "graph_ok g \<Longrightarrow> canonicalEqual (enc_graph (norm_graph g)) j = canonicalEqual (enc_graph g) j"
  "canonicalEqual (enc_manifest (norm_manifest m)) j = canonicalEqual (enc_manifest m) j"
  "statement_ok t \<Longrightarrow> canonicalEqual (enc_statement (norm_statement t)) j = canonicalEqual (enc_statement t) j"
  by (simp_all add: canonicalEqual_iff graph_codec.enc_norm manifest_codec.enc_norm statement_codec.enc_norm)

lemma norm_manifest_identity [simp]:
  "mf_BuildID (norm_manifest m) = sanitize (mf_BuildID m)"
  "mf_RunIdentity (norm_manifest m) = norm_run_identity (mf_RunIdentity m)"
  by (simp_all add: norm_manifest_def)

lemma completeness_norm [simp]: "completeness (norm_manifest m) = completeness m"
  by (simp add: completeness_cases)

lemma binding_reasons_norm:
  assumes "graph_ok (bd_Graph b)" "statement_ok (bd_RuntimeTrace b)"
    "sanitize (mf_BuildID (bd_Manifest b)) = mf_BuildID (bd_Manifest b)"
    "norm_run_identity (mf_RunIdentity (bd_Manifest b)) = mf_RunIdentity (bd_Manifest b)"
  shows "binding_reasons (norm_bundle b) r identity = binding_reasons b r identity"
  using assms by (simp add: binding_reasons_def norm_bundle_def canonicalEqual_norm)

lemma Verify_norm_bundle:
  assumes "graph_ok (bd_Graph b)" "statement_ok (bd_RuntimeTrace b)"
    "sanitize (mf_BuildID (bd_Manifest b)) = mf_BuildID (bd_Manifest b)"
    "norm_run_identity (mf_RunIdentity (bd_Manifest b)) = mf_RunIdentity (bd_Manifest b)"
  shows "Verify order inputs (norm_bundle b) = Verify order inputs b"
proof -
  have "ar_SHA256 (mf_Artifact (bd_Manifest (norm_bundle b))) \<noteq> Digest d \<longleftrightarrow> ar_SHA256 (mf_Artifact (bd_Manifest b)) \<noteq> Digest d" for d
    by (simp add: norm_bundle_def norm_artifact_def)
  moreover have "completeness (bd_Manifest (norm_bundle b)) = completeness (bd_Manifest b)" by (simp add: norm_bundle_def)
  ultimately show ?thesis unfolding Verify_def binding_reasons_norm [OF assms] by (simp add: Let_def)
qed

lemma assembles_normal:
  assumes "permutes order" "assembles order inputs a b"
  shows "graph_ok (bd_Graph b)" "statement_ok (bd_RuntimeTrace b)"
    "sanitize (mf_BuildID (bd_Manifest b)) = mf_BuildID (bd_Manifest b)"
    "norm_run_identity (mf_RunIdentity (bd_Manifest b)) = mf_RunIdentity (bd_Manifest b)"
proof -
  obtain m where p: "inputs_parse inputs a" and g: "BuildGraph order (as_events a) = Inr (as_graph a)"
    and m: "toMap (enc_correlation (as_correlation inputs a)) = Inr m"
    and b: "b = \<lparr>bd_Graph = as_graph a, bd_Manifest = as_manifest inputs a,
             bd_RuntimeTrace = assemble_trace inputs (as_events a) (as_identity a) (as_graph a) m\<rparr>"
    using assms(2) by (auto simp: assembles_def)
  from g have "as_graph a = graph_of (as_events a)" unfolding BuildGraph_spec [OF assms(1)] by blast
  then show "graph_ok (bd_Graph b)" using p parsed_graph_ok by (auto simp: b inputs_parse_def)
  show "statement_ok (bd_RuntimeTrace b)" using trace_ok [OF m] by (simp add: b)
  have "norm_correlation (as_identity a) = as_identity a"
    using p identity_normal by (auto simp: inputs_parse_def)
  then show "sanitize (mf_BuildID (bd_Manifest b)) = mf_BuildID (bd_Manifest b)"
    "norm_run_identity (mf_RunIdentity (bd_Manifest b)) = mf_RunIdentity (bd_Manifest b)"
    by (simp_all add: b as_manifest_def assemble_manifest_def norm_correlation_iff)
qed

lemma stored_bundle_verifies:
  assumes "permutes order" "permutes order'" "Assemble order inputs = Inr b"
    "loadable (enc_graph (bd_Graph b))" "loadable (enc_manifest (bd_Manifest b))" "loadable (enc_statement (bd_RuntimeTrace b))"
    "WriteBundle order' directory b s = (Inr (), s')" "quiet t" "os_files t = os_files s'"
  shows "\<exists>b'. LoadBundle directory t = (Inr b', t) \<and> Verify order inputs b' = Verify order inputs b"
proof -
  obtain a where a: "assembles order inputs a b" using assms(3) Assemble_iff by blast
  note ok = assembles_normal [OF assms(1) a]
  have "LoadBundle directory t = (Inr (norm_bundle b), t)"
  proof (rule LoadBundle_stored [OF assms(8)])
    show "bundle_ok b" using ok(1,2) assms(4-6) by (simp add: bundle_ok_def)
    show "os_files t (Join directory name) = Some (stored (bundle_files b) name)"
      if "name \<in> {manifest_name, graph_name, trace_name}" for name
      using WriteBundle_files(2) [OF assms(2,7) that] assms(9) by simp
  qed
  then show ?thesis using Verify_norm_bundle [OF ok] by blast
qed

section \<open>Exclusive creation\<close>

text \<open>The number of failures to come.\<close>

definition failures :: "os \<Rightarrow> nat" where
  "failures s = length (filter (\<lambda>f. f \<noteq> None) (os_faults s))"

lemma failures_called:
  "next_fault s = None \<Longrightarrow> failures (called s) = failures s"
  "next_fault s = Some f \<Longrightarrow> failures s = Suc (failures (called s))"
  by (cases "os_faults s"; simp add: failures_def next_fault_def called_def)+

lemma failures_files [simp]: "failures (put_file p d s) = failures s" "failures (drop_file p s) = failures s"
  "next_fault (put_file p d s) = next_fault s" "next_fault (drop_file p s) = next_fault s"
  "called (put_file p d s) = put_file p d (called s)" "called (drop_file p s) = drop_file p (called s)"
  by (simp_all add: failures_def put_file_def drop_file_def next_fault_def called_def)

lemma no_failures: "failures s = 0 \<Longrightarrow> next_fault s = None \<and> failures (called s) = 0"
  by (cases "os_faults s") (auto simp: failures_def next_fault_def called_def split: if_splits)

lemma WriteCanonicalExclusive_ok:
  "WriteCanonicalExclusive path value s = (Inr (), s') \<Longrightarrow>
   os_files s path = None \<and> os_files s' = (os_files s)(path := Some (document_of value))"
  by (auto simp: WriteCanonicalExclusive_def Let_def io_then_eq_Inr OpenExclusive_def Write_def plain_call_def
      document_of_def canonical_ok_iff split: sum.splits option.splits fault.splits prod.splits)

text \<open>An existing file is never touched, and one failing call leaves nothing behind.\<close>

lemma Remove_quiet:
  "failures t = 0 \<Longrightarrow> os_files t path \<noteq> None \<Longrightarrow> os_files (snd (Remove path t)) = (os_files t)(path := None)"
  using no_failures [of t] by (auto simp: Remove_def split: option.splits)

lemma plain_call_failures:
  "plain_call t = (Inr u, t') \<Longrightarrow> os_files t' = os_files t \<and> failures t' = failures t"
  "plain_call t = (Inl e, t') \<Longrightarrow> os_files t' = os_files t \<and> failures t = Suc (failures t')"
  using failures_called [of t] by (auto simp: plain_call_def split: option.splits)

lemma Write_failures:
  "Write path data t = (Inr u, t') \<Longrightarrow> failures t' = failures t"
  "Write path data t = (Inl e, t') \<Longrightarrow> failures t = Suc (failures t')"
  "Write path data t = (r, t') \<Longrightarrow> os_files t path \<noteq> None \<Longrightarrow>
     os_files t' path \<noteq> None \<and> (os_files t')(path := None) = (os_files t)(path := None)"
  using failures_called [of t] by (auto simp: Write_def Let_def split: option.splits fault.splits)

lemma cleanup_quiet:
  "failures t = 0 \<Longrightarrow> os_files t path \<noteq> None \<Longrightarrow>
   os_files (snd (Remove path (snd (plain_call t)))) = (os_files t)(path := None)"
  using no_failures [of t] by (simp add: plain_call_def Remove_quiet)

lemma OpenExclusive_cases:
  assumes "OpenExclusive path s = (r, s1)"
  shows "(\<exists>e. r = Inl e) \<and> os_files s1 = os_files s \<or>
    r = Inr () \<and> os_files s path = None \<and> os_files s1 = (os_files s)(path := Some []) \<and> failures s1 = failures s"
  using assms failures_called(1) [of s] by (auto simp: OpenExclusive_def split: option.splits)

lemma WriteCanonicalExclusive_error:
  assumes "WriteCanonicalExclusive path value s = (Inl e, s')" "os_files s path \<noteq> None \<or> failures s \<le> 1"
  shows "os_files s' = os_files s"
proof (cases "canonical value")
  case (Inl e')
  with assms(1) show ?thesis by (simp add: WriteCanonicalExclusive_def)
next
  case canon: (Inr raw)
  obtain r s1 where open1: "OpenExclusive path s = (r, s1)" by force
  from OpenExclusive_cases [OF open1] show ?thesis
  proof
    assume "(\<exists>e. r = Inl e) \<and> os_files s1 = os_files s"
    with assms(1) canon open1 show ?thesis by (auto simp: WriteCanonicalExclusive_def)
  next
    assume o: "r = Inr () \<and> os_files s path = None \<and> os_files s1 = (os_files s)(path := Some []) \<and> failures s1 = failures s"
    then have f: "failures s1 \<le> 1" "os_files s1 path \<noteq> None" "(os_files s1)(path := None) = os_files s"
      using assms(2) by auto
    obtain r2 s2 where w: "Write path (raw @ [line_feed]) s1 = (r2, s2)" by force
    note w3 = Write_failures(3) [OF w f(2)]
    show ?thesis
    proof (cases r2)
      case (Inl e2)
      then have "failures s2 = 0" using Write_failures(2) [of path "raw @ [line_feed]" s1 e2 s2] w f(1) by simp
      then show ?thesis
        using assms(1) canon open1 o w Inl cleanup_quiet [of s2 path] w3 f(3) by (simp add: WriteCanonicalExclusive_def)
    next
      case wrote: (Inr u)
      have f2: "failures s2 \<le> 1" using Write_failures(1) [of path "raw @ [line_feed]" s1 u s2] w wrote f(1) by simp
      obtain r3 s3 where y: "plain_call s2 = (r3, s3)" by force
      obtain r4 s4 where c: "plain_call s3 = (r4, s4)" by force
      show ?thesis
      proof (cases r3)
        case (Inl e3)
        then show ?thesis
          using assms(1) canon open1 o w wrote y plain_call_failures(2) [of s2 e3 s3] f2 cleanup_quiet [of s3 path] w3 f(3)
          by (simp add: WriteCanonicalExclusive_def)
      next
        case (Inr u3)
        have "failures s3 \<le> 1" "os_files s3 = os_files s2" using plain_call_failures(1) [of s2 u3 s3] y Inr f2 by auto
        then show ?thesis
          using assms(1) canon open1 o w wrote y c Inr plain_call_failures(2) [of s3 _ s4] Remove_quiet [of s4 path] w3 f(3)
          by (cases r4) (auto simp: WriteCanonicalExclusive_def)
      qed
    qed
  qed
qed

section \<open>Writing without faults\<close>

lemma quiet_files [simp]: "quiet (put_file p d s) = quiet s" "quiet (drop_file p s) = quiet s"
  by (simp_all add: quiet_def put_file_def drop_file_def)

lemma quiet_next [simp]: "quiet s \<Longrightarrow> next_fault s = None"
  by (simp add: quiet_def next_fault_def)

text \<open>Without faults \<open>WriteBundle\<close> succeeds.\<close>

lemma write_entry_quiet:
  "quiet s \<Longrightarrow> numbers_ok value \<Longrightarrow> \<exists>s'. write_entry directory name value s = (Inr (), s') \<and> quiet s'"
  by (simp add: write_entry_def canonical_eq Let_def WriteFile_def Rename_def)

lemma write_entries_quiet:
  "quiet s \<Longrightarrow> \<forall>(k, v) \<in> set files. numbers_ok v \<Longrightarrow> \<exists>s'. write_entries directory files names s = (Inr (), s') \<and> quiet s'"
proof (induction names arbitrary: s)
  case (Cons n names)
  show ?case
  proof (cases "map_get files n")
    case (Some v)
    then have "numbers_ok v" using Cons.prems(2) map_of_SomeD [of files n v] by (auto simp: map_get_def)
    then obtain s1 where "write_entry directory n v s = (Inr (), s1)" "quiet s1"
      using write_entry_quiet [OF Cons.prems(1)] by blast
    then show ?thesis using Cons.IH [OF _ Cons.prems(2)] Some by simp
  qed (use Cons in simp)
qed simp

lemma WriteBundle_quiet:
  assumes "permutes order" "assembles order inputs a b" "quiet s"
  shows "\<exists>s'. WriteBundle order' directory b s = (Inr (), s') \<and> quiet s'"
proof -
  note ok = assembles_normal [OF assms(1,2)]
  have "\<forall>(k, v) \<in> set (bundle_files b). numbers_ok v"
    using set_map_lit [of "[(graph_name, enc_graph (bd_Graph b)), (manifest_name, enc_manifest (bd_Manifest b)),
      (trace_name, enc_statement (bd_RuntimeTrace b))]"] ok(1,2)
    by (auto simp: bundle_files_def)
  from write_entries_quiet [OF assms(3) this] show ?thesis
    using assms(3) by (simp add: WriteBundle_def plain_call_def del: write_entries.simps)
qed

text \<open>The paths \<open>WriteBundle\<close> writes to; all others keep their files.\<close>

definition bundle_paths :: "string \<Rightarrow> string set" where
  "bundle_paths directory =
     (\<Union>name \<in> {manifest_name, graph_name, trace_name}. {Join directory name, temporary (Join directory name)})"

lemma write_entries_other:
  "write_entries directory files names s = (r, s') \<Longrightarrow>
   \<forall>name \<in> set names. p \<noteq> Join directory name \<and> p \<noteq> temporary (Join directory name) \<Longrightarrow> os_files s' p = os_files s p"
proof (induction names arbitrary: s)
  case (Cons n names)
  show ?case
  proof (cases "map_get files n")
    case None
    with Cons show ?thesis by simp
  next
    case (Some v)
    obtain r1 s1 where e: "write_entry directory n v s = (r1, s1)" by force
    with write_entry_files(1) [OF e] Cons.prems(2) have "os_files s1 p = os_files s p" by simp
    with Cons e Some show ?thesis by (cases r1) auto
  qed
qed simp

lemma WriteBundle_other:
  assumes "permutes order" "WriteBundle order directory b s = (r, s')" "p \<notin> bundle_paths directory"
  shows "os_files s' p = os_files s p"
proof -
  have "mset (order (map fst (bundle_files b))) = mset (map fst (bundle_files b))"
    using assms(1) by (simp only: permutes_def)
  from mset_eq_setD [OF this] have other: "\<forall>name \<in> set (order (map fst (bundle_files b))). p \<noteq> Join directory name \<and> p \<noteq> temporary (Join directory name)"
    using assms(3) by (auto simp: bundle_paths_def)
  obtain r1 s1 where c: "plain_call s = (r1, s1)" by force
  have "os_files s1 = os_files s" by (rule plain_call_files [OF c])
  with assms(2) c other write_entries_other show ?thesis by (cases r1) (fastforce simp: WriteBundle_def)+
qed

end
