(* ===== verification/Collector.thy ===== *)
theory Collector
  imports Kernel_Sensor Files
begin

text \<open>
  \<open>cmd/rpf-sensor/main_linux.go\<close>: the collector. It checks its flags, opens the kernel sensor,
  creates the evidence file, and turns each kernel record into an event of the chain, which it
  appends to the file and syncs; at the end it hashes the artifact, reads the loss counters and
  writes the last events. What comes from outside of the program is the record \<open>environment\<close>.
  A call of \<open>fatal\<close> ends the process with status 4 and is the left side of a sum.
\<close>

definition maxTrackedProcesses :: nat where "maxTrackedProcesses = 65536"

section \<open>Settings\<close>

text \<open>The flags after \<open>flag.Parse\<close>.\<close>

record settings =
  fl_object :: string
  fl_cgroupID :: uint64
  fl_cgroupPath :: string
  fl_buildID :: string
  fl_runID :: string
  fl_repository :: string
  fl_revision :: string
  fl_bootID :: string
  fl_cgroupPathHash :: string
  fl_output :: string
  fl_artifact :: string
  fl_sensitivePath :: string
  fl_sensitiveCategory :: string

datatype fatal =
    MissingFlags | ArtifactPathRelative | SensitiveFlagsApart | SensitivePathRelative | CgroupHashDiffers
  | ReadObjectFailed gerr | EncodeConfigFailed gerr | InitChainFailed gerr | OpenSensorFailed open_error
  | CreateStreamFailed gerr | ReadSensorFailed read_error | NoArtifactProducer | HashArtifactFailed gerr
  | ChainEventFailed gerr | PersistFailed gerr | SyncFailed gerr | ClockFailed | ReadLossFailed loss_error

definition check_settings :: "settings \<Rightarrow> fatal option" where
  "check_settings f =
     (if fl_object f = [] \<or> fl_cgroupID f = 0 \<or> fl_cgroupPath f = [] \<or> fl_buildID f = [] \<or> fl_runID f = [] \<or>
         fl_repository f = [] \<or> fl_revision f = [] \<or> fl_bootID f = [] \<or> fl_cgroupPathHash f = [] \<or>
         fl_output f = [] \<or> fl_artifact f = [] then Some MissingFlags
      else if \<not> IsAbs (fl_artifact f) then Some ArtifactPathRelative
      else if (fl_sensitivePath f = []) \<noteq> (fl_sensitiveCategory f = []) then Some SensitiveFlagsApart
      else if fl_sensitivePath f \<noteq> [] \<and> \<not> IsAbs (fl_sensitivePath f) then Some SensitivePathRelative
      else if fl_cgroupPathHash f \<noteq> ''sha256:'' @ Digest (fl_cgroupPath f) then Some CgroupHashDiffers
      else None)"

record sensorConfiguration =
  sf_ObjectSHA256 :: string
  sf_CgroupID :: uint64
  sf_CgroupPathSHA256 :: string
  sf_Repository :: string
  sf_Revision :: string
  sf_SensitivePathSHA256 :: string
  sf_SensitiveCategory :: string

definition enc_configuration :: "sensorConfiguration \<Rightarrow> json" where
  "enc_configuration c =
     JObj [(''object_sha256'', JStr (sf_ObjectSHA256 c)), (''cgroup_id'', enc_uint (sf_CgroupID c)),
       (''cgroup_path_sha256'', JStr (sf_CgroupPathSHA256 c)), (''repository'', JStr (sf_Repository c)),
       (''revision'', JStr (sf_Revision c)), (''sensitive_path_sha256'', JStr (sf_SensitivePathSHA256 c)),
       (''sensitive_category'', JStr (sf_SensitiveCategory c))]"

definition digestSensorConfiguration :: "sensorConfiguration \<Rightarrow> string result" where
  "digestSensorConfiguration config =
     and_then (of_option (ParseErr MarshalFailed) (json_marshal (enc_configuration config)))
       (\<lambda>encoded. Inr (''sha256:'' @ Digest encoded))"

definition configuration :: "settings \<Rightarrow> bytes \<Rightarrow> sensorConfiguration" where
  "configuration f object =
     \<lparr>sf_ObjectSHA256 = Digest object, sf_CgroupID = fl_cgroupID f, sf_CgroupPathSHA256 = Digest (fl_cgroupPath f),
      sf_Repository = fl_repository f, sf_Revision = fl_revision f,
      sf_SensitivePathSHA256 = Digest (fl_sensitivePath f), sf_SensitiveCategory = fl_sensitiveCategory f\<rparr>"

definition sensor_source :: "string \<Rightarrow> Sensor" where
  "sensor_source configDigest = \<lparr>sn_Name = ''rpf-sensor'', sn_Version = ''0.2.0'', sn_ConfigDigest = configDigest\<rparr>"

definition build_scope :: "settings \<Rightarrow> BuildScope" where
  "build_scope f =
     \<lparr>bs_BuildID = fl_buildID f, bs_RunID = fl_runID f,
      bs_Source = \<lparr>src_Repository = fl_repository f, src_Revision = fl_revision f\<rparr>,
      bs_BootID = fl_bootID f, bs_CgroupID = fl_cgroupID f, bs_CgroupPathHash = fl_cgroupPathHash f\<rparr>"

text \<open>\<open>main\<close> up to the new chain.\<close>

definition prepare :: "settings \<Rightarrow> os \<Rightarrow> (fatal + EventChain) \<times> os" where
  "prepare f s =
     (case check_settings f of
        Some e \<Rightarrow> (Inl e, s)
      | None \<Rightarrow>
          (case ReadFile (fl_object f) s of
             (Inl e, s) \<Rightarrow> (Inl (ReadObjectFailed e), s)
           | (Inr object, s) \<Rightarrow>
               (case digestSensorConfiguration (configuration f object) of
                  Inl e \<Rightarrow> (Inl (EncodeConfigFailed e), s)
                | Inr configDigest \<Rightarrow>
                    (case NewEventChain (build_scope f) (sensor_source configDigest) of
                       Inl e \<Rightarrow> (Inl (InitChainFailed e), s)
                     | Inr chain \<Rightarrow> (Inr chain, s)))))"

section \<open>State\<close>

record collector =
  cl_chain :: EventChain
  cl_os :: os
  cl_ticks :: nat
  cl_processes :: "Process gomap"
  cl_artifactProducer :: "Process option"
  cl_decodeLoss :: uint64

text \<open>
  What comes from outside: the kernel and the BPF object, the rounds of reading, the wall clock and
  the boot clock by number of the event written, every file when the artifact is hashed (the build
  runs beside the collector) and the maps of counters.
\<close>

record environment =
  en_bpf :: ebpf
  en_polls :: "poll list"
  en_now :: "nat \<Rightarrow> string"
  en_boottime :: "nat \<Rightarrow> (int \<times> int) option"
  en_files :: "string \<Rightarrow> bytes option"
  en_counters :: bpf_maps

definition boottimeNS :: "(int \<times> int) option \<Rightarrow> fatal + uint64" where
  "boottimeNS reading =
     (case reading of
        None \<Rightarrow> Inl ClockFailed
      | Some (sec, nsec) \<Rightarrow> Inr (of_int sec * 1000000000 + of_int nsec))"

definition writeEvent :: "string \<Rightarrow> Event \<Rightarrow> collector \<Rightarrow> (fatal + unit) \<times> collector" where
  "writeEvent output event s =
     (case Append (Some (cl_chain s)) event of
        (r, receiver) \<Rightarrow>
          (let s = s\<lparr>cl_chain := (case receiver of None \<Rightarrow> cl_chain s | Some chain \<Rightarrow> chain)\<rparr> in
           case r of
             Inl e \<Rightarrow> (Inl (ChainEventFailed e), s)
           | Inr raw \<Rightarrow>
               (case Write output raw (cl_os s) of
                  (Inl e, os) \<Rightarrow> (Inl (PersistFailed e), s\<lparr>cl_os := os\<rparr>)
                | (Inr _, os) \<Rightarrow>
                    (case plain_call os of
                       (Inl e, os) \<Rightarrow> (Inl (SyncFailed e), s\<lparr>cl_os := os\<rparr>)
                     | (Inr _, os) \<Rightarrow> (Inr (), s\<lparr>cl_os := os\<rparr>)))))"

text \<open>The fields of \<open>rpf.Event\<close> the collector sets, and one event written at the current time.\<close>

definition observation ::
  "string \<Rightarrow> uint64 \<Rightarrow> Process option \<Rightarrow> string \<Rightarrow> (string \<times> any) list \<Rightarrow> string \<Rightarrow> Event" where
  "observation observedAt monotonic process operation resource status =
     zero_event\<lparr>ev_ObservedAt := observedAt, ev_MonotonicNS := monotonic, ev_Process := process,
       ev_Operation := operation, ev_Resource := Some (map_lit resource),
       ev_Outcome := \<lparr>oc_Status = status, oc_Errno = 0\<rparr>\<rparr>"

definition emit ::
  "environment \<Rightarrow> settings \<Rightarrow> uint64 \<Rightarrow> Process option \<Rightarrow> string \<Rightarrow> (string \<times> any) list \<Rightarrow> string \<Rightarrow>
   collector \<Rightarrow> (fatal + unit) \<times> collector" where
  "emit env f monotonic process operation resource status s =
     writeEvent (fl_output f) (observation (en_now env (cl_ticks s)) monotonic process operation resource status)
       (s\<lparr>cl_ticks := cl_ticks s + 1\<rparr>)"

text \<open>The same with the boot clock's time, \<open>MonotonicNS: boottimeNS()\<close>.\<close>

definition emit_now ::
  "environment \<Rightarrow> settings \<Rightarrow> Process option \<Rightarrow> string \<Rightarrow> (string \<times> any) list \<Rightarrow>
   collector \<Rightarrow> (fatal + unit) \<times> collector" where
  "emit_now env f process operation resource s =
     (case boottimeNS (en_boottime env (cl_ticks s)) of
        Inl e \<Rightarrow> (Inl e, s)
      | Inr monotonic \<Rightarrow> emit env f monotonic process operation resource ''success'' s)"

section \<open>Kernel records\<close>

definition path_only :: "string \<Rightarrow> Executable" where
  "path_only path = \<lparr>ex_Path = path, ex_Identity = path, ex_IdentityKind = ''path_only''\<rparr>"

definition processFromKernel :: "KernelEvent \<Rightarrow> string \<Rightarrow> Process" where
  "processFromKernel event bootID =
     \<lparr>pr_ProcessKey = ProcessKey bootID (ucast (ke_PIDNamespace event)) (ke_TGID event) (ke_StartTimeNS event),
      pr_ParentKey = ProcessKey bootID (ucast (ke_ParentPIDNamespace event)) (ke_PPID event) (ke_ParentStartTimeNS event),
      pr_PID = ke_PID event, pr_TGID = ke_TGID event, pr_PPID = ke_PPID event,
      pr_StartTimeNS = ke_StartTimeNS event, pr_PIDNamespace = ucast (ke_PIDNamespace event),
      pr_MountNamespace = ucast (ke_MountNamespace event), pr_UID = ke_UID event, pr_GID = ke_GID event,
      pr_Executable = path_only (ke_Filename event)\<rparr>"

definition ipv4Destination :: "uint32 \<Rightarrow> 16 word \<Rightarrow> string" where
  "ipv4Destination address port =
     join ''.'' (map (\<lambda>octet. dec_nat (of_char octet)) (le_bytes 4 (unat address))) @ '':'' @ dec_nat (unat port)"

definition lose :: "collector \<Rightarrow> collector" where
  "lose s = s\<lparr>cl_decodeLoss := cl_decodeLoss s + 1\<rparr>"

definition track :: "Process \<Rightarrow> collector \<Rightarrow> collector" where
  "track process s =
     (if map_get (cl_processes s) (pr_ProcessKey process) \<noteq> None \<or> length (cl_processes s) < maxTrackedProcesses then
        s\<lparr>cl_processes := map_put (pr_ProcessKey process) process (cl_processes s)\<rparr>
      else lose s)"

definition handle_exec :: "environment \<Rightarrow> settings \<Rightarrow> KernelEvent \<Rightarrow> collector \<Rightarrow> (fatal + unit) \<times> collector" where
  "handle_exec env f event s =
     (let process = (processFromKernel event (fl_bootID f))\<lparr>pr_Executable := path_only (ke_Filename event)\<rparr> in
      emit env f (ke_MonotonicNS event) (Some process) ''process_exec'' [] ''success'' (track process s))"

definition handle_open :: "environment \<Rightarrow> settings \<Rightarrow> KernelEvent \<Rightarrow> collector \<Rightarrow> (fatal + unit) \<times> collector" where
  "handle_open env f event s =
     (case map_get (cl_processes s) (pr_ProcessKey (processFromKernel event (fl_bootID f))) of
        None \<Rightarrow> (Inr (), lose s)
      | Some observed \<Rightarrow>
          (case emit env f (ke_MonotonicNS event) (Some observed) ''file_open_output''
                  [(''path'', AString (ke_Filename event)), (''flags'', AInt (uint (ke_Flags event)))] ''success'' s of
             (Inl e, s) \<Rightarrow> (Inl e, s)
           | (Inr _, s) \<Rightarrow>
               (Inr (), if ke_Filename event = fl_artifact f then s\<lparr>cl_artifactProducer := Some observed\<rparr> else s)))"

definition handle_sensitive :: "environment \<Rightarrow> settings \<Rightarrow> KernelEvent \<Rightarrow> collector \<Rightarrow> (fatal + unit) \<times> collector" where
  "handle_sensitive env f event s =
     (case map_get (cl_processes s) (pr_ProcessKey (processFromKernel event (fl_bootID f))) of
        None \<Rightarrow> (Inr (), lose s)
      | Some observed \<Rightarrow>
          emit env f (ke_MonotonicNS event) (Some observed) ''file_open_sensitive''
            [(''category'', AString (fl_sensitiveCategory f))] ''success'' s)"

definition handle_connect :: "environment \<Rightarrow> settings \<Rightarrow> KernelEvent \<Rightarrow> collector \<Rightarrow> (fatal + unit) \<times> collector" where
  "handle_connect env f event s =
     (case map_get (cl_processes s) (pr_ProcessKey (processFromKernel event (fl_bootID f))) of
        None \<Rightarrow> (Inr (), lose s)
      | Some observed \<Rightarrow>
          if ke_DestinationPort event > 65535 then (Inr (), lose s)
          else
            emit env f (ke_MonotonicNS event) (Some observed) ''network_connect''
              [(''destination'', AString (ipv4Destination (ke_DestinationIPv4 event) (ucast (ke_DestinationPort event)))),
               (''protocol'', AInt (uint (ke_Protocol event)))] ''attempted'' s)"

definition handle :: "environment \<Rightarrow> settings \<Rightarrow> KernelEvent \<Rightarrow> collector \<Rightarrow> (fatal + unit) \<times> collector" where
  "handle env f event s =
     (if ke_Kind event = EventExec then handle_exec env f event s
      else if ke_Kind event = EventOpen then handle_open env f event s
      else if ke_Kind event = EventSensitive then handle_sensitive env f event s
      else if ke_Kind event = EventConnect4 then handle_connect env f event s
      else (Inr (), s))"
section \<open>The loop\<close>

text \<open>
  \<open>ctx.Err() != nil\<close> after a failed read: a context once done stays done; after another error the
  next round tells.
\<close>

definition cancelled :: "read_error \<Rightarrow> poll list \<Rightarrow> bool" where
  "cancelled e rest = (e = ContextDone \<or> (case rest of [] \<Rightarrow> False | p # _ \<Rightarrow> pl_done p))"

lemma read_loop_rest: "read_loop deadline ps = Some (r, rest) \<Longrightarrow> length rest < length ps"
  by (induction ps) (auto split: if_splits ring.splits)

lemma Read_rest: "Read sensor deadline ps = Some (Inr event, rest) \<Longrightarrow> length rest < length ps"
  by (auto simp: Read_def split: option.splits if_splits dest: read_loop_rest)

text \<open>
  The loop of \<open>main\<close>. The context has no deadline. \<open>None\<close>: the rounds given are used up and the
  collector still waits.
\<close>

function collect ::
  "environment \<Rightarrow> settings \<Rightarrow> Monitor \<Rightarrow> poll list \<Rightarrow> collector \<Rightarrow> ((fatal + unit) \<times> collector) option" where
  "collect env f monitor polls s =
     (case Read (Some monitor) None polls of
        None \<Rightarrow> None
      | Some (Inl e, rest) \<Rightarrow>
          Some (if cancelled e rest then (Inr (), s) else (Inl (ReadSensorFailed e), s))
      | Some (Inr event, rest) \<Rightarrow>
          (case handle env f event s of
             (Inl e, s) \<Rightarrow> Some (Inl e, s)
           | (Inr _, s) \<Rightarrow> collect env f monitor rest s))"
  by pat_completeness auto
termination
  by (relation "measure (\<lambda>(env, f, monitor, polls, s). length polls)") (auto dest: Read_rest)

declare collect.simps [simp del]

section \<open>The end of the stream\<close>

definition digestFile :: "string \<Rightarrow> os \<Rightarrow> string result \<times> os" where
  "digestFile path s =
     (case (next_fault s, os_files s path) of
        (None, Some _) \<Rightarrow> io_then (ReadFile path (called s)) (\<lambda>artifact s. (Inr (Digest artifact), s))
      | _ \<Rightarrow> (Inl io_error, called s))"

definition loss_resource :: "LossCounters \<Rightarrow> uint64 \<Rightarrow> bool \<Rightarrow> (string \<times> any) list" where
  "loss_resource loss decodeLoss counterReadError =
     [(''kernel_reserve'', AInt (uint (lo_RingBuffer loss))), (''kernel_correlation'', AInt (uint (lo_Correlation loss))),
      (''kernel_path_read'', AInt (uint (lo_PathRead loss))), (''kernel_map_update'', AInt (uint (lo_MapUpdate loss))),
      (''kernel_cgroup_mismatch'', AInt (uint (lo_CgroupMismatch loss))),
      (''decode'', AInt (uint decodeLoss)), (''queue'', AInt 0), (''persistence'', AInt 0),
      (''counter_read_error'', ABool counterReadError)]"

text \<open>From the end of the loop on.\<close>

definition finalize :: "environment \<Rightarrow> settings \<Rightarrow> Monitor \<Rightarrow> collector \<Rightarrow> (fatal + unit) \<times> collector" where
  "finalize env f monitor s =
     (case cl_artifactProducer s of
        None \<Rightarrow> (Inl NoArtifactProducer, s)
      | Some producer \<Rightarrow>
          (case digestFile (fl_artifact f) (cl_os s) of
             (Inl e, os) \<Rightarrow> (Inl (HashArtifactFailed e), s\<lparr>cl_os := os\<rparr>)
           | (Inr artifactHash, os) \<Rightarrow>
               (case emit_now env f (Some producer) ''artifact_finalized''
                       [(''path'', AString (fl_artifact f)), (''sha256'', AString artifactHash)] (s\<lparr>cl_os := os\<rparr>) of
                  (Inl e, s) \<Rightarrow> (Inl e, s)
                | (Inr _, s) \<Rightarrow>
                    (let answer = Loss_of (if mo_collection monitor then Some (en_counters env) else None);
                         loss = (case answer of Inl _ \<Rightarrow> zero_counters | Inr l \<Rightarrow> l);
                         counterReadError = (case answer of Inl _ \<Rightarrow> True | Inr _ \<Rightarrow> False) in
                     case emit_now env f None ''sensor_finalized''
                            (loss_resource loss (cl_decodeLoss s) counterReadError) s of
                       (Inl e, s) \<Rightarrow> (Inl e, s)
                     | (Inr _, s) \<Rightarrow>
                         (case answer of Inl e \<Rightarrow> (Inl (ReadLossFailed e), s) | Inr _ \<Rightarrow> (Inr (), s))))))"

section \<open>The whole program\<close>

text \<open>From the sensor to the first event; with the actions of \<open>Open\<close>.\<close>

definition launch ::
  "environment \<Rightarrow> settings \<Rightarrow> EventChain \<Rightarrow> os \<Rightarrow> ((fatal + Monitor) \<times> collector) \<times> action list" where
  "launch env f chain os =
     (let s = \<lparr>cl_chain = chain, cl_os = os, cl_ticks = 0, cl_processes = [], cl_artifactProducer = None,
               cl_decodeLoss = 0\<rparr> in
      case Open (en_bpf env) \<lparr>cf_CgroupID = fl_cgroupID f, cf_CgroupPath = fl_cgroupPath f,
                              cf_SensitivePath = fl_sensitivePath f\<rparr> of
        (Inl e, actions) \<Rightarrow> ((Inl (OpenSensorFailed e), s), actions)
      | (Inr monitor, actions) \<Rightarrow>
          (case OpenExclusive (fl_output f) os of
             (Inl e, os) \<Rightarrow> ((Inl (CreateStreamFailed e), s\<lparr>cl_os := os\<rparr>), actions)
           | (Inr _, os) \<Rightarrow>
               (case emit_now env f None ''sensor_started'' [(''target_cgroup_id'', AInt (uint (fl_cgroupID f)))]
                       (s\<lparr>cl_os := os\<rparr>) of
                  (Inl e, s) \<Rightarrow> ((Inl e, s), actions)
                | (Inr _, s) \<Rightarrow> ((Inr monitor, s), actions))))"

text \<open>While the collector ran, others changed every file but the stream.\<close>

definition meanwhile :: "environment \<Rightarrow> settings \<Rightarrow> collector \<Rightarrow> collector" where
  "meanwhile env f s =
     s\<lparr>cl_os := (cl_os s)\<lparr>os_files := (en_files env)(fl_output f := os_files (cl_os s) (fl_output f))\<rparr>\<rparr>"

text \<open>
  \<open>main\<close>: how it ends, the file system, and what was acquired and released. The deferred calls run
  only on a normal end (\<open>fatal\<close> exits): the file is closed, then the sensor. \<open>None\<close>: still waiting.
\<close>

definition sensor_main :: "environment \<Rightarrow> settings \<Rightarrow> os \<Rightarrow> (fatal option \<times> os \<times> action list) option" where
  "sensor_main env f os =
     (case prepare f os of
        (Inl e, os) \<Rightarrow> Some (Some e, os, [])
      | (Inr chain, os) \<Rightarrow>
          (case launch env f chain os of
             ((Inl e, s), actions) \<Rightarrow> Some (Some e, cl_os s, actions)
           | ((Inr monitor, s), actions) \<Rightarrow>
               (case collect env f monitor (en_polls env) s of
                  None \<Rightarrow> None
                | Some (Inl e, s) \<Rightarrow> Some (Some e, cl_os s, actions)
                | Some (Inr _, s) \<Rightarrow>
                    (case finalize env f monitor (meanwhile env f s) of
                       (Inl e, s) \<Rightarrow> Some (Some e, cl_os s, actions)
                     | (Inr _, s) \<Rightarrow>
                         Some (None, snd (plain_call (cl_os s)),
                           actions @ snd (Close_monitor (\<lambda>_. False) (Some monitor)))))))"

definition exit_status :: "fatal option \<Rightarrow> nat" where
  "exit_status e = (case e of None \<Rightarrow> 0 | Some _ \<Rightarrow> 4)"

end
