(* ===== verification/Collector_Run.thy ===== *)
theory Collector_Run
  imports Collector
begin

text \<open>
  What the collector's runs keep. \<open>collecting\<close> is the step relation of its loop; by rule induction
  over it the evidence file always holds a stream that the chain wrote, the process table stays
  within its bound, every event about a process follows the \<open>process_exec\<close> event of that process,
  and the loss counter counts every kernel record without an event of its own.
\<close>

section \<open>One event\<close>

text \<open>The event a reader gets for a draft, and the stream so far with the file that holds it.\<close>

definition sent :: "EventChain \<Rightarrow> Event \<Rightarrow> Event" where
  "sent chain event = norm_event (Chain.appended chain event)"

definition tracks :: "settings \<Rightarrow> Sensor \<Rightarrow> Event list \<Rightarrow> collector \<Rightarrow> bool" where
  "tracks f source es s \<longleftrightarrow> written (build_scope f) source (cl_chain s) es (render es) \<and>
     os_files (cl_os s) (fl_output f) = Some (render es)"

text \<open>The file after an error: a written stream, the last line perhaps cut off.\<close>

definition cut_off :: "settings \<Rightarrow> Sensor \<Rightarrow> (string \<Rightarrow> bytes option) \<Rightarrow> bool" where
  "cut_off f source files \<longleftrightarrow>
     (\<exists>chain es n. written (build_scope f) source chain es (render es) \<and>
        files (fl_output f) = Some (take n (render es)) \<and> length (render (butlast es)) \<le> n)"

lemma cut_off_whole:
  "written (build_scope f) source chain es (render es) \<Longrightarrow> files (fl_output f) = Some (render es) \<Longrightarrow>
   cut_off f source files"
  unfolding cut_off_def
  by (intro exI [of _ chain] exI [of _ es] exI [of _ "length (render es)"])
    (cases es rule: rev_cases, simp_all add: render_def)

lemma tracks_cut_off: "tracks f source es s \<Longrightarrow> cut_off f source (os_files (cl_os s))"
  by (auto simp: tracks_def intro: cut_off_whole)

lemma render_snoc: "render (es @ [e]) = render es @ line e @ [line_feed]"
  by (simp add: render_def)

lemma Write_files:
  assumes "Write path data s = (r, s')" "os_files s path = Some old"
  shows "\<exists>n. os_files s' path = Some (old @ take n data) \<and> (r = Inr () \<longrightarrow> os_files s' path = Some (old @ data))"
  using assms
  by (auto simp: Write_def Let_def put_file_def split: option.splits fault.splits
      intro: exI [of _ 0] exI [of _ "length data"])

text \<open>The fields an event does not change.\<close>

definition unchanged :: "collector \<Rightarrow> collector \<Rightarrow> bool" where
  "unchanged s s' \<longleftrightarrow> cl_processes s' = cl_processes s \<and> cl_artifactProducer s' = cl_artifactProducer s \<and>
     cl_decodeLoss s' = cl_decodeLoss s"

lemma writeEvent_step:
  assumes "writeEvent (fl_output f) event s = (r, s')" "tracks f source es s"
  shows "case r of
      Inl e \<Rightarrow> cut_off f source (os_files (cl_os s'))
    | Inr _ \<Rightarrow> tracks f source (es @ [sent (cl_chain s) event]) s' \<and> unchanged s s' \<and> cl_ticks s' = cl_ticks s"
proof -
  obtain a receiver where ap: "Append (Some (cl_chain s)) event = (a, receiver)" by fastforce
  note w = assms(2) [unfolded tracks_def, THEN conjunct1]
  note holds_es = assms(2) [unfolded tracks_def, THEN conjunct2]
  show ?thesis
  proof (cases a)
    case (Inl e)
    then have "receiver = Some (cl_chain s)" using ap Append_error by blast
    with Inl ap assms show ?thesis by (auto simp: writeEvent_def tracks_cut_off)
  next
    case (Inr raw)
    from ap Inr obtain chain where c: "receiver = Some chain" by (auto simp: Append_ok)
    from ap Inr c have ok: "Append (Some (cl_chain s)) event = (Inr raw, Some chain)" by simp
    have "written (build_scope f) source chain (es @ [sent (cl_chain s) event]) (render es @ raw)"
      using written.wrote [OF w ok] by (simp add: sent_def)
    moreover have raw: "render es @ raw = render (es @ [sent (cl_chain s) event])"
      using written_state [OF calculation] by simp
    ultimately have w': "written (build_scope f) source chain (es @ [sent (cl_chain s) event])
      (render (es @ [sent (cl_chain s) event]))" by simp
    obtain x os where wr: "Write (fl_output f) raw (cl_os s) = (x, os)" by fastforce
    from Write_files [OF wr holds_es] obtain n where n: "os_files os (fl_output f) = Some (render es @ take n raw)"
      and full: "x = Inr () \<longrightarrow> os_files os (fl_output f) = Some (render (es @ [sent (cl_chain s) event]))"
      unfolding raw by blast
    have cut: "cut_off f source (os_files os)"
      unfolding cut_off_def
      using w' n raw by (intro exI [of _ chain] exI [of _ "es @ [sent (cl_chain s) event]"]
        exI [of _ "length (render es) + n"]) (simp add: render_snoc)
    obtain y os' where sy: "plain_call os = (y, os')" by fastforce
    then have same: "os_files os' = os_files os" by (rule plain_call_files)
    show ?thesis
      using assms(1) ap Inr c wr sy same cut full w'
      by (auto simp: writeEvent_def Let_def tracks_def unchanged_def split: sum.splits)
  qed
qed

lemma emit_step:
  assumes "emit env f time process operation resource status s = (r, s')" "tracks f source es s"
  shows "case r of
      Inl e \<Rightarrow> cut_off f source (os_files (cl_os s'))
    | Inr _ \<Rightarrow> tracks f source
        (es @ [sent (cl_chain s) (observation (en_now env (cl_ticks s)) time process operation resource status)]) s' \<and>
        unchanged s s' \<and> cl_ticks s' = cl_ticks s + 1"
proof -
  have t: "tracks f source es (s\<lparr>cl_ticks := cl_ticks s + 1\<rparr>)" using assms(2) by (simp add: tracks_def)
  from writeEvent_step [OF assms(1) [unfolded emit_def] t] show ?thesis by (auto simp: unchanged_def split: sum.splits)
qed

lemma observation_fields [simp]:
  "ev_ObservedAt (observation at m p op res st) = at" "ev_MonotonicNS (observation at m p op res st) = m"
  "ev_Process (observation at m p op res st) = p" "ev_Operation (observation at m p op res st) = op"
  "ev_Resource (observation at m p op res st) = Some (map_lit res)"
  by (simp_all add: observation_def)

lemma sent_fields [simp]:
  "ev_MonotonicNS (sent chain e) = ev_MonotonicNS e" "ev_Operation (sent chain e) = sanitize (ev_Operation e)"
  "ev_Process (sent chain e) = map_option norm_process (ev_Process e)"
  "ev_Resource (sent chain e) = norm_map (ev_Resource e)"
  by (simp_all add: sent_def)
section \<open>The invariant\<close>

definition executed :: "Event list \<Rightarrow> Process \<Rightarrow> bool" where
  "executed es p \<longleftrightarrow>
     (\<exists>e \<in> set es. ev_Operation e = ''process_exec'' \<and> ev_Process e = Some (norm_process p))"

text \<open>Each event about a process is its \<open>process_exec\<close> event or comes after it.\<close>

definition attributed :: "Event list \<Rightarrow> bool" where
  "attributed es \<longleftrightarrow>
     (\<forall>i < length es. \<forall>p. ev_Process (es ! i) = Some p \<longrightarrow>
        (\<exists>j \<le> i. ev_Operation (es ! j) = ''process_exec'' \<and> ev_Process (es ! j) = Some p))"

lemma attributed_Nil [simp]: "attributed []"
  by (simp add: attributed_def)

lemma attributed_snoc:
  assumes "attributed es"
    "\<And>p. ev_Process e = Some p \<Longrightarrow>
      (\<exists>e' \<in> set (es @ [e]). ev_Operation e' = ''process_exec'' \<and> ev_Process e' = Some p)"
  shows "attributed (es @ [e])"
  unfolding attributed_def
proof (intro allI impI)
  fix i p assume i: "i < length (es @ [e])" and p: "ev_Process ((es @ [e]) ! i) = Some p"
  show "\<exists>j \<le> i. ev_Operation ((es @ [e]) ! j) = ''process_exec'' \<and> ev_Process ((es @ [e]) ! j) = Some p"
  proof (cases "i < length es")
    case True
    with assms(1) p obtain j where "j \<le> i" "ev_Operation (es ! j) = ''process_exec''" "ev_Process (es ! j) = Some p"
      by (auto simp: attributed_def nth_append)
    with True show ?thesis by (intro exI [of _ j]) (simp add: nth_append)
  next
    case False
    with i have "i = length es" by simp
    with p have "ev_Process e = Some p" by simp
    from assms(2) [OF this] obtain j where "j < length (es @ [e])"
      "ev_Operation ((es @ [e]) ! j) = ''process_exec''" "ev_Process ((es @ [e]) ! j) = Some p"
      unfolding Bex_def in_set_conv_nth by blast
    with \<open>i = length es\<close> show ?thesis by (intro exI [of _ j]) simp
  qed
qed

text \<open>What a record of the kernel becomes.\<close>

definition operation_of :: "uint32 \<Rightarrow> string" where
  "operation_of kind =
     (if kind = EventExec then ''process_exec'' else if kind = EventOpen then ''file_open_output''
      else if kind = EventSensitive then ''file_open_sensitive'' else ''network_connect'')"

definition summary :: "Event \<Rightarrow> uint64 \<times> string" where
  "summary e = (ev_MonotonicNS e, ev_Operation e)"

definition expected :: "KernelEvent \<Rightarrow> uint64 \<times> string" where
  "expected k = (ke_MonotonicNS k, operation_of (ke_Kind k))"

definition table_ok :: "Event list \<Rightarrow> Process gomap \<Rightarrow> bool" where
  "table_ok es m \<longleftrightarrow> map_wf m \<and> length m \<le> maxTrackedProcesses \<and>
     (\<forall>k p. map_get m k = Some p \<longrightarrow> pr_ProcessKey p = k \<and> executed es p)"

definition producer_ok :: "settings \<Rightarrow> Event list \<Rightarrow> Process option \<Rightarrow> bool" where
  "producer_ok f es producer \<longleftrightarrow>
     (\<forall>p. producer = Some p \<longrightarrow> executed es p \<and>
        (\<exists>e \<in> set es. ev_Operation e = ''file_open_output'' \<and> ev_Process e = Some (norm_process p) \<and>
           resource_get e ''path'' = Some (AString (sanitize (fl_artifact f)))))"

text \<open>
  Counting: \<open>k\<close> losses, a number the counter holds modulo \<open>2 ^ 64\<close>. Without a loss the events after
  the first are those of the kernel's records, in order.
\<close>

definition counts :: "KernelEvent list \<Rightarrow> Event list \<Rightarrow> nat \<Rightarrow> bool" where
  "counts evs es k \<longleftrightarrow> k \<le> length evs \<and> length es \<le> 1 + length evs \<and> 1 + length evs \<le> length es + k \<and>
     (k = 0 \<longrightarrow> map summary (tl es) = map expected evs)"

definition sound :: "settings \<Rightarrow> Sensor \<Rightarrow> KernelEvent list \<Rightarrow> Event list \<Rightarrow> collector \<Rightarrow> bool" where
  "sound f source evs es s \<longleftrightarrow>
     tracks f source es s \<and> es \<noteq> [] \<and> ev_Operation (hd es) = ''sensor_started'' \<and> attributed es \<and>
     (\<forall>e \<in> set (tl es). ev_Operation e \<in> operation_of ` known_kinds) \<and>
     table_ok es (cl_processes s) \<and> producer_ok f es (cl_artifactProducer s) \<and>
     (\<exists>k. cl_decodeLoss s = of_nat k \<and> counts evs es k)"

lemma executed_mono: "executed es p \<Longrightarrow> executed (es @ es') p"
  by (auto simp: executed_def)

lemma table_ok_mono: "table_ok es m \<Longrightarrow> table_ok (es @ es') m"
  by (auto simp: table_ok_def intro: executed_mono)

lemma producer_ok_mono: "producer_ok f es p \<Longrightarrow> producer_ok f (es @ es') p"
  by (auto simp: producer_ok_def intro: executed_mono)

lemma length_map_put: "map_wf m \<Longrightarrow> length (map_put k v m) = (if map_get m k = None then Suc (length m) else length m)"
proof (induction k v m rule: map_put.induct)
  case (2 k v j w m)
  have "map_get ((j, w) # m) k = None" if "k < j"
    using that 2(2) by (intro map_get_not_key) (auto simp: map_wf_Cons)
  with 2 show ?case by (auto simp: map_wf_Cons map_get_def)
qed (simp add: map_get_def)

lemma table_ok_put:
  assumes "table_ok es m" "executed es' p" "\<And>q. executed es q \<Longrightarrow> executed es' q"
    "map_get m (pr_ProcessKey p) \<noteq> None \<or> length m < maxTrackedProcesses"
  shows "table_ok es' (map_put (pr_ProcessKey p) p m)"
  using assms by (auto simp: table_ok_def map_wf_put map_get_put length_map_put)

lemma operations_valid: "sanitize (operation_of kind) = operation_of kind"
  by (simp add: operation_of_def sanitize_ascii)

lemma operation_exec: "operation_of kind = ''process_exec'' \<longleftrightarrow> kind = EventExec"
  by (simp add: operation_of_def)

section \<open>Steps keep it\<close>

lemma counts_lost: "counts evs es k \<Longrightarrow> counts (evs @ [event]) es (Suc k)"
  by (auto simp: counts_def)

lemma counts_sent:
  "counts evs es k \<Longrightarrow> es \<noteq> [] \<Longrightarrow> summary e = expected event \<Longrightarrow> counts (evs @ [event]) (es @ [e]) k"
  by (auto simp: counts_def)

lemma counts_sent_lost: "counts evs es k \<Longrightarrow> counts (evs @ [event]) (es @ [e]) (Suc k)"
  by (auto simp: counts_def)

lemma sound_lose: "sound f source evs es s \<Longrightarrow> sound f source (evs @ [event]) es (lose s)"
proof -
  assume s: "sound f source evs es s"
  then obtain k where k: "cl_decodeLoss s = of_nat k" "counts evs es k" by (auto simp: sound_def)
  then have "cl_decodeLoss (lose s) = of_nat (Suc k)" by (simp add: lose_def add.commute)
  with counts_lost [OF k(2)] have "\<exists>k. cl_decodeLoss (lose s) = of_nat k \<and> counts (evs @ [event]) es k" by blast
  moreover have "cl_chain (lose s) = cl_chain s" "cl_os (lose s) = cl_os s" "cl_processes (lose s) = cl_processes s"
    "cl_artifactProducer (lose s) = cl_artifactProducer s"
    by (simp_all add: lose_def)
  ultimately show ?thesis using s unfolding sound_def tracks_def by simp
qed

text \<open>An event about a process of the table, or about the process just executed.\<close>

lemma sound_emit:
  assumes em: "emit env f (ke_MonotonicNS event) (Some p) operation resource status s1 = (Inr u, s')"
    and s: "sound f source evs es s"
    and op: "operation = operation_of (ke_Kind event)" "ke_Kind event \<in> known_kinds"
    and proc: "ke_Kind event = EventExec \<or> executed es p"
    and s1: "s1 = s\<lparr>cl_processes := table, cl_decodeLoss := of_nat k\<rparr>" "counts (evs @ [event])
      (es @ [sent (cl_chain s) (observation (en_now env (cl_ticks s)) (ke_MonotonicNS event) (Some p) operation resource status)]) k"
    and table: "table_ok (es @ [sent (cl_chain s) (observation (en_now env (cl_ticks s)) (ke_MonotonicNS event)
      (Some p) operation resource status)]) table"
  shows "sound f source (evs @ [event]) (es @ [sent (cl_chain s) (observation (en_now env (cl_ticks s))
      (ke_MonotonicNS event) (Some p) operation resource status)]) s' \<and>
    cl_artifactProducer s' = cl_artifactProducer s \<and> cl_processes s' = table"
proof -
  let ?e = "sent (cl_chain s) (observation (en_now env (cl_ticks s)) (ke_MonotonicNS event) (Some p) operation resource status)"
  have t: "tracks f source es s1" using s by (simp add: sound_def tracks_def s1)
  from emit_step [OF em t] have t': "tracks f source (es @ [?e]) s'"
    and s': "unchanged s1 s'"
    by (simp_all add: s1)
  have e: "ev_Operation ?e = operation" "ev_Process ?e = Some (norm_process p)"
    by (simp_all add: op operations_valid)
  have att: "attributed (es @ [?e])"
  proof (rule attributed_snoc)
    show "attributed es" using s by (simp add: sound_def)
    fix q assume "ev_Process ?e = Some q"
    then have q: "q = norm_process p" using e by simp
    show "\<exists>e' \<in> set (es @ [?e]). ev_Operation e' = ''process_exec'' \<and> ev_Process e' = Some q"
      using proc e by (auto simp: q executed_def op(1) operation_exec)
  qed
  have fields: "cl_processes s' = table" "cl_artifactProducer s' = cl_artifactProducer s" "cl_decodeLoss s' = of_nat k"
    using s' by (simp_all add: s1 unchanged_def)
  have "tl (es @ [?e]) = tl es @ [?e]" "hd (es @ [?e]) = hd es" using s by (simp_all add: sound_def)
  then show ?thesis
    using s t' att table e fields s1(2) op producer_ok_mono [of f es "cl_artifactProducer s" "[?e]"]
    unfolding sound_def by auto
qed
definition stepped :: "settings \<Rightarrow> Sensor \<Rightarrow> KernelEvent list \<Rightarrow> Event list \<Rightarrow> (fatal + unit) \<times> collector \<Rightarrow> bool" where
  "stepped f source evs es result \<longleftrightarrow>
     (case result of
        (Inl e, s') \<Rightarrow> cut_off f source (os_files (cl_os s'))
      | (Inr _, s') \<Rightarrow> (\<exists>new. sound f source evs (es @ new) s'))"

lemma stepped_lose: "sound f source evs es s \<Longrightarrow> stepped f source (evs @ [event]) es (Inr (), lose s)"
  using sound_lose [of f source evs es s event] by (auto simp: stepped_def intro: exI [of _ "[]"])

lemma track_fields:
  "cl_chain (track p s) = cl_chain s" "cl_os (track p s) = cl_os s" "cl_ticks (track p s) = cl_ticks s"
  "cl_artifactProducer (track p s) = cl_artifactProducer s"
  by (simp_all add: track_def lose_def)

lemma stepped_exec:
  assumes s: "sound f source evs es s" and kind: "ke_Kind event = EventExec"
  shows "stepped f source (evs @ [event]) es (handle_exec env f event s)"
proof -
  define p where "p = (processFromKernel event (fl_bootID f))\<lparr>pr_Executable := path_only (ke_Filename event)\<rparr>"
  define e where "e = sent (cl_chain s) (observation (en_now env (cl_ticks s)) (ke_MonotonicNS event) (Some p)
    ''process_exec'' [] ''success'')"
  obtain r s' where em: "emit env f (ke_MonotonicNS event) (Some p) ''process_exec'' [] ''success'' (track p s) = (r, s')"
    by fastforce
  then have h: "handle_exec env f event s = (r, s')" by (simp add: handle_exec_def p_def)
  have t: "tracks f source es (track p s)" using s by (simp add: sound_def tracks_def track_fields)
  show ?thesis
  proof (cases r)
    case (Inl err)
    with emit_step [OF em t] h show ?thesis by (simp add: stepped_def)
  next
    case (Inr u)
    obtain k where k: "cl_decodeLoss s = of_nat k" "counts evs es k" using s by (auto simp: sound_def)
    have op: "''process_exec'' = operation_of (ke_Kind event)" "ke_Kind event \<in> known_kinds"
      using kind by (simp_all add: operation_of_def known_kinds_def)
    have e_op: "ev_Operation e = ''process_exec''" "ev_Process e = Some (norm_process p)"
      by (simp_all add: e_def sanitize_ascii)
    have sum: "summary e = expected event" using op(1) e_op by (simp add: summary_def expected_def e_def)
    have ex: "executed (es @ [e]) p" using e_op by (simp add: executed_def)
    have table: "table_ok es (cl_processes s)" and ne: "es \<noteq> []" using s by (simp_all add: sound_def)
    let ?kept = "map_get (cl_processes s) (pr_ProcessKey p) \<noteq> None \<or> length (cl_processes s) < maxTrackedProcesses"
    define table' where "table' = (if ?kept then map_put (pr_ProcessKey p) p (cl_processes s) else cl_processes s)"
    define k' where "k' = (if ?kept then k else Suc k)"
    have tr: "track p s = s\<lparr>cl_processes := table', cl_decodeLoss := of_nat k'\<rparr>"
      using k(1) by (simp add: track_def lose_def table'_def k'_def add.commute)
    have c: "counts (evs @ [event]) (es @ [e]) k'"
      using counts_sent [OF k(2) ne sum] counts_sent_lost [OF k(2)] by (simp add: k'_def)
    have "table_ok (es @ [e]) table'"
      unfolding table'_def using table_ok_put [OF table ex executed_mono] table_ok_mono [OF table] by simp
    from sound_emit [OF em [unfolded Inr] s op disjI1 [OF kind] tr c [unfolded e_def] this [unfolded e_def]]
    have "sound f source (evs @ [event]) (es @ [e]) s'" by (simp add: e_def)
    then show ?thesis using h Inr by (auto simp: stepped_def)
  qed
qed

text \<open>The other kinds: the event is about a process of the table.\<close>

lemma emit_known:
  assumes s: "sound f source evs es s" and op: "operation = operation_of (ke_Kind event)" "ke_Kind event \<in> known_kinds"
    and known: "map_get (cl_processes s) k = Some p"
    and em: "emit env f (ke_MonotonicNS event) (Some p) operation resource status s = (r, s')"
  shows "case r of
      Inl e \<Rightarrow> cut_off f source (os_files (cl_os s'))
    | Inr _ \<Rightarrow> \<exists>e. sound f source (evs @ [event]) (es @ [e]) s' \<and> executed es p \<and> ev_Operation e = operation \<and>
        ev_Process e = Some (norm_process p) \<and> ev_Resource e = norm_map (Some (map_lit resource))"
proof -
  let ?e = "sent (cl_chain s) (observation (en_now env (cl_ticks s)) (ke_MonotonicNS event) (Some p) operation resource status)"
  have t: "tracks f source es s" and table: "table_ok es (cl_processes s)" and ne: "es \<noteq> []"
    using s by (simp_all add: sound_def)
  from table known have ex: "executed es p" by (simp add: table_ok_def)
  obtain n where n: "cl_decodeLoss s = of_nat n" "counts evs es n" using s by (auto simp: sound_def)
  have "summary ?e = expected event" by (simp add: summary_def expected_def op operations_valid)
  from counts_sent [OF n(2) ne this] have c: "counts (evs @ [event]) (es @ [?e]) n" .
  show ?thesis
  proof (cases r)
    case (Inl err)
    with emit_step [OF em t] show ?thesis by simp
  next
    case (Inr u)
    have same: "s = s\<lparr>cl_processes := cl_processes s, cl_decodeLoss := of_nat n\<rparr>" using n(1) by (cases s) simp
    from sound_emit [OF em [unfolded Inr] s op disjI2 [OF ex] same c table_ok_mono [OF table]]
    have "sound f source (evs @ [event]) (es @ [?e]) s'" by simp
    moreover have "ev_Operation ?e = operation" "ev_Process ?e = Some (norm_process p)"
      "ev_Resource ?e = norm_map (Some (map_lit resource))"
      by (simp_all add: op operations_valid)
    ultimately show ?thesis using Inr ex by auto
  qed
qed

lemma stepped_emit_known:
  "sound f source evs es s \<Longrightarrow> operation = operation_of (ke_Kind event) \<Longrightarrow> ke_Kind event \<in> known_kinds \<Longrightarrow>
   map_get (cl_processes s) k = Some p \<Longrightarrow>
   stepped f source (evs @ [event]) es (emit env f (ke_MonotonicNS event) (Some p) operation resource status s)"
  using emit_known [of f source evs es s operation event k p env resource status]
  by (cases "emit env f (ke_MonotonicNS event) (Some p) operation resource status s")
    (auto simp: stepped_def split: sum.splits)

lemma kind_operations:
  "operation_of EventExec = ''process_exec''" "operation_of EventOpen = ''file_open_output''"
  "operation_of EventSensitive = ''file_open_sensitive''" "operation_of EventConnect4 = ''network_connect''"
  "EventExec \<in> known_kinds" "EventOpen \<in> known_kinds" "EventSensitive \<in> known_kinds" "EventConnect4 \<in> known_kinds"
  by (simp_all add: operation_of_def known_kinds_def event_kinds)

lemma stepped_sensitive:
  "sound f source evs es s \<Longrightarrow> ke_Kind event = EventSensitive \<Longrightarrow>
   stepped f source (evs @ [event]) es (handle_sensitive env f event s)"
  by (auto simp: handle_sensitive_def kind_operations intro!: stepped_lose stepped_emit_known split: option.split)

lemma stepped_connect:
  "sound f source evs es s \<Longrightarrow> ke_Kind event = EventConnect4 \<Longrightarrow>
   stepped f source (evs @ [event]) es (handle_connect env f event s)"
  by (auto simp: handle_connect_def kind_operations intro!: stepped_lose stepped_emit_known split: option.split)

lemma stepped_open:
  assumes s: "sound f source evs es s" and kind: "ke_Kind event = EventOpen"
  shows "stepped f source (evs @ [event]) es (handle_open env f event s)"
proof (cases "map_get (cl_processes s) (pr_ProcessKey (processFromKernel event (fl_bootID f)))")
  case None
  then show ?thesis using stepped_lose [OF s] by (simp add: handle_open_def)
next
  case (Some p)
  let ?res = "[(''path'', AString (ke_Filename event)), (''flags'', AInt (uint (ke_Flags event)))]"
  have op: "''file_open_output'' = operation_of (ke_Kind event)" "ke_Kind event \<in> known_kinds"
    using kind by (simp_all add: operation_of_def known_kinds_def event_kinds)
  obtain r s' where em: "emit env f (ke_MonotonicNS event) (Some p) ''file_open_output'' ?res ''success'' s = (r, s')"
    by fastforce
  note step = emit_known [OF s op Some em]
  show ?thesis
  proof (cases r)
    case (Inl err)
    with step em Some show ?thesis by (simp add: handle_open_def stepped_def)
  next
    case (Inr u)
    with step obtain e where e: "sound f source (evs @ [event]) (es @ [e]) s'" "executed es p"
      "ev_Operation e = ''file_open_output''" "ev_Process e = Some (norm_process p)"
      "ev_Resource e = norm_map (Some (map_lit ?res))"
      by auto
    have path: "resource_get e ''path'' = Some (AString (sanitize (ke_Filename event)))"
      by (simp add: resource_get_def e(5) norm_map_get sanitize_ascii)
    have "sound f source (evs @ [event]) (es @ [e]) (s'\<lparr>cl_artifactProducer := Some p\<rparr>)"
      if "ke_Filename event = fl_artifact f"
    proof -
      have "producer_ok f (es @ [e]) (Some p)"
        using e(2-4) path that executed_mono [OF e(2)] by (auto simp: producer_ok_def)
      with e(1) show ?thesis by (simp add: sound_def tracks_def)
    qed
    with e(1) em Some Inr show ?thesis by (auto simp: handle_open_def stepped_def)
  qed
qed

lemma stepped_handle:
  "sound f source evs es s \<Longrightarrow> ke_Kind event \<in> known_kinds \<Longrightarrow>
   stepped f source (evs @ [event]) es (handle env f event s)"
  using stepped_exec stepped_open stepped_sensitive stepped_connect
  by (auto simp: handle_def known_kinds_def)
section \<open>The loop\<close>

lemma Read_kind: "Read sensor deadline polls = Some (Inr event, rest) \<Longrightarrow> ke_Kind event \<in> known_kinds"
  by (auto simp: Read_def read_loop_eq answer_Inr decodeEvent_ok_iff kernel_event_def
      split: option.splits if_splits list.splits)

text \<open>
  \<open>collecting env f monitor s0 evs s\<close>: from \<open>s0\<close>, the state after the first event, the loop has
  handled the records \<open>evs\<close> that the sensor returned, and is in state \<open>s\<close>.
\<close>

inductive collecting ::
  "environment \<Rightarrow> settings \<Rightarrow> Monitor \<Rightarrow> collector \<Rightarrow> KernelEvent list \<Rightarrow> collector \<Rightarrow> bool"
  for env f monitor s0 where
  launched: "collecting env f monitor s0 [] s0"
| recorded: "collecting env f monitor s0 evs s \<Longrightarrow> Read (Some monitor) None polls = Some (Inr event, rest) \<Longrightarrow>
    handle env f event s = (Inr u, s') \<Longrightarrow> collecting env f monitor s0 (evs @ [event]) s'"

inductive_cases collectingE: "collecting env f monitor s0 evs s"

lemma collecting_sound:
  "collecting env f monitor s0 evs s \<Longrightarrow> sound f source [] es0 s0 \<Longrightarrow> \<exists>new. sound f source evs (es0 @ new) s"
proof (induction rule: collecting.induct)
  case launched
  then show ?case by (auto intro: exI [of _ "[]"])
next
  case (recorded evs s polls event rest u s')
  then obtain new where "sound f source evs (es0 @ new) s" by blast
  from stepped_handle [OF this Read_kind [OF recorded.hyps(2)], of env] recorded.hyps(3)
  show ?case by (auto simp: stepped_def)
qed

text \<open>\<open>collect\<close> goes through states of \<open>collecting\<close> only.\<close>

lemma collect_runs:
  "collect env f monitor polls s = Some (r, s') \<Longrightarrow> collecting env f monitor s0 evs s \<Longrightarrow>
   \<exists>evs' s1. collecting env f monitor s0 evs' s1 \<and>
     (s' = s1 \<or> (\<exists>polls event rest e. Read (Some monitor) None polls = Some (Inr event, rest) \<and>
        handle env f event s1 = (Inl e, s') \<and> r = Inl e)) \<and>
     (r = Inr () \<longrightarrow> s' = s1)"
proof (induction env f monitor polls s arbitrary: evs rule: collect.induct)
  case (1 env f monitor polls s)
  consider (waiting) "Read (Some monitor) None polls = None"
    | (failed) e rest where "Read (Some monitor) None polls = Some (Inl e, rest)"
    | (event) event rest where "Read (Some monitor) None polls = Some (Inr event, rest)"
    by (metis option.exhaust prod.exhaust sum.exhaust)
  then show ?case
  proof cases
    case waiting
    with 1(2) show ?thesis by (simp add: collect.simps)
  next
    case failed
    with 1(2) have "s' = s" by (subst (asm) collect.simps) (auto split: if_splits)
    with 1(3) show ?thesis by blast
  next
    case event
    obtain r1 s2 where h: "handle env f event s = (r1, s2)" by fastforce
    show ?thesis
    proof (cases r1)
      case (Inl e)
      with 1(2) event h have "r = Inl e" "s' = s2" by (simp_all add: collect.simps)
      with 1(3) event h Inl show ?thesis by blast
    next
      case (Inr u)
      with 1(2) event h have "collect env f monitor rest s2 = Some (r, s')" by (simp add: collect.simps)
      moreover have "collecting env f monitor s0 (evs @ [event]) s2"
        using collecting.recorded [OF 1(3) event] h Inr by blast
      ultimately show ?thesis using 1(1) [OF event refl refl] h Inr by auto
    qed
  qed
qed

text \<open>
  The records that reach the collector: the answers of \<open>Read\<close>, round after round, up to the first
  error. A loop that ends normally has handled them all.
\<close>

function received :: "Monitor \<Rightarrow> poll list \<Rightarrow> KernelEvent list" where
  "received monitor polls =
     (case Read (Some monitor) None polls of
        Some (Inr event, rest) \<Rightarrow> event # received monitor rest
      | _ \<Rightarrow> [])"
  by pat_completeness auto
termination
  by (relation "measure (\<lambda>(monitor, polls). length polls)") (auto dest: Read_rest)

declare received.simps [simp del]

lemma length_received: "length (received monitor polls) \<le> length polls"
proof (induction monitor polls rule: received.induct)
  case (1 monitor polls)
  show ?case
  proof (cases "\<exists>event rest. Read (Some monitor) None polls = Some (Inr event, rest)")
    case True
    then obtain event rest where r: "Read (Some monitor) None polls = Some (Inr event, rest)" by blast
    from 1 [OF r refl refl] Read_rest [OF r] show ?thesis by (subst received.simps) (simp add: r)
  next
    case False
    then show ?thesis by (subst received.simps) (auto split: option.split sum.split)
  qed
qed

lemma collect_received:
  "collect env f monitor polls s = Some (Inr u, s') \<Longrightarrow> collecting env f monitor s0 evs s \<Longrightarrow>
   collecting env f monitor s0 (evs @ received monitor polls) s'"
proof (induction env f monitor polls s arbitrary: evs rule: collect.induct)
  case (1 env f monitor polls s)
  show ?case
  proof (cases "\<exists>event rest. Read (Some monitor) None polls = Some (Inr event, rest)")
    case True
    then obtain event rest where r: "Read (Some monitor) None polls = Some (Inr event, rest)" by blast
    obtain r1 s2 where h: "handle env f event s = (r1, s2)" by fastforce
    from 1(2) obtain v where v: "r1 = Inr v" by (subst (asm) collect.simps) (cases r1; simp add: r h)
    with 1(2) r h have "collect env f monitor rest s2 = Some (Inr u, s')" by (simp add: collect.simps)
    moreover have "collecting env f monitor s0 (evs @ [event]) s2"
      using collecting.recorded [OF 1(3) r] h v by blast
    ultimately have "collecting env f monitor s0 ((evs @ [event]) @ received monitor rest) s'"
      using 1(1) [OF r refl refl h [symmetric] v] h v by blast
    then show ?thesis by (subst received.simps) (simp add: r)
  next
    case False
    with 1(2) have "s' = s" by (subst (asm) collect.simps) (auto split: option.splits sum.splits if_splits)
    moreover have "received monitor polls = []"
      using False by (subst received.simps) (auto split: option.split sum.split)
    ultimately show ?thesis using 1(3) by simp
  qed
qed

lemma collect_sound:
  assumes c: "collect env f monitor polls s0 = Some (r, s')" and s: "sound f source [] es0 s0"
  shows "case r of Inl e \<Rightarrow> cut_off f source (os_files (cl_os s')) | Inr _ \<Rightarrow> \<exists>evs new. sound f source evs (es0 @ new) s'"
proof -
  from collect_runs [OF c collecting.launched] obtain evs s1 where
    run: "collecting env f monitor s0 evs s1" and
    out: "s' = s1 \<or> (\<exists>polls event rest e. Read (Some monitor) None polls = Some (Inr event, rest) \<and>
      handle env f event s1 = (Inl e, s') \<and> r = Inl e)" "r = Inr () \<longrightarrow> s' = s1"
    by blast
  from collecting_sound [OF run s] obtain new where n: "sound f source evs (es0 @ new) s1" by blast
  show ?thesis
  proof (cases r)
    case (Inr u)
    with out(2) n show ?thesis by auto
  next
    case (Inl e)
    from out(1) show ?thesis
    proof
      assume "s' = s1"
      with n Inl show ?thesis by (auto simp: sound_def dest: tracks_cut_off)
    next
      assume "\<exists>polls event rest e. Read (Some monitor) None polls = Some (Inr event, rest) \<and>
        handle env f event s1 = (Inl e, s') \<and> r = Inl e"
      then obtain polls event rest e where e: "Read (Some monitor) None polls = Some (Inr event, rest)"
        "handle env f event s1 = (Inl e, s')" by blast
      from stepped_handle [OF n Read_kind [OF e(1)], of env] e(2) Inl show ?thesis by (simp add: stepped_def)
    qed
  qed
qed

text \<open>When it ends: as soon as the context is done or a read or an event fails.\<close>

lemma collect_returns: "\<exists>p \<in> set polls. pl_done p \<Longrightarrow> mo_reader monitor \<Longrightarrow> \<exists>r. collect env f monitor polls s = Some r"
proof (induction env f monitor polls s rule: collect.induct)
  case (1 env f monitor polls s)
  have "read_loop None polls \<noteq> None" using 1(2) by (auto simp: read_loop_eq idle_def split: list.splits)
  then obtain x rest where x: "Read (Some monitor) None polls = Some (x, rest)" using 1(3) by (auto simp: Read_def)
  show ?case
  proof (cases x)
    case (Inl e)
    with x show ?thesis by (simp add: collect.simps)
  next
    case (Inr event)
    obtain r1 s2 where h: "handle env f event s = (r1, s2)" by fastforce
    have "\<exists>p \<in> set rest. pl_done p"
    proof -
      from x Inr 1(3) obtain p where d: "dropWhile (idle None) polls = p # rest" "answer None p = Inr event"
        by (auto simp: Read_def read_loop_eq split: list.splits)
      have "polls = takeWhile (idle None) polls @ p # rest" using d(1) by (metis takeWhile_dropWhile_id)
      then have "set polls = set (takeWhile (idle None) polls) \<union> set (p # rest)" by (metis set_append)
      moreover have "\<not> pl_done p" using d(2) by (simp add: answer_Inr)
      moreover have "\<not> pl_done q" if "q \<in> set (takeWhile (idle None) polls)" for q
        using set_takeWhileD [OF that] by (simp add: idle_def)
      ultimately show ?thesis using 1(2) by auto
    qed
    then show ?thesis
      using x h 1(1) [OF x [unfolded Inr] refl refl h [symmetric]] 1(3) by (cases r1) (auto simp: collect.simps Inr)
  qed
qed
section \<open>The first and the last events\<close>

lemma emit_now_step:
  assumes "emit_now env f process operation resource s = (r, s')" "tracks f source es s"
  shows "case r of
      Inl e \<Rightarrow> cut_off f source (os_files (cl_os s'))
    | Inr _ \<Rightarrow> \<exists>e. tracks f source (es @ [e]) s' \<and> unchanged s s' \<and> ev_Operation e = sanitize operation \<and>
        ev_Process e = map_option norm_process process \<and> ev_Resource e = norm_map (Some (map_lit resource))"
proof (cases "boottimeNS (en_boottime env (cl_ticks s))")
  case (Inl err)
  with assms tracks_cut_off show ?thesis by (auto simp: emit_now_def)
next
  case (Inr t)
  then have "emit env f t process operation resource ''success'' s = (r, s')" using assms(1) by (simp add: emit_now_def)
  from emit_step [OF this assms(2)] show ?thesis by (auto split: sum.splits)
qed

lemma digestFile_files: "digestFile path s = (r, s') \<Longrightarrow> os_files s' = os_files s"
  by (auto simp: digestFile_def ReadFile_def io_then_def split: option.splits prod.splits)

lemma digestFile_ok: "digestFile path s = (Inr d, s') \<Longrightarrow> \<exists>data. os_files s path = Some data \<and> d = Digest data"
  by (auto simp: digestFile_def ReadFile_def io_then_def split: option.splits prod.splits)

text \<open>A counter as the verifier reads it from the event: from \<open>2 ^ 63\<close> on it reads 1.\<close>

definition reported :: "uint64 \<Rightarrow> uint64" where
  "reported w = (if unat w < 2 ^ 63 then w else 1)"

lemma reported_zero [simp]: "reported w = 0 \<longleftrightarrow> w = 0"
  by (auto simp: reported_def)

lemma parse_int_dec_nat_big: "2 ^ 63 \<le> n \<Longrightarrow> parse_int (dec_nat n) = None"
proof -
  assume n: "2 ^ 63 \<le> n"
  obtain c t where ct: "dec_nat n = c # t" by (cases "dec_nat n") auto
  then have "is_digit c" by (rule dec_nat_first)
  then have "c \<noteq> CHR ''-''" "c \<noteq> CHR ''+''" by (auto simp: is_digit_of_char)
  then show ?thesis using n digits_val_dec_nat [of n] by (simp add: parse_int_def ct)
qed

lemma uintResource_AInt:
  assumes "\<forall>k \<in> set (map fst res). sanitize k = k" "map_of (rev res) key = Some (AInt (uint w))"
  shows "uintResource (norm_map (Some (map_lit res))) key = reported w"
proof -
  have "dec_int (uint w) = dec_nat (unat w)" by (simp add: dec_int_def)
  moreover have "parse_int (dec_nat (unat w)) = (if unat w < 2 ^ 63 then Some (int (unat w)) else None)"
    using parse_int_dec_nat parse_int_dec_nat_big by auto
  ultimately show ?thesis
    using assms by (simp add: uintResource_def norm_map_get norm_any_AInt reported_def)
qed

lemma loss_keys: "\<forall>k \<in> set (map fst (loss_resource l d b)). sanitize k = k"
  by (simp add: loss_resource_def sanitize_ascii)

text \<open>What the verifier takes from the last event.\<close>

lemma lossFromFinalEvent_sent:
  assumes "ev_Operation e = ''sensor_finalized''" "ev_Resource e = norm_map (Some (map_lit (loss_resource l d b)))"
  shows "lossFromFinalEvent e =
    \<lparr>ls_KernelReserve = reported (lo_RingBuffer l), ls_KernelCorrelation = reported (lo_Correlation l),
     ls_Decode = reported d, ls_Queue = 0, ls_Persistence = 0, ls_CounterReadError = b\<rparr>"
proof -
  have u: "uintResource (ev_Resource e) ''kernel_reserve'' = reported (lo_RingBuffer l)"
    "uintResource (ev_Resource e) ''kernel_correlation'' = reported (lo_Correlation l)"
    "uintResource (ev_Resource e) ''decode'' = reported d"
    unfolding assms(2) by (rule uintResource_AInt [OF loss_keys], simp add: loss_resource_def)+
  have "map_of (rev (loss_resource l d b)) ''queue'' = Some (AInt (uint (0 :: uint64)))"
    "map_of (rev (loss_resource l d b)) ''persistence'' = Some (AInt (uint (0 :: uint64)))"
    by (simp_all add: loss_resource_def)
  from this [THEN uintResource_AInt [OF loss_keys]]
  have z: "uintResource (ev_Resource e) ''queue'' = 0" "uintResource (ev_Resource e) ''persistence'' = 0"
    unfolding assms(2) by simp_all
  have "map_of (rev (loss_resource l d b)) ''counter_read_error'' = Some (ABool b)" by (simp add: loss_resource_def)
  then have "boolResource (ev_Resource e) ''counter_read_error'' = b"
    unfolding assms(2) by (simp add: boolResource_def norm_map_get [OF loss_keys])
  with u z show ?thesis by (simp add: lossFromFinalEvent_def assms(1) Let_def)
qed

lemma finalize_step:
  assumes "finalize env f opened s = (r, s')" "sound f source evs es s"
  shows "case r of
      Inl e \<Rightarrow> cut_off f source (os_files (cl_os s'))
    | Inr _ \<Rightarrow> \<exists>p data loss e1 e2. cl_artifactProducer s = Some p \<and> os_files (cl_os s) (fl_artifact f) = Some data \<and>
        Loss_of (Some (en_counters env)) = Inr loss \<and> tracks f source (es @ [e1, e2]) s' \<and>
        ev_Operation e1 = ''artifact_finalized'' \<and> ev_Process e1 = Some (norm_process p) \<and>
        resource_get e1 ''sha256'' = Some (AString (Digest data)) \<and>
        ev_Operation e2 = ''sensor_finalized'' \<and> ev_Process e2 = None \<and>
        ev_Resource e2 = norm_map (Some (map_lit (loss_resource loss (cl_decodeLoss s) False)))"
proof -
  have t: "tracks f source es s" using assms(2) by (simp add: sound_def)
  show ?thesis
  proof (cases "cl_artifactProducer s")
    case None
    with assms t tracks_cut_off show ?thesis by (auto simp: finalize_def)
  next
    case (Some p)
    obtain d os where d: "digestFile (fl_artifact f) (cl_os s) = (d, os)" by fastforce
    note same = digestFile_files [OF d]
    have t1: "tracks f source es (s\<lparr>cl_os := os\<rparr>)" using t same by (simp add: tracks_def)
    show ?thesis
    proof (cases d)
      case (Inl e)
      with assms(1) Some d tracks_cut_off [OF t1] show ?thesis by (auto simp: finalize_def)
    next
      case (Inr hash)
      let ?res = "[(''path'', AString (fl_artifact f)), (''sha256'', AString hash)]"
      obtain data where data: "os_files (cl_os s) (fl_artifact f) = Some data" "hash = Digest data"
        using digestFile_ok d Inr by blast
      obtain r1 s1 where e1: "emit_now env f (Some p) ''artifact_finalized'' ?res (s\<lparr>cl_os := os\<rparr>) = (r1, s1)"
        by fastforce
      note step1 = emit_now_step [OF e1 t1]
      show ?thesis
      proof (cases r1)
        case (Inl e)
        with assms(1) Some d Inr e1 step1 show ?thesis by (auto simp: finalize_def)
      next
        case r1: (Inr u)
        with step1 obtain x where x: "tracks f source (es @ [x]) s1" "cl_decodeLoss s1 = cl_decodeLoss s"
          "ev_Operation x = ''artifact_finalized''" "ev_Process x = Some (norm_process p)"
          "ev_Resource x = norm_map (Some (map_lit ?res))"
          by (auto simp: unchanged_def sanitize_ascii)
        have sha: "resource_get x ''sha256'' = Some (AString (Digest data))"
          by (simp add: resource_get_def x(5) norm_map_get sanitize_ascii data)
        define answer where "answer = Loss_of (Some (en_counters env))"
        define loss where "loss = (case answer of Inl _ \<Rightarrow> zero_counters | Inr l \<Rightarrow> l)"
        define bad where "bad = (case answer of Inl _ \<Rightarrow> True | Inr _ \<Rightarrow> False)"
        obtain r2 s2 where e2: "emit_now env f None ''sensor_finalized''
          (loss_resource loss (cl_decodeLoss s1) bad) s1 = (r2, s2)" by fastforce
        note step2 = emit_now_step [OF e2 x(1)]
        have fin: "finalize env f opened s = (case r2 of Inl e \<Rightarrow> (Inl e, s2)
          | Inr _ \<Rightarrow> (case answer of Inl e \<Rightarrow> (Inl (ReadLossFailed e), s2) | Inr _ \<Rightarrow> (Inr (), s2)))"
          using Some d Inr e1 r1 e2
          by (simp add: finalize_def Let_def opened_def answer_def loss_def bad_def split: sum.splits)
        show ?thesis
        proof (cases r2)
          case (Inl e)
          with fin assms(1) step2 show ?thesis by auto
        next
          case r2: (Inr u2)
          with step2 obtain y where y: "tracks f source ((es @ [x]) @ [y]) s2" "ev_Operation y = ''sensor_finalized''"
            "ev_Process y = None" "ev_Resource y = norm_map (Some (map_lit (loss_resource loss (cl_decodeLoss s1) bad)))"
            by (auto simp: sanitize_ascii)
          show ?thesis
          proof (cases answer)
            case (Inl e)
            with fin assms(1) r2 tracks_cut_off [OF y(1)] show ?thesis by auto
          next
            case ans: (Inr l)
            with fin assms(1) r2 have "r = Inr ()" "s' = s2" by auto
            moreover have "loss = l" "\<not> bad" using ans by (simp_all add: loss_def bad_def)
            ultimately show ?thesis using Some data(1) ans x sha y by (auto simp: answer_def)
          qed
        qed
      qed
    qed
  qed
qed
section \<open>The whole program\<close>

text \<open>The sensor identity that a run's settings and BPF object give.\<close>

definition run_source :: "settings \<Rightarrow> bytes \<Rightarrow> Sensor" where
  "run_source f object = sensor_source (''sha256:'' @ Digest (marshal (enc_configuration (configuration f object))))"

lemma digest_configuration:
  "digestSensorConfiguration c = Inr (''sha256:'' @ Digest (marshal (enc_configuration c)))"
  by (simp add: digestSensorConfiguration_def json_marshal_def enc_configuration_def enc_uint_def valid_number_dec_nat)

lemma ReadFile_files: "ReadFile path s = (r, s') \<Longrightarrow> os_files s' = os_files s"
  by (auto simp: ReadFile_def split: option.splits)

lemma prepare_files: "prepare f os = (r, os') \<Longrightarrow> os_files os' = os_files os"
  by (auto simp: prepare_def split: option.splits sum.splits prod.splits dest: ReadFile_files)

lemma prepare_ok:
  "prepare f os = (Inr chain, os') \<Longrightarrow>
   check_settings f = None \<and> (\<exists>object. os_files os (fl_object f) = Some object \<and>
     NewEventChain (build_scope f) (run_source f object) = Inr chain)"
  by (auto simp: prepare_def digest_configuration run_source_def ReadFile_def split: option.splits sum.splits prod.splits)

lemma OpenExclusive_ok:
  "OpenExclusive path s = (Inr u, s') \<Longrightarrow> os_files s path = None \<and> os_files s' = (os_files s)(path := Some [])"
  by (auto simp: OpenExclusive_def put_file_def split: option.splits)

lemma OpenExclusive_error: "OpenExclusive path s = (Inl e, s') \<Longrightarrow> os_files s' = os_files s"
  by (auto simp: OpenExclusive_def put_file_def split: option.splits)

lemma launch_step:
  assumes l: "launch env f chain os = ((r, s), actions)" and c: "NewEventChain (build_scope f) source = Inr chain"
  shows "case r of
      Inl e \<Rightarrow> os_files (cl_os s) = os_files os \<or>
        os_files os (fl_output f) = None \<and> cut_off f source (os_files (cl_os s))
    | Inr monitor \<Rightarrow> os_files os (fl_output f) = None \<and> monitor = opened \<and> holds {} actions = Some everything \<and>
        (\<exists>e. sound f source [] [e] s)"
proof -
  define s0 where "s0 = \<lparr>cl_chain = chain, cl_os = os, cl_ticks = 0, cl_processes = [], cl_artifactProducer = None,
    cl_decodeLoss = 0\<rparr>"
  obtain m actions' where o: "Open (en_bpf env) \<lparr>cf_CgroupID = fl_cgroupID f, cf_CgroupPath = fl_cgroupPath f,
    cf_SensitivePath = fl_sensitivePath f\<rparr> = (m, actions')" by fastforce
  obtain x os' where x: "OpenExclusive (fl_output f) os = (x, os')" by fastforce
  show ?thesis
  proof (cases "(\<exists>e. m = Inl e) \<or> (\<exists>e. x = Inl e)")
    case True
    with l o x OpenExclusive_error [of "fl_output f" os] show ?thesis
      by (auto simp: launch_def Let_def split: sum.splits)
  next
    case False
    then obtain monitor u where mx: "m = Inr monitor" "x = Inr u" by (metis sum.exhaust)
    from Open_holds [OF o] mx have m: "monitor = opened" "holds {} actions' = Some everything" by simp_all
    obtain y s' where y: "emit_now env f None ''sensor_started''
      [(''target_cgroup_id'', AInt (uint (fl_cgroupID f)))] (s0\<lparr>cl_os := os'\<rparr>) = (y, s')" by fastforce
    from OpenExclusive_ok [OF x [unfolded mx]] have new: "os_files os (fl_output f) = None"
      "os_files os' (fl_output f) = Some []" by auto
    have t: "tracks f source [] (s0\<lparr>cl_os := os'\<rparr>)"
      using new written.created [OF c] by (simp add: tracks_def s0_def render_def)
    note step = emit_now_step [OF y t]
    have res: "launch env f chain os = (case y of Inl e \<Rightarrow> ((Inl e, s'), actions') | Inr _ \<Rightarrow> ((Inr monitor, s'), actions'))"
      using o x mx y by (simp add: launch_def Let_def s0_def split: sum.splits)
    show ?thesis
    proof (cases y)
      case (Inl e)
      with res l step new show ?thesis by auto
    next
      case (Inr v)
      with step obtain e where e: "tracks f source [e] s'" "unchanged s0 s'" "ev_Operation e = ''sensor_started''"
        "ev_Process e = None"
        by (auto simp: sanitize_ascii unchanged_def)
      then have "sound f source [] [e] s'"
        using attributed_snoc [of "[]" e]
        by (auto simp: sound_def unchanged_def s0_def table_ok_def producer_ok_def counts_def map_get_def
            intro!: exI [of _ 0])
      with res l Inr m new show ?thesis by auto
    qed
  qed
qed

lemma meanwhile_sound: "sound f source evs es s \<Longrightarrow> sound f source evs es (meanwhile env f s)"
  by (simp add: sound_def tracks_def meanwhile_def)

text \<open>Every end of the program: nothing was written, or the file holds what the chain wrote.\<close>

definition finished ::
  "environment \<Rightarrow> settings \<Rightarrow> Sensor \<Rightarrow> KernelEvent list \<Rightarrow> (string \<Rightarrow> bytes option) \<Rightarrow> action list \<Rightarrow> bool" where
  "finished env f source evs files actions \<longleftrightarrow>
     (\<exists>chain es e1 e2 p data loss d.
        written (build_scope f) source chain (es @ [e1, e2]) (render (es @ [e1, e2])) \<and>
        files (fl_output f) = Some (render (es @ [e1, e2])) \<and>
        es \<noteq> [] \<and> ev_Operation (hd es) = ''sensor_started'' \<and> attributed (es @ [e1, e2]) \<and>
        (\<forall>e \<in> set (tl es). ev_Operation e \<in> operation_of ` known_kinds) \<and>
        counts evs es d \<and> producer_ok f es (Some p) \<and>
        (if fl_artifact f = fl_output f then data = render es else en_files env (fl_artifact f) = Some data) \<and>
        Loss_of (Some (en_counters env)) = Inr loss \<and>
        ev_Operation e1 = ''artifact_finalized'' \<and> ev_Process e1 = Some (norm_process p) \<and>
        resource_get e1 ''sha256'' = Some (AString (Digest data)) \<and>
        ev_Operation e2 = ''sensor_finalized'' \<and> ev_Process e2 = None \<and>
        ev_Resource e2 = norm_map (Some (map_lit (loss_resource loss (of_nat d) False))) \<and>
        holds {} actions = Some {})"

lemma finalize_finished:
  assumes fin: "finalize env f opened (meanwhile env f s) = (Inr u, s')" and s: "sound f source evs es s"
    and a: "holds {} actions = Some {}"
  shows "finished env f source evs (os_files (cl_os s')) actions"
proof -
  note s1 = meanwhile_sound [OF s, of env]
  obtain d where d: "cl_decodeLoss (meanwhile env f s) = of_nat d" "counts evs es d" using s1 by (auto simp: sound_def)
  from finalize_step [OF fin s1] obtain p data loss e1 e2 where
    p: "cl_artifactProducer (meanwhile env f s) = Some p" and
    data: "os_files (cl_os (meanwhile env f s)) (fl_artifact f) = Some data" and
    loss: "Loss_of (Some (en_counters env)) = Inr loss" and t: "tracks f source (es @ [e1, e2]) s'" and
    e1: "ev_Operation e1 = ''artifact_finalized''" "ev_Process e1 = Some (norm_process p)"
      "resource_get e1 ''sha256'' = Some (AString (Digest data))" and
    e2: "ev_Operation e2 = ''sensor_finalized''" "ev_Process e2 = None"
      "ev_Resource e2 = norm_map (Some (map_lit (loss_resource loss (of_nat d) False)))"
    unfolding d by auto
  have prod: "producer_ok f es (Some p)" using s1 p by (simp add: sound_def)
  have att: "attributed (es @ [e1])"
    using s1 prod e1(2) by (intro attributed_snoc) (auto simp: sound_def producer_ok_def executed_def)
  have "attributed ((es @ [e1]) @ [e2])" by (rule attributed_snoc [OF att]) (simp add: e2(2))
  moreover have "if fl_artifact f = fl_output f then data = render es else en_files env (fl_artifact f) = Some data"
    using data s by (auto simp: meanwhile_def sound_def tracks_def)
  ultimately show ?thesis
    using t s d(2) prod loss e1 e2 a unfolding finished_def tracks_def sound_def
    by (intro exI [of _ "cl_chain s'"] exI [of _ es] exI [of _ e1] exI [of _ e2] exI [of _ p]
        exI [of _ data] exI [of _ loss] exI [of _ d]) simp
qed

text \<open>The ends of the program, by the part that failed.\<close>

lemma sensor_main_cases:
  assumes "sensor_main env f os = Some (e, os', actions)"
  obtains (prepare) err where "prepare f os = (Inl err, os')" "e = Some err"
  | (launch) chain os1 err s where "prepare f os = (Inr chain, os1)" "launch env f chain os1 = ((Inl err, s), actions)"
      "e = Some err" "os' = cl_os s"
  | (collect) chain os1 m s err s1 where "prepare f os = (Inr chain, os1)" "launch env f chain os1 = ((Inr m, s), actions)"
      "collect env f m (en_polls env) s = Some (Inl err, s1)" "e = Some err" "os' = cl_os s1"
  | (finalize) chain os1 m s u s1 err s2 where "prepare f os = (Inr chain, os1)"
      "launch env f chain os1 = ((Inr m, s), actions)" "collect env f m (en_polls env) s = Some (Inr u, s1)"
      "finalize env f m (meanwhile env f s1) = (Inl err, s2)" "e = Some err" "os' = cl_os s2"
  | (complete) chain os1 m s acquired u s1 v s2 where "prepare f os = (Inr chain, os1)"
      "launch env f chain os1 = ((Inr m, s), acquired)" "collect env f m (en_polls env) s = Some (Inr u, s1)"
      "finalize env f m (meanwhile env f s1) = (Inr v, s2)" "e = None" "os' = snd (plain_call (cl_os s2))"
      "actions = acquired @ snd (Close_monitor (\<lambda>_. False) (Some m))"
  using assms unfolding sensor_main_def by (auto split: prod.splits sum.splits option.splits)

lemma sensor_main_end:
  assumes "sensor_main env f os = Some (e, os', actions)"
  shows "(e \<noteq> None \<and> os_files os' = os_files os) \<or>
    (os_files os (fl_output f) = None \<and>
     (\<exists>object. os_files os (fl_object f) = Some object \<and> cut_off f (run_source f object) (os_files os') \<and>
        (e = None \<longrightarrow> finished env f (run_source f object) (received opened (en_polls env)) (os_files os') actions)))"
  using assms
proof (cases rule: sensor_main_cases)
  case prepare
  then show ?thesis using prepare_files by blast
next
  case (launch chain os1 err s)
  from prepare_ok [OF launch(1)] launch_step [OF launch(2)] prepare_files [OF launch(1)] launch(3,4)
  show ?thesis by fastforce
next
  case (collect chain os1 m s err s1)
  from prepare_ok [OF collect(1)] obtain object where
    o: "os_files os (fl_object f) = Some object" "NewEventChain (build_scope f) (run_source f object) = Inr chain" by blast
  from launch_step [OF collect(2) o(2)] prepare_files [OF collect(1)] o(1) collect(4,5)
  show ?thesis using collect_sound [OF collect(3)] by fastforce
next
  case (finalize chain os1 m s u s1 err s2)
  from prepare_ok [OF finalize(1)] obtain object where
    o: "os_files os (fl_object f) = Some object" "NewEventChain (build_scope f) (run_source f object) = Inr chain" by blast
  from launch_step [OF finalize(2) o(2)] obtain e0 where s: "os_files os1 (fl_output f) = None" "m = opened"
    "sound f (run_source f object) [] [e0] s" by auto
  from collect_sound [OF finalize(3) s(3)] obtain evs es where "sound f (run_source f object) evs es s1" by auto
  from finalize_step [OF finalize(4) [unfolded s(2)] meanwhile_sound [OF this]]
  show ?thesis using o(1) s(1) prepare_files [OF finalize(1)] finalize(5,6) by auto
next
  case (complete chain os1 m s acquired u s1 v s2)
  from prepare_ok [OF complete(1)] obtain object where
    o: "os_files os (fl_object f) = Some object" "NewEventChain (build_scope f) (run_source f object) = Inr chain" by blast
  from launch_step [OF complete(2) o(2)] obtain e0 where s: "os_files os1 (fl_output f) = None" "m = opened"
    "sound f (run_source f object) [] [e0] s" "holds {} acquired = Some everything" by auto
  from collecting_sound [OF collect_received [OF complete(3) collecting.launched] s(3)] obtain new where
    snd1: "sound f (run_source f object) (received opened (en_polls env)) ([e0] @ new) s1" by (auto simp: s(2))
  have "holds {} actions = Some {}" by (simp add: complete(7) s(2,4) holds_append Close_opened)
  from finalize_finished [OF complete(4) [unfolded s(2)] snd1 this]
  have "finished env f (run_source f object) (received opened (en_polls env)) (os_files os') actions"
    using plain_call_files [of "cl_os s2"] by (metis complete(6) prod.collapse)
  moreover from this have "cut_off f (run_source f object) (os_files os')"
    unfolding finished_def by (blast intro: cut_off_whole)
  ultimately show ?thesis using o(1) s(1) prepare_files [OF complete(1)] by auto
qed
text \<open>A state the loop reaches: from the launch, through events that were handled.\<close>

definition reachable ::
  "environment \<Rightarrow> settings \<Rightarrow> os \<Rightarrow> KernelEvent list \<Rightarrow> collector \<Rightarrow> bool" where
  "reachable env f os evs s \<longleftrightarrow>
     (\<exists>chain os1 m s0 actions. prepare f os = (Inr chain, os1) \<and> launch env f chain os1 = ((Inr m, s0), actions) \<and>
        collecting env f m s0 evs s)"

lemma reachable_sound:
  assumes "reachable env f os evs s"
  shows "\<exists>object es. os_files os (fl_object f) = Some object \<and> sound f (run_source f object) evs es s"
proof -
  from assms obtain chain os1 m s0 actions where
    r: "prepare f os = (Inr chain, os1)" "launch env f chain os1 = ((Inr m, s0), actions)" "collecting env f m s0 evs s"
    by (auto simp: reachable_def)
  from prepare_ok [OF r(1)] obtain object where
    o: "os_files os (fl_object f) = Some object" "NewEventChain (build_scope f) (run_source f object) = Inr chain" by blast
  from launch_step [OF r(2) o(2)] obtain e where "sound f (run_source f object) [] [e] s0" by auto
  from collecting_sound [OF r(3) this] o(1) show ?thesis by blast
qed

section \<open>What a reader of the file gets\<close>

lemma written_events:
  "written build source chain es raw \<Longrightarrow> \<forall>e \<in> set es. event_ok e \<and> norm_event e = e \<and> validateEvent e = Inr ()"
proof (induction rule: written.induct)
  case (wrote build sensor chain es raw event out chain')
  then have "event_ok event" "validateEvent (Chain.appended chain event) = Inr ()" by (simp_all add: Append_ok)
  then show ?case using wrote.IH by (simp add: event_codec.norm_idem validateEvent_norm)
qed simp_all

lemma line_inject:
  "event_ok e \<Longrightarrow> event_ok e' \<Longrightarrow> norm_event e = e \<Longrightarrow> norm_event e' = e' \<Longrightarrow> line e = line e' \<Longrightarrow> e = e'"
  using event_codec.canonical_norm_inject [of e e'] canonical_line [of e "line e"] canonical_line [of e' "line e'"] by simp

text \<open>A stream the chain wrote has one reading: if it parses, to the events written.\<close>

lemma written_unique:
  assumes w: "written build source chain es (render es)" and p: "ParseEventStream (render es) = Inr events"
  shows "events = es"
proof -
  note ok = written_events [OF w]
  have lines: "raw_lines (render es) = map line es" using ok by (intro raw_lines_render) blast
  have "list_all2 (\<lambda>e e'. line_of (line e) e') es events"
    using p by (simp add: ParseEventStream_iff lines list_all2_map1)
  then have "list_all2 (=) es events"
  proof (rule list.rel_mono_strong)
    fix e e' assume "e \<in> set es" "line_of (line e) e'"
    then show "e = e'"
      using ok line_inject [of e e'] by (simp add: line_of_def valid_event_def dropCR_line TrimSpace_line)
  qed
  then show ?thesis by (simp add: list.rel_eq)
qed

lemma artifact_found:
  "(\<forall>e \<in> set es. ev_Operation e \<noteq> ''artifact_finalized'') \<Longrightarrow> ev_Operation e1 = ''artifact_finalized'' \<Longrightarrow>
   ev_Process e1 \<noteq> None \<Longrightarrow> resource_get e1 ''sha256'' = Some (AString hash) \<Longrightarrow>
   verifyArtifactObservation (es @ e1 # rest) h = Inr () \<longleftrightarrow> h = hash"
  by (induction es) (auto simp: as_string_def)

lemma loop_operations: "ev_Operation e \<in> operation_of ` K \<Longrightarrow> ev_Operation e \<noteq> ''artifact_finalized''"
  by (auto simp: operation_of_def split: if_splits)

text \<open>
  A finished run: started and finalized, the artifact observed with the digest of the file, and the
  counters of the kernel and of the collector in the last event.
\<close>

lemma finished_written:
  assumes fin: "finished env f source evs files actions" and apart: "fl_artifact f \<noteq> fl_output f"
  shows "\<exists>chain es data loss d. written (build_scope f) source chain es (render es) \<and>
    files (fl_output f) = Some (render es) \<and>
    en_files env (fl_artifact f) = Some data \<and> Loss_of (Some (en_counters env)) = Inr loss \<and>
    ev_Operation (hd es) = ''sensor_started'' \<and> ev_Operation (last es) = ''sensor_finalized'' \<and>
    attributed es \<and> (\<forall>h. verifyArtifactObservation es h = Inr () \<longleftrightarrow> h = Digest data) \<and>
    lossFromFinalEvent (last es) =
      \<lparr>ls_KernelReserve = reported (lo_RingBuffer loss), ls_KernelCorrelation = reported (lo_Correlation loss),
       ls_Decode = reported (of_nat d), ls_Queue = 0, ls_Persistence = 0, ls_CounterReadError = False\<rparr> \<and>
    counts evs (butlast (butlast es)) d \<and> holds {} actions = Some {}"
proof -
  from fin obtain chain es e1 e2 pr data loss d where
    w: "written (build_scope f) source chain (es @ [e1, e2]) (render (es @ [e1, e2]))" and
    stored: "files (fl_output f) = Some (render (es @ [e1, e2]))" and
    es: "es \<noteq> []" "ev_Operation (hd es) = ''sensor_started''" "attributed (es @ [e1, e2])"
      "\<forall>e \<in> set (tl es). ev_Operation e \<in> operation_of ` known_kinds" "counts evs es d" and
    data: "if fl_artifact f = fl_output f then data = render es else en_files env (fl_artifact f) = Some data" and
    loss: "Loss_of (Some (en_counters env)) = Inr loss" and
    e1: "ev_Operation e1 = ''artifact_finalized''" "ev_Process e1 = Some (norm_process pr)"
      "resource_get e1 ''sha256'' = Some (AString (Digest data))" and
    e2: "ev_Operation e2 = ''sensor_finalized''"
      "ev_Resource e2 = norm_map (Some (map_lit (loss_resource loss (of_nat d) False)))" and
    released: "holds {} actions = Some {}"
    unfolding finished_def by blast
  have "\<forall>e \<in> set es. ev_Operation e \<noteq> ''artifact_finalized''"
    using es(1,2,4) loop_operations by (cases es) fastforce+
  then have a: "\<forall>h. verifyArtifactObservation (es @ [e1, e2]) h = Inr () \<longleftrightarrow> h = Digest data"
    using e1 by (intro allI artifact_found) simp_all
  have c: "counts evs (butlast (butlast (es @ [e1, e2]))) d" using es(5) by (simp add: butlast_append)
  from w stored data apart loss es(1-3) e2(1) a lossFromFinalEvent_sent [OF e2] c released show ?thesis
    by (intro exI [of _ chain] exI [of _ "es @ [e1, e2]"] exI [of _ data] exI [of _ loss] exI [of _ d]) simp
qed

end
