(* ===== verification/Demo.thy ===== *)
theory Demo
  imports Local
begin

text \<open>
  A small build, concrete down to the values of every field: a sensor starts, one process is
  executed, it produces the artifact, the sensor stops without loss. The events are written by
  \<open>Append\<close>, the provenance by \<open>CreateLocalFixtureProvenance\<close>, the policy is a canonical document.
  Hashes stay symbolic. The theory shows that every hypothesis of the development's theorems can
  be met, up to the decision \<open>ALLOW\<close>.
\<close>

section \<open>The drafts\<close>

definition demo_build :: BuildScope where
  "demo_build = \<lparr>bs_BuildID = ''b1'', bs_RunID = ''r1'',
     bs_Source = \<lparr>src_Repository = ''git'', src_Revision = ''c0''\<rparr>,
     bs_BootID = ''boot'', bs_CgroupID = 7, bs_CgroupPathHash = ''sha256:aa''\<rparr>"

definition demo_sensor :: Sensor where
  "demo_sensor = \<lparr>sn_Name = ''rpf-sensor'', sn_Version = ''0.2.0'', sn_ConfigDigest = ''sha256:bb''\<rparr>"

definition demo_process :: Process where
  "demo_process = \<lparr>pr_ProcessKey = ''k1'', pr_ParentKey = ''k0'', pr_PID = 5, pr_TGID = 5, pr_PPID = 4,
     pr_StartTimeNS = 9, pr_PIDNamespace = 3, pr_MountNamespace = 3, pr_UID = 1, pr_GID = 1,
     pr_Executable = \<lparr>ex_Path = ''/bin/cc'', ex_Identity = ''/bin/cc'', ex_IdentityKind = ''path_only''\<rparr>\<rparr>"

definition draft :: "uint64 \<Rightarrow> Process option \<Rightarrow> string \<Rightarrow> (string \<times> any) list \<Rightarrow> Event" where
  "draft monotonic process operation resource = zero_event\<lparr>ev_ObservedAt := ''2026-01-01T00:00:00Z'',
     ev_MonotonicNS := monotonic, ev_Process := process, ev_Operation := operation,
     ev_Resource := Some (map_lit resource), ev_Outcome := \<lparr>oc_Status = ''success'', oc_Errno = 0\<rparr>\<rparr>"

definition demo_artifact :: bytes where "demo_artifact = ''rpf-artifact-v1''"

definition draft1 :: Event where
  "draft1 = draft 1 None ''sensor_started'' [(''target_cgroup_id'', AInt 7)]"
definition draft2 :: Event where
  "draft2 = draft 2 (Some demo_process) ''process_exec'' []"
definition draft3 :: Event where
  "draft3 = draft 3 (Some demo_process) ''artifact_finalized''
     [(''path'', AString ''/out/a''), (''sha256'', AString (Digest demo_artifact))]"
definition draft4 :: Event where
  "draft4 = draft 4 None ''sensor_finalized''
     [(''kernel_reserve'', AInt 0), (''kernel_correlation'', AInt 0), (''decode'', AInt 0),
      (''queue'', AInt 0), (''persistence'', AInt 0), (''counter_read_error'', ABool False)]"

lemmas draft_defs = draft1_def draft2_def draft3_def draft4_def draft_def zero_event_def

section \<open>Writing them\<close>

definition chain_step :: "EventChain \<Rightarrow> Event \<Rightarrow> EventChain" where
  "chain_step chain event =
     (taken chain)\<lparr>ch_previous := in_EventHash (ev_Integrity (Chain.appended chain event))\<rparr>"

definition chain0 :: EventChain where
  "chain0 = \<lparr>ch_build = demo_build, ch_sensor = demo_sensor, ch_sequence = 0, ch_previous = zeroHash\<rparr>"
definition chain1 :: EventChain where "chain1 = chain_step chain0 draft1"
definition chain2 :: EventChain where "chain2 = chain_step chain1 draft2"
definition chain3 :: EventChain where "chain3 = chain_step chain2 draft3"
definition chain4 :: EventChain where "chain4 = chain_step chain3 draft4"

definition event1 :: Event where "event1 = norm_event (Chain.appended chain0 draft1)"
definition event2 :: Event where "event2 = norm_event (Chain.appended chain1 draft2)"
definition event3 :: Event where "event3 = norm_event (Chain.appended chain2 draft3)"
definition event4 :: Event where "event4 = norm_event (Chain.appended chain3 draft4)"

definition demo_events :: "Event list" where "demo_events = [event1, event2, event3, event4]"
definition demo_stream :: bytes where "demo_stream = render demo_events"

lemma chain_state [simp]:
  "ch_build chain0 = demo_build" "ch_sensor chain0 = demo_sensor" "ch_sequence chain0 = 0"
  "ch_build (chain_step c e) = ch_build c" "ch_sensor (chain_step c e) = ch_sensor c"
  "ch_sequence (chain_step c e) = ch_sequence c + 1"
  "length (ch_previous (chain_step c e)) = 71"
  by (simp_all add: chain0_def chain_step_def taken_def appended_hash)

lemma chain_length: "length (ch_previous chain0) = 71"
  by (simp add: chain0_def zeroHash_def)

text \<open>A draft the chain takes: its limits are checked on the stamped event.\<close>

lemma step_ok:
  assumes "\<not> owned_fields_set event" "event_ok event" "small maxEventBytes (enc_event (stamp (taken chain) event))"
    "validateEvent (Chain.appended chain event) = Inr ()"
  shows "Append (Some chain) event = (Inr (line (Chain.appended chain event) @ [line_feed]), Some (chain_step chain event))"
  using assms by (simp add: Append_ok chain_step_def small_event)

lemma demo_new: "NewEventChain demo_build demo_sensor = Inr chain0"
  by (simp add: NewEventChain_def demo_build_def demo_sensor_def chain0_def)

lemma length_event_id: "length (event_id c) = 78"
  by (simp add: event_id_def)

lemmas sizes = small_def stamp_def taken_def length_event_id chain_length draft_defs EventSchema_def
  enc_event_def enc_build_def enc_source_def enc_sensor_def enc_outcome_def enc_integrity_def enc_process_def
  enc_executable_def enc_ptr_def enc_map_def enc_uint_def enc_int_def dec_int_def
  demo_build_def demo_sensor_def demo_process_def zero_integrity_def map_lit_def
  maxEventBytes_def maxStringBytes_def maxDepth_def maxValues_def

lemma chain_values [simp]:
  "ch_build chain1 = demo_build" "ch_sensor chain1 = demo_sensor" "ch_sequence chain1 = 1" "length (ch_previous chain1) = 71"
  "ch_build chain2 = demo_build" "ch_sensor chain2 = demo_sensor" "ch_sequence chain2 = 2" "length (ch_previous chain2) = 71"
  "ch_build chain3 = demo_build" "ch_sensor chain3 = demo_sensor" "ch_sequence chain3 = 3" "length (ch_previous chain3) = 71"
  "ch_build chain4 = demo_build" "ch_sensor chain4 = demo_sensor" "ch_sequence chain4 = 4" "length (ch_previous chain4) = 71"
  by (simp_all add: chain1_def chain2_def chain3_def chain4_def)

lemma length_digit: "n < 10 \<Longrightarrow> length (dec_nat n) = 1"
  by (subst dec_nat.simps) simp

lemma demo_stamped:
  "small maxEventBytes (enc_event (stamp (taken chain0) draft1))"
  "small maxEventBytes (enc_event (stamp (taken chain1) draft2))"
  "small maxEventBytes (enc_event (stamp (taken chain2) draft3))"
  "small maxEventBytes (enc_event (stamp (taken chain3) draft4))"
  by (simp_all add: sizes length_digit)

lemma demo_sizes:
  "small (maxEventBytes - 1) (enc_event (Chain.appended chain0 draft1))"
  "small (maxEventBytes - 1) (enc_event (Chain.appended chain1 draft2))"
  "small (maxEventBytes - 1) (enc_event (Chain.appended chain2 draft3))"
  "small (maxEventBytes - 1) (enc_event (Chain.appended chain3 draft4))"
  by (simp_all add: sizes length_digit Chain.appended_def Let_def set_hash_def)

lemma demo_valid:
  "validateEvent (Chain.appended chain0 draft1) = Inr ()" "validateEvent (Chain.appended chain1 draft2) = Inr ()"
  "validateEvent (Chain.appended chain2 draft3) = Inr ()" "validateEvent (Chain.appended chain3 draft4) = Inr ()"
  by (simp_all add: validateEvent_ok_iff Chain.appended_def Let_def set_hash_def stamp_def taken_def draft_defs
      demo_build_def demo_sensor_def demo_process_def process_incomplete_def allowedOperations_def event_id_def)


section \<open>Reading them\<close>

lemma demo_unowned:
  "\<not> owned_fields_set draft1" "\<not> owned_fields_set draft2" "\<not> owned_fields_set draft3" "\<not> owned_fields_set draft4"
  by (simp_all add: owned_fields_set_def draft_defs)

lemma demo_numbers: "event_ok draft1" "event_ok draft2" "event_ok draft3" "event_ok draft4"
  by (simp_all add: event_ok_def draft_defs enc_map_def map_lit_def)

lemmas demo_steps =
  step_ok [OF demo_unowned(1) demo_numbers(1) demo_stamped(1) demo_valid(1), folded chain1_def]
  step_ok [OF demo_unowned(2) demo_numbers(2) demo_stamped(2) demo_valid(2), folded chain2_def]
  step_ok [OF demo_unowned(3) demo_numbers(3) demo_stamped(3) demo_valid(3), folded chain3_def]
  step_ok [OF demo_unowned(4) demo_numbers(4) demo_stamped(4) demo_valid(4), folded chain4_def]

lemma demo_written: "\<exists>raw. written demo_build demo_sensor chain4 demo_events raw"
  using written.wrote [OF written.wrote [OF written.wrote [OF written.wrote [OF
      written.created [OF demo_new] demo_steps(1)] demo_steps(2)] demo_steps(3)] demo_steps(4)]
  by (auto simp: demo_events_def event1_def event2_def event3_def event4_def)

lemma small_line:
  "event_ok e \<Longrightarrow> small (maxEventBytes - 1) (enc_event e) \<Longrightarrow>
   length (line (norm_event e)) < maxEventBytes \<and> shape_ok (canon (enc_event (norm_event e)))"
  using small_length [of "maxEventBytes - 1" "enc_event e"]
  by (simp add: line_norm line_def event_codec.enc_norm small_shape maxEventBytes_def)

lemma demo_limits: "writer_limits demo_events"
  using small_line [OF _ demo_sizes(1)] small_line [OF _ demo_sizes(2)] small_line [OF _ demo_sizes(3)]
    small_line [OF _ demo_sizes(4)] demo_numbers
  by (simp add: writer_limits_def demo_events_def event1_def event2_def event3_def event4_def maxEvents_def)

lemma demo_sorted: "sorted (map ev_MonotonicNS demo_events)"
  by (simp add: demo_events_def event1_def event2_def event3_def event4_def draft_defs)

lemma demo_length: "length demo_stream \<le> maxDocumentBytes"
proof -
  have "\<forall>e \<in> set demo_events. length (line e) < maxEventBytes" using demo_limits by (simp add: writer_limits_def)
  then show ?thesis by (simp add: demo_stream_def render_def demo_events_def maxEventBytes_def maxDocumentBytes_def)
qed

lemma demo_parses: "ParseEventStream demo_stream = Inr demo_events"
proof -
  obtain raw where w: "written demo_build demo_sensor chain4 demo_events raw" using demo_written by blast
  then have "raw = demo_stream" using written_state [OF w] by (simp add: demo_stream_def)
  then show ?thesis
    using written_parses [OF w demo_limits _ demo_sorted] demo_length by (simp add: demo_events_def)
qed

section \<open>Deciding\<close>

definition demo_policy :: Policy where
  "demo_policy = \<lparr>po_SchemaVersion = ''0.1'', po_AllowedBuilderIDs = Some [LocalBuilderID],
     po_AllowedArtifactProducers = Some [''/bin/cc''], po_AllowedRepositories = Some [''git''],
     po_AllowedExecutables = Some [''/bin/cc''], po_AllowedNetworkDestinations = Some [],
     po_ForbiddenSensitiveCategories = Some [''cloud_metadata''], po_ExpectedProvider = ''local'',
     po_IncompleteDecision = ''REVIEW''\<rparr>"

definition demo_policy_bytes :: bytes where
  "demo_policy_bytes = marshal (canon (enc_policy demo_policy))"

lemma demo_norm_policy: "norm_policy demo_policy = demo_policy"
  by (simp add: norm_policy_def demo_policy_def sanitize_ascii local_valid)

lemma length_LocalBuilderID: "length LocalBuilderID = 92"
  by (simp add: LocalBuilderID_def)

lemma demo_decodePolicy: "decodePolicy demo_policy_bytes = Inr demo_policy"
proof -
  have small: "small maxDocumentBytes (enc_policy demo_policy)"
    by (simp add: small_def enc_policy_def demo_policy_def enc_slice_def length_LocalBuilderID
        maxDocumentBytes_def maxStringBytes_def maxDepth_def maxValues_def)
  have "decodeStrict dec_policy demo_policy_bytes zero_policy maxDocumentBytes = Inr (norm_policy demo_policy)"
    unfolding demo_policy_bytes_def by (rule policy_codec.decodeStrict_small [OF TrueI small])
  then show ?thesis by (simp add: decodePolicy_ok_iff demo_norm_policy) (simp add: demo_policy_def)
qed

text \<open>The events in closed form where the decision looks at them.\<close>

lemma demo_norms [simp]:
  "norm_build demo_build = demo_build" "norm_sensor demo_sensor = demo_sensor"
  "norm_process demo_process = demo_process"
  by (simp_all add: norm_build_def norm_source_def norm_sensor_def norm_process_def norm_executable_def
      demo_build_def demo_sensor_def demo_process_def sanitize_ascii)

lemmas event_defs = event1_def event2_def event3_def event4_def

lemma demo_build_all [simp]:
  "ev_Build event1 = demo_build" "ev_Build event2 = demo_build" "ev_Build event3 = demo_build" "ev_Build event4 = demo_build"
  by (simp_all add: event_defs)

lemma demo_processes [simp]:
  "ev_Process event1 = None" "ev_Process event2 = Some demo_process" "ev_Process event3 = Some demo_process"
  "ev_Process event4 = None"
  by (simp_all add: event_defs draft_defs)

lemma demo_operations [simp]:
  "ev_Operation event1 = ''sensor_started''" "ev_Operation event2 = ''process_exec''"
  "ev_Operation event3 = ''artifact_finalized''" "ev_Operation event4 = ''sensor_finalized''"
  by (simp_all add: event_defs draft_defs sanitize_ascii)

lemma demo_times [simp]: "ev_ObservedAt event1 = ''2026-01-01T00:00:00Z''" "ev_ObservedAt event4 = ''2026-01-01T00:00:00Z''"
  by (simp_all add: event_defs draft_defs sanitize_ascii)

lemma demo_hash: "resource_get event3 ''sha256'' = Some (AString (Digest demo_artifact))"
  by (simp add: resource_get_def event_defs draft_defs norm_map_get sanitize_ascii)

lemma demo_observed: "verifyArtifactObservation demo_events (Digest demo_artifact) = Inr ()"
  by (simp add: demo_events_def demo_hash as_string_def)

lemma demo_counters:
  "uintResource (ev_Resource event4) ''kernel_reserve'' = 0" "uintResource (ev_Resource event4) ''kernel_correlation'' = 0"
  "uintResource (ev_Resource event4) ''decode'' = 0" "uintResource (ev_Resource event4) ''queue'' = 0"
  "uintResource (ev_Resource event4) ''persistence'' = 0" "\<not> boolResource (ev_Resource event4) ''counter_read_error''"
  by (simp_all add: uintResource_def boolResource_def event_defs draft_defs norm_map_get sanitize_ascii norm_any_AInt
      dec_int_def parse_int_dec_nat)

text \<open>The provenance that the local fixture makes for these events.\<close>

definition demo_identity :: Correlation where
  "demo_identity = local_identity event1 ''git'' ''c0''"

lemma demo_identity_eq: "demo_identity = \<lparr>co_BuildID = ''b1'', co_BuilderID = LocalBuilderID,
    co_RunIdentity = \<lparr>ri_Provider = ''local'', ri_RunID = ''r1'', ri_Attempt = 1\<rparr>,
    co_Source = \<lparr>src_Repository = ''git'', src_Revision = ''c0''\<rparr>, co_EvidenceManifestHash = [],
    co_ExecutionGraphHash = [], co_SLSAProvenanceHash = [], co_PolicyHash = [], co_Completeness = []\<rparr>"
  by (simp add: demo_identity_def local_identity_def zero_correlation_def zero_source_def zero_run_identity_def demo_build_def)

lemma toMap_small: "small maxDocumentBytes (enc_correlation c) \<Longrightarrow> \<exists>ms. toMap (enc_correlation c) = Inr (Some ms)"
proof -
  assume s: "small maxDocumentBytes (enc_correlation c)"
  obtain ms0 where o: "enc_correlation c = JObj ms0" using enc_correlation_obj by blast
  have n: "numbers_ok (enc_correlation c)" by simp
  show ?thesis
    unfolding toMap_ok_iff [OF o n] using small_length [OF s] small_shape [OF s]
    by (simp add: o canon_JObj)
qed

lemmas correlation_sizes = small_def enc_correlation_def enc_run_identity_def enc_source_def enc_uint_def length_digit
  length_LocalBuilderID maxDocumentBytes_def maxStringBytes_def maxDepth_def maxValues_def

lemma demo_identity_small: "small maxDocumentBytes (enc_correlation demo_identity)"
  by (simp add: demo_identity_eq correlation_sizes)

lemma demo_local_ok: "local_ok ''a'' demo_artifact demo_events ''git'' ''c0''"
  by (simp add: local_ok_def demo_observed) (simp add: demo_artifact_def demo_events_def demo_build_def)

lemma demo_ready: "identity_ready demo_events"
  by (simp add: identity_ready_def demo_events_def demo_build_def)

lemma demo_created: "\<exists>ms. toMap (enc_correlation demo_identity) = Inr (Some ms) \<and>
  CreateLocalFixtureProvenance ''a'' demo_artifact demo_events ''git'' ''c0'' =
    Inr (local_statement ''a'' demo_artifact demo_events ''git'' ''c0'' ms)"
  using toMap_small [OF demo_identity_small] demo_local_ok
  by (auto simp: CreateLocalFixtureProvenance_ok_iff demo_identity_def demo_events_def)

definition demo_statement :: Statement where
  "demo_statement =
     (case CreateLocalFixtureProvenance ''a'' demo_artifact demo_events ''git'' ''c0'' of
        Inl _ \<Rightarrow> zero_statement | Inr st \<Rightarrow> st)"

lemma demo_create: "CreateLocalFixtureProvenance ''a'' demo_artifact demo_events ''git'' ''c0'' = Inr demo_statement"
  using demo_created by (auto simp: demo_statement_def)

lemma demo_identity_members: "\<exists>js. canon (enc_correlation demo_identity) = JObj js \<and>
  sum_list (map (\<lambda>(k, v). 18 * length k + 4 + weight v) js) \<le> 10000 \<and>
  (\<forall>(k, v) \<in> set js. 3 * length k \<le> maxStringBytes \<and> (\<forall>d \<le> 6. fits_raw d v)) \<and>
  sum_list (map (\<lambda>(k, v). nvals v) js) \<le> 50"
  by (simp add: demo_identity_eq enc_correlation_def enc_run_identity_def enc_source_def enc_uint_def codec_simps
      valid_number_dec_nat local_valid length_digit length_LocalBuilderID maxStringBytes_def maxDepth_def)

lemma demo_fits: "statement_fits demo_statement"
proof -
  obtain ms where m: "toMap (enc_correlation demo_identity) = Inr (Some ms)"
    and st: "demo_statement = local_statement ''a'' demo_artifact demo_events ''git'' ''c0'' ms"
    using demo_created demo_create by auto
  obtain js where js: "canon (enc_correlation demo_identity) = JObj js"
      "sum_list (map (\<lambda>(k, v). 18 * length k + 4 + weight v) js) \<le> 10000"
      "\<forall>(k, v) \<in> set js. 3 * length k \<le> maxStringBytes \<and> (\<forall>d \<le> 6. fits_raw d v)"
      "sum_list (map (\<lambda>(k, v). nvals v) js) \<le> 50"
    using demo_identity_members by blast
  have ms: "map_vals enc_any ms = js"
    using toMap_correlation [OF m] js(1) enc_map_any_of_normal [of js] by auto
  have len: "length BuildIdentityKey \<le> 200" "length LocalBuildType \<le> 200" "length StatementType \<le> 200"
      "length SLSAPredicate \<le> 200"
    by (simp_all add: BuildIdentityKey_def LocalBuildType_def StatementType_def SLSAPredicate_def)
  have depth: "\<forall>(k, v) \<in> set js. 3 * length k \<le> 32768 \<and> fits_raw (Suc (Suc (Suc (Suc (Suc 0))))) v"
    using js(3) by (auto simp: maxStringBytes_def)
  have "small (maxDocumentBytes - 1) (enc_statement demo_statement)"
    using len js(2,4) depth
    by (simp add: st local_statement_def enc_statement_def enc_subject_def enc_slice_def enc_map_def map_lit_def
        small_def ms length_LocalBuilderID demo_events_def demo_build_def
        maxDocumentBytes_def maxStringBytes_def maxDepth_def maxValues_def)
  then show ?thesis
    using small_length [of "maxDocumentBytes - 1" "enc_statement demo_statement"] small_shape
    by (auto simp: statement_fits_def maxDocumentBytes_def)
qed


definition demo_provenance :: bytes where "demo_provenance = document demo_statement"

definition demo_inputs :: Inputs where
  "demo_inputs = \<lparr>ip_ArtifactBytes = demo_artifact, ip_ArtifactName = ''a'', ip_EventBytes = demo_stream,
     ip_ProvenanceBytes = demo_provenance, ip_PolicyBytes = demo_policy_bytes\<rparr>"

lemma demo_norm_identity: "norm_correlation (local_identity (hd demo_events) ''git'' ''c0'') = demo_identity"
proof -
  have "norm_correlation demo_identity = demo_identity"
    unfolding demo_identity_eq
    by (simp add: norm_correlation_def norm_run_identity_def norm_source_def local_valid sanitize_ascii)
  then show ?thesis by (simp add: demo_identity_def demo_events_def)
qed

lemmas demo_round_trip = local_round_trip [OF demo_create demo_ready demo_fits, unfolded demo_norm_identity]

lemma demo_graphable: "graphable demo_events"
  by (simp add: graphable_def demo_events_def demo_process_def)

definition demo_assembly :: assembly where
  "demo_assembly = made demo_events demo_policy (norm_statement demo_statement) demo_identity (graph_of demo_events)"

lemma demo_inputs_parse: "inputs_parse demo_inputs demo_assembly"
  by (simp add: inputs_parse_def demo_inputs_def demo_assembly_def demo_parses demo_decodePolicy demo_provenance_def
      demo_round_trip)

lemma demo_predicate: "st_PredicateType (norm_statement demo_statement) = SLSAPredicate"
proof -
  obtain ms where st: "demo_statement = local_statement ''a'' demo_artifact demo_events ''git'' ''c0'' ms"
    using demo_created demo_create by auto
  show ?thesis unfolding st by (simp add: norm_statement_def local_statement_def SLSAPredicate_def sanitize_ascii)
qed

lemma demo_consistent: "consistent demo_inputs demo_assembly"
  using demo_round_trip(3)
  by (simp add: consistent_def demo_assembly_def demo_inputs_def demo_predicate demo_observed sanitize_ascii)
    (simp add: demo_identity_eq demo_events_def demo_build_def)


lemma demo_events_ok: "\<forall>e \<in> set demo_events. event_ok e"
proof -
  have "event_ok event1" "event_ok event2" "event_ok event3" "event_ok event4"
    using demo_numbers by (simp_all add: event_defs)
  then show ?thesis by (simp add: demo_events_def)
qed

lemma demo_complete: "completeness (as_manifest demo_inputs demo_assembly) = ''complete''"
  by (simp add: completeness_cases lost_def as_manifest_def assemble_manifest_def demo_assembly_def demo_events_def
      lossFromFinalEvent_def Let_def demo_counters)

lemma demo_correlation_small: "small maxDocumentBytes (enc_correlation (as_correlation demo_inputs demo_assembly))"
  using demo_complete
  by (simp add: as_correlation_def assemble_correlation_def as_graphHash_def zero_correlation_def correlation_sizes)
    (simp add: demo_assembly_def demo_identity_eq length_digit)

lemma permutes_id: "permutes (\<lambda>ks. ks)"
  by (simp add: permutes_def)

lemma demo_assembles: "\<exists>b. assembles (\<lambda>ks. ks) demo_inputs demo_assembly b"
  unfolding assembles_ex_iff [OF permutes_id]
  using demo_inputs_parse demo_consistent demo_graphable small_length [OF demo_correlation_small]
    small_shape [OF demo_correlation_small]
  by (simp add: correlation_fits_def) (simp add: demo_assembly_def)

definition demo_bundle :: Bundle where
  "demo_bundle = (case Assemble (\<lambda>ks. ks) demo_inputs of Inr b \<Rightarrow> b)"

lemma demo_bundle_assembles: "assembles (\<lambda>ks. ks) demo_inputs demo_assembly demo_bundle"
proof -
  obtain b where b: "assembles (\<lambda>ks. ks) demo_inputs demo_assembly b" using demo_assembles by blast
  then have "Assemble (\<lambda>ks. ks) demo_inputs = Inr b" using Assemble_iff by blast
  with b show ?thesis by (simp add: demo_bundle_def)
qed

lemma demo_bundle: "Assemble (\<lambda>ks. ks) demo_inputs = Inr demo_bundle"
  using demo_bundle_assembles Assemble_iff by blast

lemma assembles_manifest: "assembles order inputs a b \<Longrightarrow> bd_Manifest b = as_manifest inputs a"
  by (auto simp: assembles_def)

lemma demo_manifest: "bd_Manifest demo_bundle = as_manifest demo_inputs demo_assembly"
  by (rule assembles_manifest [OF demo_bundle_assembles])

lemma demo_no_reasons:
  "policy_reasons (as_policy demo_assembly) (as_identity demo_assembly) (completeness (bd_Manifest demo_bundle)) = []"
  "behaviorReasons (as_events demo_assembly) (as_policy demo_assembly) = []"
  unfolding policy_reasons_Nil behaviorReasons_Nil demo_manifest demo_complete
  by (simp_all add: demo_assembly_def demo_identity_eq demo_policy_def policy_allows_def event_allowed_def
      demo_events_def demo_process_def)

lemma demo_allow: "Verify (\<lambda>ks. ks) demo_inputs demo_bundle =
  Inr \<lparr>de_Decision = ''ALLOW'', de_Completeness = ''complete'', de_Reasons = Some []\<rparr>"
  using assembles_verifies [OF permutes_id permutes_id demo_bundle_assembles] demo_no_reasons
  by (simp add: demo_manifest demo_complete)

section \<open>A bundle for another artifact\<close>

definition no_bundle :: Bundle where
  "no_bundle = \<lparr>bd_Graph = zero_graph, bd_Manifest = zero_manifest, bd_RuntimeTrace = zero_statement\<rparr>"

lemma no_bundle_unbound: "\<not> artifact_bound demo_inputs no_bundle"
  using Digest_nonempty [of demo_artifact, symmetric]
  by (simp add: artifact_bound_def no_bundle_def zero_manifest_def zero_artifact_def demo_inputs_def)

lemma no_bundle_rejected: "Verify (\<lambda>ks. ks) demo_inputs no_bundle = Inr (artifact_mismatch no_bundle)"
  by (rule Verify_mismatch [OF demo_inputs_parse no_bundle_unbound])

lemma no_bundle_unknown: "completeness (bd_Manifest no_bundle) = ''unknown''"
  by (simp add: completeness_cases no_bundle_def zero_manifest_def zero_lifecycle_def)

lemma demo_short: "length demo_stream < maxDocumentBytes"
proof -
  have "\<forall>e \<in> set demo_events. length (line e) < maxEventBytes" using demo_limits by (simp add: writer_limits_def)
  then show ?thesis by (simp add: demo_stream_def render_def demo_events_def maxEventBytes_def maxDocumentBytes_def)
qed

end
