(* ===== verification/Demo_Files.thy ===== *)
theory Demo_Files
  imports Demo Files
begin

text \<open>The bundle of \<open>Demo\<close> written to files and read back.\<close>

lemma demo_graph: "graph_of demo_events = \<lparr>eg_SchemaVersion = ''0.2'', eg_BuildID = ''b1'',
   eg_Nodes = Some [\<lparr>gn_ProcessKey = ''k1'', gn_ParentKey = ''k0'', gn_ParentObservation = ''unobserved'', gn_Executable = ''/bin/cc''\<rparr>],
   eg_Edges = Some
     [\<lparr>ge_Sequence = 2, ge_From = ''k0'', ge_To = ''k1'', ge_Kind = ''unobserved_exec_parent'', ge_Evidence = None\<rparr>,
      \<lparr>ge_Sequence = 3, ge_From = ''k1'', ge_To = resourceIdentity event3, ge_Kind = ''artifact_finalized'',
       ge_Evidence = ev_Resource event3\<rparr>]\<rparr>"
proof -
  have seq: "ev_Sequence event2 = 2" "ev_Sequence event3 = 3" by (simp_all add: event_defs)
  show ?thesis
    by (simp add: graph_of_def node_map_def map_lit_def observed_node_def all_edges_def edge_of_def event_edges_def
        event_node_def zero_node_def zero_edge_def demo_events_def demo_build_def demo_process_def resource_operations_def seq)
qed

lemma length_resourceIdentity: "length (resourceIdentity event3) \<le> 80"
proof -
  have "resource_get event3 ''category'' = None" "resource_get event3 ''destination'' = None"
    by (simp_all add: resource_get_def event_defs draft_defs norm_map_get sanitize_ascii)
  then show ?thesis
    by (simp add: resourceIdentity_def canonicalDigest_def split: sum.split) (auto simp: and_then_def split: sum.split_asm)
qed

lemma demo_resource: "ev_Resource event3 = Some [(''path'', AString ''/out/a''), (''sha256'', AString (Digest demo_artifact))]"
proof -
  have "ev_Resource event3 = norm_map (Some (map_lit [(''path'', AString ''/out/a''), (''sha256'', AString (Digest demo_artifact))]))"
    by (simp add: event_defs draft_defs)
  also have "\<dots> = Some (map_vals norm_any (map_lit [(''path'', AString ''/out/a''), (''sha256'', AString (Digest demo_artifact))]))"
    by (rule norm_map_lit) (simp add: sanitize_ascii)
  finally show ?thesis by (simp add: map_lit_def sanitize_ascii)
qed

lemma demo_graph_loadable: "loadable (enc_graph (graph_of demo_events))"
proof -
  have "small (maxDocumentBytes - 1) (enc_graph (graph_of demo_events))"
    using length_resourceIdentity
    by (simp add: demo_graph demo_resource enc_graph_def enc_slice_def enc_node_def enc_edge_def enc_uint_def enc_map_def
        small_def length_digit maxDocumentBytes_def maxStringBytes_def maxDepth_def maxValues_def)
  then show ?thesis
    using small_length [of "maxDocumentBytes - 1" "enc_graph (graph_of demo_events)"] small_shape
    by (auto simp: loadable_def document_of_def maxDocumentBytes_def)
qed

lemma demo_manifest_loadable: "loadable (enc_manifest (as_manifest demo_inputs demo_assembly))"
proof -
  have seq: "ev_Sequence event1 = 1" "ev_Sequence event4 = 4" by (simp_all add: event_defs)
  have src: "ev_Sensor event1 = demo_sensor" by (simp add: event_defs)
  have "small (maxDocumentBytes - 1) (enc_manifest (as_manifest demo_inputs demo_assembly))"
    by (simp add: as_manifest_def assemble_manifest_def as_graphHash_def demo_assembly_def demo_identity_eq demo_inputs_def
        demo_events_def lossFromFinalEvent_def Let_def demo_counters seq src demo_sensor_def ManifestSchema_def
        enc_manifest_def enc_run_identity_def enc_source_def enc_stream_def enc_loss_def enc_lifecycle_def enc_artifact_def
        enc_uint_def small_def length_digit maxDocumentBytes_def maxStringBytes_def maxDepth_def maxValues_def)
  then show ?thesis
    using small_length [of "maxDocumentBytes - 1" "enc_manifest (as_manifest demo_inputs demo_assembly)"] small_shape
    by (auto simp: loadable_def document_of_def maxDocumentBytes_def)
qed

lemma demo_correlation_members: "\<exists>js. canon (enc_correlation (as_correlation demo_inputs demo_assembly)) = JObj js \<and>
  sum_list (map (\<lambda>(k, v). 18 * length k + 4 + weight v) js) \<le> 10000 \<and>
  (\<forall>(k, v) \<in> set js. 3 * length k \<le> maxStringBytes \<and> (\<forall>d \<le> 6. fits_raw d v)) \<and>
  sum_list (map (\<lambda>(k, v). nvals v) js) \<le> 50"
proof -
  have c: "as_correlation demo_inputs demo_assembly =
    \<lparr>co_BuildID = ''b1'', co_BuilderID = [], co_RunIdentity = \<lparr>ri_Provider = ''local'', ri_RunID = ''r1'', ri_Attempt = 1\<rparr>,
     co_Source = \<lparr>src_Repository = ''git'', src_Revision = ''c0''\<rparr>,
     co_EvidenceManifestHash = Digest (marshal (canon (enc_manifest (as_manifest demo_inputs demo_assembly)))),
     co_ExecutionGraphHash = as_graphHash demo_assembly, co_SLSAProvenanceHash = Digest demo_provenance,
     co_PolicyHash = Digest demo_policy_bytes, co_Completeness = ''complete''\<rparr>"
    using demo_complete
    by (simp add: as_correlation_def assemble_correlation_def zero_correlation_def demo_inputs_def)
      (simp add: demo_assembly_def demo_identity_eq)
  have h: "sanitize (as_graphHash a) = as_graphHash a" "length (as_graphHash a) = 64" for a by (simp_all add: as_graphHash_def)
  show ?thesis
    by (simp add: c h enc_correlation_def enc_run_identity_def enc_source_def enc_uint_def codec_simps
      valid_number_dec_nat length_digit maxStringBytes_def maxDepth_def)
qed

lemma demo_trace_loadable: "loadable (enc_statement (bd_RuntimeTrace demo_bundle))"
proof -
  obtain m where m: "toMap (enc_correlation (as_correlation demo_inputs demo_assembly)) = Inr m"
    and b: "bd_RuntimeTrace demo_bundle = assemble_trace demo_inputs (as_events demo_assembly)
        (as_identity demo_assembly) (as_graph demo_assembly) m"
    using demo_bundle_assembles unfolding assembles_def by (metis Bundle.select_convs(3))
  obtain js where js: "canon (enc_correlation (as_correlation demo_inputs demo_assembly)) = JObj js"
      "sum_list (map (\<lambda>(k, v). 18 * length k + 4 + weight v) js) \<le> 10000"
      "\<forall>(k, v) \<in> set js. 3 * length k \<le> maxStringBytes \<and> (\<forall>d \<le> 6. fits_raw d v)"
      "sum_list (map (\<lambda>(k, v). nvals v) js) \<le> 50"
    using demo_correlation_members by blast
  obtain ms where ms: "m = Some ms" "map_vals enc_any ms = js"
    using toMap_correlation [OF m] js(1) enc_map_any_of_normal [of js] by auto
  have len: "length CorrelationKey \<le> 200" "length StatementType \<le> 200" "length RuntimePredicate \<le> 200"
    by (simp_all add: CorrelationKey_def StatementType_def RuntimePredicate_def)
  have depth: "\<forall>(k, v) \<in> set js. 3 * length k \<le> 32768 \<and> fits_raw (Suc (Suc (Suc 0))) v"
    using js(3) by (auto simp: maxStringBytes_def)
  have "small (maxDocumentBytes - 1) (enc_statement (bd_RuntimeTrace demo_bundle))"
    unfolding b assemble_trace_def
    using len js(2,4) depth
    by (simp add: enc_statement_def enc_subject_def enc_slice_def enc_map_def map_lit_def enc_node_def CorrelationKey_def
        small_def ms demo_assembly_def demo_graph [unfolded demo_events_def] demo_inputs_def demo_events_def demo_build_def demo_identity_eq
        maxDocumentBytes_def maxStringBytes_def maxDepth_def maxValues_def)
  then show ?thesis
    using small_length [of "maxDocumentBytes - 1" "enc_statement (bd_RuntimeTrace demo_bundle)"] small_shape
    by (auto simp: loadable_def document_of_def maxDocumentBytes_def)
qed

definition empty_os :: os where
  "empty_os = \<lparr>os_files = (\<lambda>_. None), os_faults = []\<rparr>"

lemma quiet_empty [simp]: "quiet empty_os"
  by (simp add: quiet_def empty_os_def)

lemma demo_WriteBundle: "\<exists>s. WriteBundle (\<lambda>ks. ks) ''out'' demo_bundle empty_os = (Inr (), s) \<and> quiet s"
  by (rule WriteBundle_quiet [OF permutes_id demo_bundle_assembles quiet_empty])

lemma assembles_graph: "assembles order inputs a b \<Longrightarrow> bd_Graph b = as_graph a"
  by (auto simp: assembles_def)

lemma demo_bundle_graph: "bd_Graph demo_bundle = graph_of demo_events"
  using assembles_graph [OF demo_bundle_assembles] by (simp add: demo_assembly_def)

end
