(* ===== verification/Demo_Collector.thy ===== *)
theory Demo_Collector
  imports Collector_Run Demo_Files
begin

text \<open>
  A run of the collector, concrete down to the bytes of the kernel's records: the sensor opens, one
  process is executed and opens the artifact, the context is done, and the stream is finalized.
\<close>

definition demo_settings :: settings where
  "demo_settings =
     \<lparr>fl_object = ''o'', fl_cgroupID = 7, fl_cgroupPath = ''/c'', fl_buildID = ''b1'', fl_runID = ''r1'',
      fl_repository = ''git'', fl_revision = ''c0'', fl_bootID = ''boot'',
      fl_cgroupPathHash = ''sha256:'' @ Digest ''/c'', fl_output = ''e'', fl_artifact = ''/a'',
      fl_sensitivePath = [], fl_sensitiveCategory = []\<rparr>"

definition demo_wire :: "uint64 \<Rightarrow> uint32 \<Rightarrow> string \<Rightarrow> wireExecEvent" where
  "demo_wire time kind path =
     \<lparr>wi_MonotonicNS = time, wi_CgroupID = 7, wi_StartTimeNS = 9, wi_ParentStartTimeNS = 8,
      wi_PID = 5, wi_TGID = 5, wi_PPID = 4, wi_UID = 1, wi_GID = 1, wi_PIDNamespace = 3, wi_MountNamespace = 3,
      wi_ParentPIDNamespace = 3, wi_Kind = kind, wi_Flags = 1, wi_DestinationIPv4 = 0, wi_DestinationPort = 0,
      wi_Protocol = 0, wi_Command = replicate commLength (CHR 0x00), wi_Filename = padded_path path,
      wi_Padding = replicate 4 (CHR 0x00)\<rparr>"

definition demo_poll :: "ring \<Rightarrow> poll" where
  "demo_poll r = \<lparr>pl_done = False, pl_now = 0, pl_ring = (\<lambda>_. r)\<rparr>"

definition demo_env :: environment where
  "demo_env =
     \<lparr>en_bpf = \<lparr>eb_stat = (\<lambda>_. Some 7), eb_spec = True, eb_variables = (\<lambda>_. Some True), eb_collection = True,
                eb_programs = (\<lambda>_. True), eb_tracepoint = (\<lambda>_ _. True), eb_cgroup = True, eb_events = True,
                eb_ring = True\<rparr>,
      en_polls = [demo_poll (Sample (write_wire (demo_wire 2 EventExec ''/bin/cc''))), demo_poll DeadlineExceeded,
                  demo_poll (Sample (write_wire (demo_wire 3 EventOpen ''/a''))),
                  \<lparr>pl_done = True, pl_now = 0, pl_ring = (\<lambda>_. DeadlineExceeded)\<rparr>],
      en_now = (\<lambda>_. ''2026-01-01T00:00:00Z''), en_boottime = (\<lambda>n. Some (0, int n + 1)),
      en_files = (\<lambda>p. if p = ''/a'' then Some demo_artifact else None),
      en_counters = (\<lambda>_. Some (Some [0, 0]))\<rparr>"

definition demo_os :: os where
  "demo_os = put_file ''o'' ''bpf'' empty_os"

section \<open>Events that the chain takes\<close>

text \<open>A chain of the demo's identities with a number of one digit.\<close>

definition demo_chain :: "nat \<Rightarrow> EventChain \<Rightarrow> bool" where
  "demo_chain n c \<longleftrightarrow> ch_build c = build_scope demo_settings \<and> ch_sensor c = run_source demo_settings ''bpf'' \<and>
     ch_sequence c = of_nat n \<and> length (ch_previous c) = 71 \<and> n < 9"

lemma demo_chain_step: "demo_chain n c \<Longrightarrow> n < 8 \<Longrightarrow> demo_chain (Suc n) (chain_step c e)"
  by (simp add: demo_chain_def add.commute)

definition demo_seen :: Process where
  "demo_seen = \<lparr>pr_ProcessKey = ProcessKey ''boot'' 3 5 9, pr_ParentKey = ProcessKey ''boot'' 3 4 8, pr_PID = 5,
     pr_TGID = 5, pr_PPID = 4, pr_StartTimeNS = 9, pr_PIDNamespace = 3, pr_MountNamespace = 3, pr_UID = 1, pr_GID = 1,
     pr_Executable = path_only ''/bin/cc''\<rparr>"

text \<open>The resources of the run's events.\<close>

definition demo_resources :: "(string \<times> (string \<times> any) list) set" where
  "demo_resources =
     {(''sensor_started'', [(''target_cgroup_id'', AInt 7)]), (''process_exec'', []),
      (''file_open_output'', [(''path'', AString ''/a''), (''flags'', AInt 1)]),
      (''artifact_finalized'', [(''path'', AString ''/a''), (''sha256'', AString (Digest demo_artifact))]),
      (''sensor_finalized'', loss_resource zero_counters 0 False)}"

lemmas observed_sizes = small_def stamp_def taken_def length_event_id observation_def zero_event_def EventSchema_def
  enc_event_def enc_build_def enc_source_def enc_sensor_def enc_outcome_def enc_integrity_def enc_process_def
  enc_executable_def enc_ptr_def enc_map_def enc_uint_def enc_int_def dec_int_def demo_seen_def path_only_def
  build_scope_def demo_settings_def run_source_def sensor_source_def zero_integrity_def map_lit_def ProcessKey_eq
  loss_resource_def zero_counters_def maxEventBytes_def maxStringBytes_def maxDepth_def maxValues_def

lemma length_dec_small: "n < 10 \<Longrightarrow> length (dec_nat (unat (of_nat n :: uint64))) = 1"
  by (simp add: length_digit unat_of_nat)

lemma demo_seen_complete: "\<not> process_incomplete demo_seen"
  by (simp add: process_incomplete_def demo_seen_def path_only_def ProcessKey_eq)

lemma demo_identities [simp]:
  "bs_BuildID (build_scope demo_settings) = ''b1''" "bs_RunID (build_scope demo_settings) = ''r1''"
  "bs_BootID (build_scope demo_settings) = ''boot''" "bs_CgroupID (build_scope demo_settings) = 7"
  "bs_CgroupPathHash (build_scope demo_settings) \<noteq> []"
  "src_Repository (bs_Source (build_scope demo_settings)) = ''git''"
  "src_Revision (bs_Source (build_scope demo_settings)) = ''c0''"
  "sn_Name (run_source demo_settings o') = ''rpf-sensor''" "sn_Version (run_source demo_settings o') = ''0.2.0''"
  "sn_ConfigDigest (run_source demo_settings o') \<noteq> []"
  by (simp_all add: build_scope_def demo_settings_def run_source_def sensor_source_def)

lemma demo_taken:
  assumes c: "demo_chain n c" and r: "(operation, resource) \<in> demo_resources" and t: "0 < t" "t < 10"
    and p: "operation = ''process_exec'' \<longrightarrow> process \<noteq> None" "process = None \<or> process = Some demo_seen"
  defines "e \<equiv> observation ''2026-01-01T00:00:00Z'' (of_nat t) process operation resource ''success''"
  shows "Append (Some c) e = (Inr (line (Chain.appended c e) @ [line_feed]), Some (chain_step c e))"
proof (rule step_ok)
  show "\<not> owned_fields_set e" by (simp add: e_def owned_fields_set_def observation_def zero_event_def)
  show "event_ok e"
    using r by (auto simp: e_def event_ok_def observation_def zero_event_def enc_map_def map_lit_def demo_resources_def
        loss_resource_def zero_counters_def)
  have "of_nat n + 1 = (of_nat (Suc n) :: uint64)" by simp
  moreover have n: "Suc n < 10" using c by (simp add: demo_chain_def)
  ultimately have seq: "length (dec_nat (unat (ch_sequence c + 1))) = 1" and time: "length (dec_nat (unat (of_nat t :: uint64))) = 1"
    using c length_dec_small [OF n] length_dec_small [OF t(2)] by (simp_all add: demo_chain_def add.commute)
  show "small maxEventBytes (enc_event (stamp (taken c) e))"
    using r p(2) c seq time
    by (auto simp: e_def demo_resources_def demo_chain_def observed_sizes length_digit)
  have nz: "(of_nat t :: uint64) \<noteq> 0" "ch_sequence c + 1 \<noteq> 0"
    using t c by (simp_all add: demo_chain_def word_unat_eq_iff unat_of_nat unat_word_ariths)
  have op: "operation \<in> set allowedOperations" using r by (auto simp: demo_resources_def allowedOperations_def)
  have fields: "ev_Build (Chain.appended c e) = build_scope demo_settings"
    "ev_Sensor (Chain.appended c e) = run_source demo_settings ''bpf''" "ev_Sequence (Chain.appended c e) \<noteq> 0"
    "ev_EventID (Chain.appended c e) \<noteq> []" "ev_SchemaVersion (Chain.appended c e) = EventSchema"
    using c nz(2) by (simp_all add: demo_chain_def) (simp_all add: Chain.appended_def Let_def set_hash_def stamp_def event_id_def)
  show "validateEvent (Chain.appended c e) = Inr ()"
    using op nz p demo_seen_complete
    unfolding validateEvent_ok_iff fields
    by (simp add: fields demo_identities) (auto simp: e_def)
qed
section \<open>The run\<close>

text \<open>What an event is about: its time, its process, its operation and its resource.\<close>

type_synonym demo_entry = "nat \<times> Process option \<times> string \<times> (string \<times> any) list"

definition demo_event :: "demo_entry \<Rightarrow> Event \<Rightarrow> bool" where
  "demo_event x e \<longleftrightarrow> (case x of (t, process, operation, resource) \<Rightarrow>
     0 < t \<and> t < 10 \<and> (operation, resource) \<in> demo_resources \<and> process \<in> {None, Some demo_seen} \<and>
     (operation = ''process_exec'' \<longrightarrow> process \<noteq> None) \<and>
     (\<exists>n c. demo_chain n c \<and> n < 8 \<and>
        e = sent c (observation ''2026-01-01T00:00:00Z'' (of_nat t) process operation resource ''success'')))"

abbreviation demo_starts :: demo_entry where
  "demo_starts \<equiv> (Suc 0, None, ''sensor_started'', [(''target_cgroup_id'', AInt 7)])"

abbreviation demo_executes :: demo_entry where
  "demo_executes \<equiv> (2, Some demo_seen, ''process_exec'', [])"

abbreviation demo_opens :: demo_entry where
  "demo_opens \<equiv> (3, Some demo_seen, ''file_open_output'', [(''path'', AString ''/a''), (''flags'', AInt 1)])"

abbreviation demo_hashes :: demo_entry where
  "demo_hashes \<equiv> (4, Some demo_seen, ''artifact_finalized'',
     [(''path'', AString ''/a''), (''sha256'', AString (Digest demo_artifact))])"

abbreviation demo_ends :: demo_entry where
  "demo_ends \<equiv> (5, None, ''sensor_finalized'', loss_resource zero_counters 0 False)"

definition demo_state :: "demo_entry list \<Rightarrow> collector \<Rightarrow> bool" where
  "demo_state xs s \<longleftrightarrow> demo_chain (length xs) (cl_chain s) \<and> quiet (cl_os s) \<and> cl_ticks s = length xs \<and>
     (\<exists>es. tracks demo_settings (run_source demo_settings ''bpf'') es s \<and> list_all2 demo_event xs es)"

lemma demo_writeEvent:
  assumes "Append (Some (cl_chain s)) e = (Inr raw, Some (chain_step (cl_chain s) e))" "quiet (cl_os s)"
  shows "\<exists>s'. writeEvent output e s = (Inr (), s') \<and> cl_chain s' = chain_step (cl_chain s) e \<and> quiet (cl_os s') \<and>
    unchanged s s' \<and> cl_ticks s' = cl_ticks s"
proof -
  have f: "next_fault (cl_os s) = None" using assms(2) by (auto simp: quiet_def next_fault_def split: list.splits)
  have w: "Write output raw (cl_os s) = (Inr (), put_file output
    ((case os_files (cl_os s) output of None \<Rightarrow> [] | Some d \<Rightarrow> d) @ raw) (cl_os s))"
    using assms(2) f by (simp add: Write_def Let_def)
  define os where "os = put_file output ((case os_files (cl_os s) output of None \<Rightarrow> [] | Some d \<Rightarrow> d) @ raw) (cl_os s)"
  have q: "quiet os" using assms(2) by (simp add: os_def)
  then have "plain_call os = (Inr (), os)"
    by (auto simp: plain_call_def quiet_def next_fault_def called_def split: list.splits)
  then show ?thesis using assms(1) w q by (simp add: writeEvent_def Let_def os_def unchanged_def)
qed

lemma demo_emit:
  assumes s: "demo_state xs s" "length xs < 8" and r: "(operation, resource) \<in> demo_resources" and t: "0 < t" "t < 10"
    and p: "operation = ''process_exec'' \<longrightarrow> process \<noteq> None" "process = None \<or> process = Some demo_seen"
  shows "\<exists>s'. emit demo_env demo_settings (of_nat t) process operation resource ''success'' s = (Inr (), s') \<and>
    demo_state (xs @ [(t, process, operation, resource)]) s' \<and> unchanged s s'"
proof -
  let ?s = "s\<lparr>cl_ticks := cl_ticks s + 1\<rparr>"
  let ?e = "observation ''2026-01-01T00:00:00Z'' (of_nat t) process operation resource ''success''"
  from s have c: "demo_chain (length xs) (cl_chain s)" "quiet (cl_os s)" by (simp_all add: demo_state_def)
  from s obtain es where es: "tracks demo_settings (run_source demo_settings ''bpf'') es s" "list_all2 demo_event xs es"
    by (auto simp: demo_state_def)
  from demo_writeEvent [of ?s, simplified, OF demo_taken [OF c(1) r t p] c(2)] obtain s' where
    s': "writeEvent (fl_output demo_settings) ?e ?s = (Inr (), s')" "cl_chain s' = chain_step (cl_chain s) ?e"
      "quiet (cl_os s')" "unchanged ?s s'" "cl_ticks s' = cl_ticks s + 1"
    by fastforce
  have em: "emit demo_env demo_settings (of_nat t) process operation resource ''success'' s = (Inr (), s')"
    using s'(1) by (simp add: emit_def demo_env_def)
  have e: "demo_event (t, process, operation, resource) (sent (cl_chain s) ?e)"
    using r t p c(1) s(2) by (auto simp: demo_event_def)
  have "tracks demo_settings (run_source demo_settings ''bpf'') (es @ [sent (cl_chain s) ?e]) s'"
    using emit_step [OF em es(1)] by (simp add: demo_env_def)
  with e es(2) have "\<exists>es. tracks demo_settings (run_source demo_settings ''bpf'') es s' \<and>
      list_all2 demo_event (xs @ [(t, process, operation, resource)]) es"
    by (intro exI [of _ "es @ [sent (cl_chain s) ?e]"]) (simp add: list_all2_appendI)
  with em s' s demo_chain_step [OF c(1) s(2)] show ?thesis
    by (auto simp: demo_state_def unchanged_def)
qed

lemma demo_emit_now:
  assumes "demo_state xs s" "length xs < 8" "(operation, resource) \<in> demo_resources" "operation \<noteq> ''process_exec''"
    "process = None \<or> process = Some demo_seen"
  shows "\<exists>s'. emit_now demo_env demo_settings process operation resource s = (Inr (), s') \<and>
    demo_state (xs @ [(Suc (length xs), process, operation, resource)]) s' \<and> unchanged s s'"
proof -
  have "boottimeNS (en_boottime demo_env (cl_ticks s)) = Inr (of_nat (Suc (length xs)))"
    using assms(1) by (simp add: boottimeNS_def demo_env_def demo_state_def)
  with demo_emit [of xs s operation resource "Suc (length xs)" process] assms show ?thesis
    by (simp add: emit_now_def del: of_nat_Suc)
qed

lemma demo_wire_ok: "length path < pathLength \<Longrightarrow> wire_ok (demo_wire t k path)"
  by (simp add: wire_ok_def demo_wire_def padded_path_def)

lemma demo_record:
  assumes "k \<in> known_kinds" "CHR 0x00 \<notin> set path" "length path < pathLength"
  shows "decodeEvent (write_wire (demo_wire t k path)) = Inr (kernel_event (demo_wire t k path))"
    "ke_Filename (kernel_event (demo_wire t k path)) = path"
  using assms demo_wire_ok [of path t k]
  by (simp_all add: decodeEvent_write_wire) (simp_all add: demo_wire_def kernel_event_def cString_padded)

lemma demo_kernel_processes:
  "CHR 0x00 \<notin> set path \<Longrightarrow> length path < pathLength \<Longrightarrow>
   processFromKernel (kernel_event (demo_wire t k path)) ''boot'' = demo_seen\<lparr>pr_Executable := path_only path\<rparr>"
  by (simp add: processFromKernel_def demo_seen_def kernel_event_def demo_wire_def cString_padded)

lemma demo_paths: "CHR 0x00 \<notin> set ''/bin/cc''" "CHR 0x00 \<notin> set ''/a''" "length ''/bin/cc'' < pathLength" "length ''/a'' < pathLength"
  by (simp_all add: pathLength_def)

definition demo_exec :: KernelEvent where "demo_exec = kernel_event (demo_wire 2 EventExec ''/bin/cc'')"
definition demo_open :: KernelEvent where "demo_open = kernel_event (demo_wire 3 EventOpen ''/a'')"

lemma demo_kernel_fields:
  "ke_Kind demo_exec = EventExec" "ke_MonotonicNS demo_exec = 2" "ke_Filename demo_exec = ''/bin/cc''"
  "ke_Kind demo_open = EventOpen" "ke_MonotonicNS demo_open = 3" "ke_Filename demo_open = ''/a''" "ke_Flags demo_open = 1"
  by (simp_all add: demo_exec_def demo_open_def kernel_event_def demo_wire_def cString_padded [OF demo_paths(1,3)]
      cString_padded [OF demo_paths(2,4)])

lemma demo_process_fields:
  "processFromKernel demo_exec ''boot'' = demo_seen\<lparr>pr_Executable := path_only ''/bin/cc''\<rparr>"
  "pr_ProcessKey (processFromKernel demo_open ''boot'') = pr_ProcessKey demo_seen"
  unfolding demo_exec_def demo_open_def demo_kernel_processes [OF demo_paths(1,3)] demo_kernel_processes [OF demo_paths(2,4)]
  by simp_all

lemma demo_boot: "fl_bootID demo_settings = ''boot''" "fl_artifact demo_settings = ''/a''" "fl_output demo_settings = ''e''"
  by (simp_all add: demo_settings_def)

lemma demo_handle_exec:
  assumes "demo_state xs s" "length xs < 8" "cl_processes s = []"
  shows "\<exists>s'. handle demo_env demo_settings demo_exec s = (Inr (), s') \<and>
    demo_state (xs @ [demo_executes]) s' \<and>
    cl_processes s' = [(pr_ProcessKey demo_seen, demo_seen)] \<and> cl_decodeLoss s' = cl_decodeLoss s"
proof -
  have p: "demo_seen\<lparr>pr_Executable := path_only ''/bin/cc''\<rparr> = demo_seen" by (simp add: demo_seen_def)
  have tr: "track demo_seen s = s\<lparr>cl_processes := [(pr_ProcessKey demo_seen, demo_seen)]\<rparr>"
    using assms(3) by (simp add: track_def maxTrackedProcesses_def)
  have "demo_state xs (track demo_seen s)" using assms(1) by (simp add: tr demo_state_def tracks_def)
  from demo_emit [OF this assms(2), of "''process_exec''" "[]" 2 "Some demo_seen"]
  obtain s' where "emit demo_env demo_settings 2 (Some demo_seen) ''process_exec'' [] ''success'' (track demo_seen s) = (Inr (), s')"
    "demo_state (xs @ [demo_executes]) s'" "unchanged (track demo_seen s) s'"
    by (auto simp: demo_resources_def)
  then show ?thesis
    by (simp add: handle_def handle_exec_def Let_def demo_kernel_fields demo_process_fields p demo_boot tr unchanged_def)
qed
lemma demo_handle_open:
  assumes "demo_state xs s" "length xs < 8" "cl_processes s = [(pr_ProcessKey demo_seen, demo_seen)]"
  shows "\<exists>s'. handle demo_env demo_settings demo_open s = (Inr (), s') \<and> demo_state (xs @ [demo_opens]) s' \<and>
    cl_artifactProducer s' = Some demo_seen \<and> cl_decodeLoss s' = cl_decodeLoss s \<and>
    cl_processes s' = cl_processes s"
proof -
  from demo_emit [OF assms(1,2), of "''file_open_output''" "[(''path'', AString ''/a''), (''flags'', AInt 1)]" 3 "Some demo_seen"]
  obtain s' where "emit demo_env demo_settings 3 (Some demo_seen) ''file_open_output''
      [(''path'', AString ''/a''), (''flags'', AInt 1)] ''success'' s = (Inr (), s')"
    "demo_state (xs @ [demo_opens]) s'" "unchanged s s'"
    by (auto simp: demo_resources_def)
  then show ?thesis
    by (simp add: handle_def handle_open_def demo_kernel_fields demo_process_fields demo_boot assms(3) map_get_def
        event_kinds unchanged_def demo_state_def tracks_def)
qed

lemma demo_reads:
  "\<exists>rest. Read (Some opened) None (en_polls demo_env) = Some (Inr demo_exec, rest) \<and>
     (\<exists>rest'. Read (Some opened) None rest = Some (Inr demo_open, rest') \<and>
        (\<exists>rest''. Read (Some opened) None rest' = Some (Inl ContextDone, rest'')))"
proof -
  have "EventExec \<in> known_kinds" "EventOpen \<in> known_kinds" by (simp_all add: known_kinds_def)
  then have "decodeEvent (write_wire (demo_wire 2 EventExec ''/bin/cc'')) = Inr demo_exec"
    "decodeEvent (write_wire (demo_wire 3 EventOpen ''/a'')) = Inr demo_open"
    using demo_record(1) demo_paths by (simp_all add: demo_exec_def demo_open_def)
  then show ?thesis by (simp add: Read_def opened_def demo_env_def demo_poll_def)
qed

lemma demo_collect:
  assumes "demo_state [demo_starts] s" "cl_processes s = []" "cl_decodeLoss s = 0"
  shows "\<exists>s'. collect demo_env demo_settings opened (en_polls demo_env) s = Some (Inr (), s') \<and> demo_state [demo_starts, demo_executes, demo_opens] s' \<and>
    cl_artifactProducer s' = Some demo_seen \<and> cl_decodeLoss s' = 0"
proof -
  from demo_reads obtain rest rest' rest'' where
    r: "Read (Some opened) None (en_polls demo_env) = Some (Inr demo_exec, rest)"
      "Read (Some opened) None rest = Some (Inr demo_open, rest')"
      "Read (Some opened) None rest' = Some (Inl ContextDone, rest'')" by blast
  from demo_handle_exec [OF assms(1) _ assms(2)] obtain s1 where
    s1: "handle demo_env demo_settings demo_exec s = (Inr (), s1)" "demo_state [demo_starts, demo_executes] s1"
      "cl_processes s1 = [(pr_ProcessKey demo_seen, demo_seen)]" "cl_decodeLoss s1 = 0"
    using assms(3) by auto
  from demo_handle_open [OF s1(2) _ s1(3)] obtain s2 where
    s2: "handle demo_env demo_settings demo_open s1 = (Inr (), s2)" "demo_state [demo_starts, demo_executes, demo_opens] s2"
      "cl_artifactProducer s2 = Some demo_seen" "cl_decodeLoss s2 = 0"
    using s1(4) by auto
  have "collect demo_env demo_settings opened rest' s2 = Some (Inr (), s2)"
    by (subst collect.simps) (simp add: r(3) cancelled_def)
  then have "collect demo_env demo_settings opened rest s1 = Some (Inr (), s2)"
    by (subst collect.simps) (simp add: r(2) s2(1))
  then have "collect demo_env demo_settings opened (en_polls demo_env) s = Some (Inr (), s2)"
    by (subst collect.simps) (simp add: r(1) s1(1))
  with s2 show ?thesis by blast
qed

lemma demo_finalize:
  assumes "demo_state [demo_starts, demo_executes, demo_opens] s" "cl_artifactProducer s = Some demo_seen" "cl_decodeLoss s = 0"
    "os_files (cl_os s) ''/a'' = Some demo_artifact"
  shows "\<exists>s'. finalize demo_env demo_settings opened s = (Inr (), s') \<and>
    demo_state [demo_starts, demo_executes, demo_opens, demo_hashes, demo_ends] s'"
proof -
  have f: "next_fault (cl_os s) = None" "quiet (cl_os s)" "called (cl_os s) = cl_os s"
    using assms(1) by (auto simp: demo_state_def quiet_def next_fault_def called_def split: list.splits)
  have d: "digestFile ''/a'' (cl_os s) = (Inr (Digest demo_artifact), cl_os s)"
    using f assms(4) by (simp add: digestFile_def ReadFile_quiet)
  obtain s1 where s1: "emit_now demo_env demo_settings (Some demo_seen) ''artifact_finalized''
      [(''path'', AString ''/a''), (''sha256'', AString (Digest demo_artifact))] s = (Inr (), s1)"
      "demo_state [demo_starts, demo_executes, demo_opens, demo_hashes] s1" "unchanged s s1"
    using demo_emit_now [OF assms(1), of "''artifact_finalized''"
        "[(''path'', AString ''/a''), (''sha256'', AString (Digest demo_artifact))]" "Some demo_seen"]
    by (auto simp: demo_resources_def eval_nat_numeral)
  have l: "Loss_of (Some (en_counters demo_env)) = Inr zero_counters"
    by (simp add: Loss_of_def read_counter_def demo_env_def zero_counters_def)
  have z: "cl_decodeLoss s1 = 0" using s1(3) assms(3) by (simp add: unchanged_def)
  obtain s2 where "emit_now demo_env demo_settings None ''sensor_finalized'' (loss_resource zero_counters 0 False) s1 = (Inr (), s2)"
    "demo_state [demo_starts, demo_executes, demo_opens, demo_hashes, demo_ends] s2"
    using demo_emit_now [OF s1(2), of "''sensor_finalized''" "loss_resource zero_counters 0 False" None]
    by (auto simp: demo_resources_def eval_nat_numeral)
  then show ?thesis using d s1(1) l z assms(2) by (simp add: finalize_def demo_boot opened_def Let_def)
qed

lemma demo_object: "fl_object demo_settings = ''o''"
  by (simp add: demo_settings_def)

definition demo_first :: EventChain where
  "demo_first = \<lparr>ch_build = build_scope demo_settings, ch_sensor = run_source demo_settings ''bpf'',
    ch_sequence = 0, ch_previous = zeroHash\<rparr>"

lemma demo_first_new: "NewEventChain (build_scope demo_settings) (run_source demo_settings ''bpf'') = Inr demo_first"
  by (simp add: NewEventChain_def demo_first_def)

lemma demo_first_chain: "demo_chain 0 demo_first"
  by (simp add: demo_chain_def demo_first_def zeroHash_def)

lemma demo_prepare: "prepare demo_settings demo_os = (Inr demo_first, demo_os)"
proof -
  have r: "ReadFile ''o'' demo_os = (Inr ''bpf'', demo_os)"
    by (rule ReadFile_quiet) (simp_all add: demo_os_def put_file_def quiet_def empty_os_def)
  have c: "check_settings demo_settings = None"
    by (simp add: check_settings_def demo_settings_def IsAbs_def slash_def)
  show ?thesis
    unfolding prepare_def demo_object
    by (simp add: r c digest_configuration demo_first_new [unfolded run_source_def, simplified])
qed

lemma demo_launch:
  "\<exists>s actions. launch demo_env demo_settings demo_first demo_os = ((Inr opened, s), actions) \<and> demo_state [demo_starts] s \<and>
    cl_processes s = [] \<and> cl_decodeLoss s = 0"
proof -
  let ?cf = "\<lparr>cf_CgroupID = fl_cgroupID demo_settings, cf_CgroupPath = fl_cgroupPath demo_settings,
    cf_SensitivePath = fl_sensitivePath demo_settings\<rparr>"
  have "\<exists>actions. Open (en_bpf demo_env) ?cf = (Inr opened, actions)"
    unfolding Open_ok_iff by (simp add: demo_env_def demo_settings_def pathLength_def)
  then obtain actions where o: "Open (en_bpf demo_env) ?cf = (Inr opened, actions)" by blast
  define os1 where "os1 = put_file ''e'' [] demo_os"
  have q: "quiet demo_os" by (simp add: demo_os_def)
  have x: "OpenExclusive ''e'' demo_os = (Inr (), os1)"
    by (simp add: OpenExclusive_def demo_os_def put_file_def empty_os_def next_fault_def called_def os1_def)
  define s0 where "s0 = \<lparr>cl_chain = demo_first, cl_os = os1, cl_ticks = 0, cl_processes = [], cl_artifactProducer = None,
    cl_decodeLoss = 0\<rparr>"
  have "tracks demo_settings (run_source demo_settings ''bpf'') [] s0"
    using written.created [OF demo_first_new] by (simp add: tracks_def s0_def os1_def render_def put_file_def demo_boot)
  then have "demo_state [] s0" using demo_first_chain q by (auto simp: demo_state_def s0_def os1_def)
  from demo_emit_now [OF this, of "''sensor_started''" "[(''target_cgroup_id'', AInt 7)]" None] obtain s1 where
    s1: "emit_now demo_env demo_settings None ''sensor_started'' [(''target_cgroup_id'', AInt 7)] s0 = (Inr (), s1)"
      "demo_state [demo_starts] s1" "unchanged s0 s1"
    by (auto simp: demo_resources_def)
  have "fl_cgroupID demo_settings = 7" by (simp add: demo_settings_def)
  then have "launch demo_env demo_settings demo_first demo_os = ((Inr opened, s1), actions)"
    using o x s1(1) by (simp add: launch_def Let_def demo_boot s0_def)
  with s1 show ?thesis by (auto simp: unchanged_def s0_def)
qed

lemma demo_main:
  "\<exists>os' actions chain es. sensor_main demo_env demo_settings demo_os = Some (None, os', actions) \<and>
     os_files os' ''e'' = Some (render es) \<and>
     written (build_scope demo_settings) (run_source demo_settings ''bpf'') chain es (render es) \<and>
     list_all2 demo_event [demo_starts, demo_executes, demo_opens, demo_hashes, demo_ends] es"
proof -
  from demo_launch obtain s actions where
    l: "launch demo_env demo_settings demo_first demo_os = ((Inr opened, s), actions)"
    "demo_state [demo_starts] s" "cl_processes s = []" "cl_decodeLoss s = 0" by blast
  from demo_collect [OF l(2-4)] obtain s1 where c: "collect demo_env demo_settings opened (en_polls demo_env) s = Some (Inr (), s1)"
    "demo_state [demo_starts, demo_executes, demo_opens] s1" "cl_artifactProducer s1 = Some demo_seen" "cl_decodeLoss s1 = 0" by blast
  define s2 where "s2 = meanwhile demo_env demo_settings s1"
  have "demo_state [demo_starts, demo_executes, demo_opens] s2" "cl_artifactProducer s2 = Some demo_seen" "cl_decodeLoss s2 = 0"
    "os_files (cl_os s2) ''/a'' = Some demo_artifact"
    using c by (simp_all add: s2_def meanwhile_def demo_state_def tracks_def quiet_def) (simp add: demo_boot demo_env_def)
  from demo_finalize [OF this] obtain s3 where f: "finalize demo_env demo_settings opened s2 = (Inr (), s3)"
    "demo_state [demo_starts, demo_executes, demo_opens, demo_hashes, demo_ends] s3" by blast
  obtain x os' where os': "plain_call (cl_os s3) = (x, os')" by fastforce
  have "sensor_main demo_env demo_settings demo_os =
      Some (None, os', actions @ snd (Close_monitor (\<lambda>_. False) (Some opened)))"
    using demo_prepare l c f(1) os' by (simp add: sensor_main_def s2_def)
  moreover from f(2) plain_call_files [OF os'] obtain es where
    "os_files os' ''e'' = Some (render es)"
    "written (build_scope demo_settings) (run_source demo_settings ''bpf'') (cl_chain s3) es (render es)"
    "list_all2 demo_event [demo_starts, demo_executes, demo_opens, demo_hashes, demo_ends] es"
    by (auto simp: demo_state_def tracks_def demo_boot)
  ultimately show ?thesis by blast
qed

end
