(* ===== verification/Collector_Facts.thy ===== *)
theory Collector_Facts
  imports Collector_Run
begin

text \<open>
  Two encodings of the collector: the digest of its configuration commits to the settings it is made
  of, and a destination text names one address and one port.
\<close>

section \<open>The configuration\<close>

definition clean_configuration :: "sensorConfiguration \<Rightarrow> sensorConfiguration" where
  "clean_configuration c =
     \<lparr>sf_ObjectSHA256 = sanitize (sf_ObjectSHA256 c), sf_CgroupID = sf_CgroupID c,
      sf_CgroupPathSHA256 = sanitize (sf_CgroupPathSHA256 c), sf_Repository = sanitize (sf_Repository c),
      sf_Revision = sanitize (sf_Revision c), sf_SensitivePathSHA256 = sanitize (sf_SensitivePathSHA256 c),
      sf_SensitiveCategory = sanitize (sf_SensitiveCategory c)\<rparr>"

lemma marshal_configuration:
  assumes "marshal (enc_configuration c) = marshal (enc_configuration c')"
  shows "clean_configuration c = clean_configuration c'"
proof -
  have ok: "numbers_ok (enc_configuration c)" "numbers_ok (enc_configuration c')"
    by (simp_all add: enc_configuration_def enc_uint_def valid_number_dec_nat)
  have "clean (enc_configuration c) = clean (enc_configuration c')"
    using parse_marshal [OF ok(1), of "[]"] parse_marshal [OF ok(2), of "[]"] assms by simp
  then show ?thesis
    by (auto simp: enc_configuration_def enc_uint_def clean_configuration_def intro: unsigned_word_eqI)
qed

lemma same_configuration:
  assumes "digestSensorConfiguration c = digestSensorConfiguration c'"
  shows "clean_configuration c = clean_configuration c' \<or>
    (\<exists>x y. x \<noteq> y \<and> Digest x = Digest y \<and> x = marshal (enc_configuration c) \<and> y = marshal (enc_configuration c'))"
  using assms marshal_configuration [of c c'] by (auto simp: digest_configuration)

section \<open>Destinations\<close>

lemma dec_nat_no: "\<not> is_digit c \<Longrightarrow> c \<notin> set (dec_nat n)"
  using dec_nat_digits [of n] by (auto simp: list_all_iff)

lemma append_Cons_split:
  "a @ c # b = a' @ c # b' \<Longrightarrow> c \<notin> set a \<Longrightarrow> c \<notin> set a' \<Longrightarrow> a = a' \<and> b = b'"
proof (induction a arbitrary: a')
  case Nil
  then show ?case by (cases a') auto
next
  case (Cons x a)
  then show ?case by (cases a') auto
qed

lemma join_inject:
  "length xs = length ys \<Longrightarrow> \<forall>x \<in> set xs \<union> set ys. c \<notin> set x \<Longrightarrow> join [c] xs = join [c] ys \<Longrightarrow> xs = ys"
proof (induction xs ys rule: list_induct2)
  case (Cons x xs y ys)
  then show ?case
    using append_Cons_split [of x c "join [c] xs" y "join [c] ys"] by (auto simp: join_Cons split: if_splits)
qed simp

lemma le_bytes_inject:
  assumes "le_bytes n k = le_bytes n k'" "k < 256 ^ n" "k' < 256 ^ n"
  shows "k = k'"
proof -
  have "k mod 256 ^ n = k' mod 256 ^ n" using arg_cong [OF assms(1), of le_nat] by (simp only: le_nat_bytes)
  with assms(2,3) show ?thesis by (simp only: mod_less)
qed

lemma ipv4Destination_inject:
  assumes "ipv4Destination a p = ipv4Destination a' p'"
  shows "a = a' \<and> p = p'"
proof -
  let ?o = "\<lambda>w :: uint32. map (\<lambda>octet. dec_nat (of_char octet)) (le_bytes 4 (unat w))"
  have no: "\<forall>x \<in> set (?o w). CHR ''.'' \<notin> set x" "CHR '':'' \<notin> set (join ''.'' (?o w))" for w
  proof -
    show d: "\<forall>x \<in> set (?o w). CHR ''.'' \<notin> set x" by (auto simp: dec_nat_no is_digit_def)
    have "set (join ''.'' xs) \<subseteq> insert CHR ''.'' (\<Union>(set ` set xs))" for xs
      by (induction xs) (auto simp: join_Cons)
    moreover have "\<forall>x \<in> set (?o w). CHR '':'' \<notin> set x" by (auto simp: dec_nat_no is_digit_def)
    ultimately show "CHR '':'' \<notin> set (join ''.'' (?o w))" by fastforce
  qed
  from assms have "join ''.'' (?o a) @ CHR '':'' # dec_nat (unat p) = join ''.'' (?o a') @ CHR '':'' # dec_nat (unat p')"
    by (simp add: ipv4Destination_def)
  from append_Cons_split [OF this no(2) no(2)]
  have j: "join ''.'' (?o a) = join ''.'' (?o a')" and p: "unat p = unat p'" by simp_all
  have "?o a = ?o a'" by (rule join_inject [OF _ _ j]) (use no(1) in auto)
  then have octets: "le_bytes 4 (unat a) = le_bytes 4 (unat a')" by (rule map_injective) (simp add: inj_def)
  have "unat a < 256 ^ 4" "unat a' < 256 ^ 4" using unsigned_less [of a] unsigned_less [of a'] by simp_all
  from le_bytes_inject [OF octets this] have "unat a = unat a'" .
  with p show ?thesis by (simp add: word_unat_eq_iff)
qed

end
