(* ===== verification/Sensor_Claims.thy ===== *)
theory Sensor_Claims
  imports Demo_Collector Collector_Facts
begin

text \<open>
  The properties of the kernel sensor and of the collector, each with its application to the run of
  \<open>Demo_Collector\<close>.
\<close>

section \<open>Records\<close>

text \<open>C23: \<open>decodeEvent\<close> inverts the layout of the kernel's records: it accepts exactly the bytes of the
  records of the four kinds, and answers with their fields, the two texts cut at the first NUL.\<close>

theorem decodeEvent_reads:
  "decodeEvent raw = Inr e \<longleftrightarrow>
   (\<exists>w. wire_ok w \<and> wi_Kind w \<in> {1, 2, 3, 4} \<and> raw = write_wire w \<and> e = kernel_event w)"
proof -
  have k: "known_kinds = {1, 2, 3, 4}"
    by (simp add: known_kinds_def EventExec_def EventOpen_def EventSensitive_def EventConnect4_def)
  show ?thesis
    using write_read_wire [of raw] length_write_wire read_write_wire unfolding decodeEvent_ok_iff k by metis
qed

section \<open>Resources\<close>

text \<open>C21: whichever step of \<open>Open\<close> fails, everything it acquired is released again, once; and what a
  sensor that was opened holds, \<open>Close\<close> releases, whatever errors the calls of \<open>Close\<close> give.\<close>

theorem Open_Close_balanced:
  assumes "Open env config = (r, actions)"
  shows "case r of Inl e \<Rightarrow> holds {} actions = Some {}
                 | Inr m \<Rightarrow> holds {} (actions @ snd (Close_monitor fails (Some m))) = Some {}"
  using Open_holds [OF assms] Close_opened [of fails] by (auto simp: holds_append split: sum.split)

lemma Open_Close_balanced_witness:
  "\<exists>m actions. Open (en_bpf demo_env) \<lparr>cf_CgroupID = 7, cf_CgroupPath = ''/c'', cf_SensitivePath = []\<rparr> = (Inr m, actions) \<and>
     holds {} (actions @ snd (Close_monitor (\<lambda>_. True) (Some m))) = Some {}"
proof -
  have "\<exists>actions. Open (en_bpf demo_env) \<lparr>cf_CgroupID = 7, cf_CgroupPath = ''/c'', cf_SensitivePath = []\<rparr> = (Inr opened, actions)"
    unfolding Open_ok_iff by (simp add: demo_env_def pathLength_def)
  with Open_Close_balanced show ?thesis by fastforce
qed

section \<open>Loss counters\<close>

text \<open>C37: the counters that \<open>Loss\<close> reports are the sums over the CPUs of the five maps, modulo \<open>2 ^ 64\<close>;
  it fails exactly when one of the maps is missing or cannot be read.\<close>

theorem Loss_sums:
  "Loss_of (Some maps) = Inr l \<longleftrightarrow>
   list_all (\<lambda>(name, w). \<exists>perCPU. maps name = Some (Some perCPU) \<and> unat w = sum_list (map unat perCPU) mod 2 ^ 64)
     [(''ringbuf_drops'', lo_RingBuffer l), (''correlation_drops'', lo_Correlation l),
      (''path_read_drops'', lo_PathRead l), (''map_update_drops'', lo_MapUpdate l),
      (''cgroup_mismatch_drops'', lo_CgroupMismatch l)]"
  by (simp add: Loss_of_ok_iff read_counter_ok_iff)

section \<open>The loop\<close>

text \<open>C22: a run whose context is done in some round ends: the collector neither waits for ever nor loops.\<close>

theorem sensor_main_returns:
  assumes "\<exists>p \<in> set (en_polls env). pl_done p"
  shows "\<exists>e os' actions. sensor_main env f os = Some (e, os', actions)"
proof -
  have c: "\<exists>r. collect env f m (en_polls env) s = Some r"
    if "launch env f chain os1 = ((Inr m, s), actions)" for chain os1 m s actions
  proof (rule collect_returns [OF assms])
    obtain x acts where o: "Open (en_bpf env) \<lparr>cf_CgroupID = fl_cgroupID f, cf_CgroupPath = fl_cgroupPath f,
      cf_SensitivePath = fl_sensitivePath f\<rparr> = (x, acts)" by fastforce
    with that have "x = Inr m" by (auto simp: launch_def Let_def split: prod.splits sum.splits)
    with Open_holds [OF o] show "mo_reader m" by (simp add: opened_def)
  qed
  obtain x os1 where p: "prepare f os = (x, os1)" by fastforce
  show ?thesis
  proof (cases x)
    case (Inr chain)
    obtain y s acts where l: "launch env f chain os1 = ((y, s), acts)" by (metis prod.exhaust)
    show ?thesis
    proof (cases y)
      case (Inr m)
      with c l obtain r s1 where "collect env f m (en_polls env) s = Some (r, s1)" by fastforce
      then show ?thesis using p l \<open>x = Inr chain\<close> Inr by (auto simp: sensor_main_def split: sum.split prod.split)
    qed (use p l Inr in \<open>simp add: sensor_main_def\<close>)
  qed (use p in \<open>simp add: sensor_main_def\<close>)
qed

lemma sensor_main_returns_witness: "\<forall>f os. \<exists>e os' actions. sensor_main demo_env f os = Some (e, os', actions)"
  using sensor_main_returns [of demo_env] by (simp add: demo_env_def)

lemma demo_reachable: "\<exists>s. reachable demo_env demo_settings demo_os [demo_exec, demo_open] s \<and> cl_decodeLoss s = 0 \<and> cl_processes s \<noteq> []"
proof -
  from demo_launch obtain s actions where
    l: "launch demo_env demo_settings demo_first demo_os = ((Inr opened, s), actions)"
    "demo_state [demo_starts] s" "cl_processes s = []" "cl_decodeLoss s = 0" by blast
  from demo_reads obtain rest rest' where
    r: "Read (Some opened) None (en_polls demo_env) = Some (Inr demo_exec, rest)"
      "Read (Some opened) None rest = Some (Inr demo_open, rest')" by blast
  from demo_handle_exec [OF l(2) _ l(3)] obtain s1 where
    s1: "handle demo_env demo_settings demo_exec s = (Inr (), s1)" "demo_state [demo_starts, demo_executes] s1"
      "cl_processes s1 = [(pr_ProcessKey demo_seen, demo_seen)]" "cl_decodeLoss s1 = 0"
    using l(4) by auto
  from demo_handle_open [OF s1(2) _ s1(3)] obtain s2 where
    s2: "handle demo_env demo_settings demo_open s1 = (Inr (), s2)" "cl_decodeLoss s2 = 0" "cl_processes s2 \<noteq> []"
    using s1(3,4) by auto
  have c: "collecting demo_env demo_settings opened s ([] @ [demo_exec]) s1"
    by (rule collecting.recorded [OF collecting.launched r(1) s1(1)])
  have "collecting demo_env demo_settings opened s (([] @ [demo_exec]) @ [demo_open]) s2"
    by (rule collecting.recorded [OF c r(2) s2(1)])
  then show ?thesis using demo_prepare l(1) s2(2,3) unfolding reachable_def by auto
qed

text \<open>C24: in every state that the loop reaches the process table is a map of at most 65536 entries, each
  under the key of its own process, and every process in it was reported by a \<open>process_exec\<close> event.\<close>

theorem process_table_bounded:
  assumes "reachable env f os evs s"
  shows "map_wf (cl_processes s) \<and> length (cl_processes s) \<le> 65536 \<and>
    (\<exists>es. os_files (cl_os s) (fl_output f) = Some (render es) \<and>
       (\<forall>(key, p) \<in> set (cl_processes s). pr_ProcessKey p = key \<and> executed es p))"
proof -
  from reachable_sound [OF assms] obtain source es where s: "sound f source evs es s" by blast
  then have t: "table_ok es (cl_processes s)" by (simp add: sound_def)
  then have "\<forall>(key, p) \<in> set (cl_processes s). pr_ProcessKey p = key \<and> executed es p"
    using map_get_eq_Some by (fastforce simp: table_ok_def)
  moreover have "map_wf (cl_processes s)" "length (cl_processes s) \<le> 65536"
    using t by (simp_all add: table_ok_def maxTrackedProcesses_def)
  ultimately show ?thesis using s unfolding sound_def tracks_def by blast
qed

lemma process_table_bounded_witness:
  "\<exists>(s :: collector) es. os_files (cl_os s) (fl_output demo_settings) = Some (render es) \<and>
     (\<exists>(key, p) \<in> set (cl_processes s). pr_ProcessKey p = key \<and> executed es p)"
proof -
  obtain s where "reachable demo_env demo_settings demo_os [demo_exec, demo_open] s" "cl_processes s \<noteq> []"
    using demo_reachable by blast
  from process_table_bounded [OF this(1)] obtain es where
    es: "os_files (cl_os s) (fl_output demo_settings) = Some (render es)"
      "\<forall>(key, p) \<in> set (cl_processes s). pr_ProcessKey p = key \<and> executed es p" by blast
  from \<open>cl_processes s \<noteq> []\<close> obtain key p where "(key, p) \<in> set (cl_processes s)"
    by (metis list.set_intros(1) neq_Nil_conv prod.exhaust)
  with es(2) have "\<exists>(key, p) \<in> set (cl_processes s). pr_ProcessKey p = key \<and> executed es p" by blast
  with es(1) show ?thesis by (intro exI [of _ s] exI [of _ es] conjI)
qed

text \<open>C7: in every state that the loop reaches the output file holds exactly the lines of a stream that the
  chain wrote, that begins with \<open>sensor_started\<close> and in which every event about a process comes with
  or after the \<open>process_exec\<close> event of that process.\<close>

theorem collector_attributes:
  assumes "reachable env f os evs s"
  shows "\<exists>source es. written (build_scope f) source (cl_chain s) es (render es) \<and>
    os_files (cl_os s) (fl_output f) = Some (render es) \<and> ev_Operation (hd es) = ''sensor_started'' \<and> attributed es"
proof -
  from reachable_sound [OF assms] obtain source es where "sound f source evs es s" by blast
  then show ?thesis by (auto simp: sound_def tracks_def)
qed

lemma collector_attributes_witness:
  "\<exists>(s :: collector) es. os_files (cl_os s) (fl_output demo_settings) = Some (render es) \<and> attributed es"
proof -
  obtain s where "reachable demo_env demo_settings demo_os [demo_exec, demo_open] s" using demo_reachable by blast
  from collector_attributes [OF this] show ?thesis by blast
qed



section \<open>The whole program\<close>

text \<open>C13: however the collector ends, and whatever call failed: the output path is as it was, or there was
  no file and now there is one that holds a stream the chain wrote, at most its last line cut off.\<close>

theorem sensor_output_prefix:
  assumes "sensor_main env f os = Some (e, os', actions)"
  shows "os_files os' (fl_output f) = os_files os (fl_output f) \<or>
    (os_files os (fl_output f) = None \<and>
     (\<exists>source chain es n. written (build_scope f) source chain es (render es) \<and>
        os_files os' (fl_output f) = Some (take n (render es)) \<and> length (render (butlast es)) \<le> n))"
  using sensor_main_end [OF assms] by (auto simp: cut_off_def)

lemma sensor_output_prefix_witness:
  "\<exists>(os' :: os) source chain es n. written (build_scope demo_settings) source chain es (render es) \<and>
     os_files os' ''e'' = Some (take n (render es)) \<and> length (render (butlast es)) \<le> n"
proof -
  obtain os' actions where m: "sensor_main demo_env demo_settings demo_os = Some (None, os', actions)" using demo_main by blast
  have o: "fl_output demo_settings = ''e''" "os_files demo_os ''e'' = None"
    by (simp_all add: demo_settings_def demo_os_def put_file_def empty_os_def)
  from sensor_main_end [OF m] obtain source where
    "finished demo_env demo_settings source (received opened (en_polls demo_env)) (os_files os') actions" by auto
  then have "os_files os' ''e'' \<noteq> None" using o(1) by (auto simp: finished_def)
  then show ?thesis using sensor_output_prefix [OF m] unfolding o by metis
qed



section \<open>The configuration\<close>

text \<open>The digest of the configuration in the events commits to the configuration: two runs with the
  same digest had, up to invalid UTF-8 in the texts, the same settings and BPF object, or two texts with
  one SHA-256 digest are at hand.\<close>

theorem configuration_commits:
  assumes "digestSensorConfiguration c = digestSensorConfiguration c'"
  shows "clean_configuration c = clean_configuration c' \<or>
    (\<exists>x y. x \<noteq> y \<and> Digest x = Digest y \<and> x = marshal (enc_configuration c) \<and> y = marshal (enc_configuration c'))"
  using assms by (rule same_configuration)

lemma configuration_commits_witness: "clean_configuration (configuration demo_settings ''bpf'') = clean_configuration (configuration demo_settings ''bpf'')"
  using configuration_commits [OF refl, of "configuration demo_settings ''bpf''"] by blast

end
