(* ===== verification/Cli.thy ===== *)
theory Cli
  imports Files
begin

text \<open>
  \<open>cmd/rpf/main.go\<close>: the command line. A command gets the arguments after its name and the file
  system; it ends with an exit status and the JSON value it prints, or with an error, which \<open>fail\<close>
  reports with status 4. Parsing of string flags is that of Go's package \<open>flag\<close>.
\<close>

section \<open>Flags\<close>

datatype flag_error = BadFlagSyntax string | HelpRequested | FlagNotDefined string | FlagNeedsArgument string

text \<open>
  \<open>FlagSet.Parse\<close> for a set of string flags, the names given: the values set and the arguments left.
  A flag is \<open>-name=value\<close>, \<open>--name=value\<close>, or the name and the value as two arguments; \<open>--\<close> ends
  the flags.
\<close>

fun parse_flags :: "string list \<Rightarrow> string gomap \<Rightarrow> string list \<Rightarrow> flag_error + string gomap \<times> string list" where
  "parse_flags formal actual [] = Inr (actual, [])"
| "parse_flags formal actual (s # args) =
     (if length s < 2 \<or> hd s \<noteq> CHR ''-'' then Inr (actual, s # args)
      else if s = ''--'' then Inr (actual, args)
      else
        (let name = (if s ! 1 = CHR ''-'' then drop 2 s else drop 1 s);
             key = takeWhile (\<lambda>c. c \<noteq> CHR ''='') name in
         if name = [] \<or> hd name = CHR ''-'' \<or> hd name = CHR ''='' then Inl (BadFlagSyntax s)
         else if key \<notin> set formal then
           Inl (if key = ''help'' \<or> key = ''h'' then HelpRequested else FlagNotDefined key)
         else if key \<noteq> name then parse_flags formal (map_put key (drop (Suc (length key)) name) actual) args
         else
           (case args of
              [] \<Rightarrow> Inl (FlagNeedsArgument key)
            | v # rest \<Rightarrow> parse_flags formal (map_put key v actual) rest)))"

text \<open>The value of a flag; all have the default value \<open>""\<close>.\<close>

definition flag_value :: "string gomap \<Rightarrow> string \<Rightarrow> string" where
  "flag_value actual name = (case map_get actual name of None \<Rightarrow> [] | Some v \<Rightarrow> v)"

section \<open>Outcomes\<close>

text \<open>\<open>Step\<close>: the error of a call with the words the command puts before it.\<close>

datatype cli_error =
    Usage | UnknownCommand string | BadFlags flag_error | OptionsMissing | Step string gerr | Panic

type_synonym outcome = "(cli_error + nat \<times> json) \<times> os"

definition exit_code :: "cli_error + nat \<times> json \<Rightarrow> nat" where
  "exit_code r = (case r of Inl Panic \<Rightarrow> 2 | Inl _ \<Rightarrow> 4 | Inr (status, _) \<Rightarrow> status)"

definition attempt :: "string \<Rightarrow> 'a result \<times> os \<Rightarrow> ('a \<Rightarrow> os \<Rightarrow> outcome) \<Rightarrow> outcome" where
  "attempt words m f = (case m of (Inl e, s) \<Rightarrow> (Inl (Step words e), s) | (Inr x, s) \<Rightarrow> f x s)"

text \<open>\<open>printJSON\<close>, and the exit that follows it.\<close>

definition printJSON :: "json \<Rightarrow> nat \<Rightarrow> os \<Rightarrow> outcome" where
  "printJSON value status s =
     (if numbers_ok value then (Inr (status, value), s)
      else (Inl (Step ''encode output'' (ParseErr MarshalFailed)), s))"

text \<open>The options of a command: all must have a value.\<close>

definition with_options :: "string list \<Rightarrow> string list \<Rightarrow> os \<Rightarrow> ((string \<Rightarrow> string) \<Rightarrow> outcome) \<Rightarrow> outcome" where
  "with_options names arguments s f =
     (case parse_flags names [] arguments of
        Inl e \<Rightarrow> (Inl (BadFlags e), s)
      | Inr (actual, _) \<Rightarrow>
          if \<exists>name \<in> set names. flag_value actual name = [] then (Inl OptionsMissing, s)
          else f (flag_value actual))"

section \<open>Commands\<close>

definition createLocalProvenance :: "string list \<Rightarrow> os \<Rightarrow> outcome" where
  "createLocalProvenance arguments s =
     with_options [''artifact'', ''events'', ''repository'', ''revision'', ''output''] arguments s (\<lambda>v.
       attempt ''read artifact'' (ReadFile (v ''artifact'') s) (\<lambda>artifact s.
       attempt ''read events'' (ReadFile (v ''events'') s) (\<lambda>raw s.
       attempt ''validate events'' (ParseEventStream raw, s) (\<lambda>events s.
       attempt ''create local provenance''
         (CreateLocalFixtureProvenance (Base (v ''artifact'')) artifact events (v ''repository'') (v ''revision''), s) (\<lambda>statement s.
       attempt ''write local provenance'' (WriteCanonicalExclusive (v ''output'') (enc_statement statement) s) (\<lambda>_ s.
       printJSON (enc_any (AMap (map_lit
         [(''written'', ABool True), (''output'', AString (v ''output'')), (''assurance'', AString ''unsigned-local-fixture'')])))
         0 s))))))"

definition graphEvents :: "(string list \<Rightarrow> string list) \<Rightarrow> string list \<Rightarrow> os \<Rightarrow> outcome" where
  "graphEvents order arguments s =
     with_options [''events'', ''output''] arguments s (\<lambda>v.
       attempt ''read events'' (ReadFile (v ''events'') s) (\<lambda>raw s.
       attempt ''build graph'' (BuildGraphFromStream order raw, s) (\<lambda>graph s.
       attempt ''write graph'' (WriteCanonicalExclusive (v ''output'') (enc_graph graph) s) (\<lambda>_ s.
       printJSON (enc_any (AMap (map_lit
         [(''written'', ABool True), (''output'', AString (v ''output'')),
          (''nodes'', AInt (int (length (elems (eg_Nodes graph))))),
          (''edges'', AInt (int (length (elems (eg_Edges graph)))))]))) 0 s))))"

text \<open>\<open>events[0]\<close> of an empty slice would panic.\<close>

definition validateEvents :: "string list \<Rightarrow> os \<Rightarrow> outcome" where
  "validateEvents arguments s =
     with_options [''events''] arguments s (\<lambda>v.
       attempt ''read events'' (ReadFile (v ''events'') s) (\<lambda>raw s.
       attempt ''validate events'' (ParseEventStream raw, s) (\<lambda>events s.
       case events of
         [] \<Rightarrow> (Inl Panic, s)
       | first # _ \<Rightarrow>
           printJSON (enc_any (AMap (map_lit
             [(''valid'', ABool True), (''event_count'', AInt (int (length events))),
              (''build_id'', AString (bs_BuildID (ev_Build first))),
              (''first_sequence'', AInt (uint (ev_Sequence first))),
              (''last_sequence'', AInt (uint (ev_Sequence (last events))))]))) 0 s)))"

text \<open>\<open>v.(map[string]any)["completeness"]\<close> panics when the value is not a map.\<close>

definition assemble_command ::
  "(string list \<Rightarrow> string list) \<Rightarrow> (string list \<Rightarrow> string list) \<Rightarrow> string list \<Rightarrow> os \<Rightarrow> outcome" where
  "assemble_command order order' arguments s =
     with_options [''artifact'', ''events'', ''provenance'', ''policy'', ''output''] arguments s (\<lambda>v.
       attempt ''read inputs'' (ReadInputs (v ''artifact'') (v ''events'') (v ''provenance'') (v ''policy'') s) (\<lambda>inputs s.
       attempt ''assemble'' (Assemble order inputs, s) (\<lambda>bundle s.
       attempt ''write bundle'' (WriteBundle order' (v ''output'') bundle s) (\<lambda>_ s.
       case map_get (elems (st_Predicate (bd_RuntimeTrace bundle))) CorrelationKey of
         Some (AMap correlation) \<Rightarrow>
           printJSON (enc_any (AMap (map_lit
             [(''assembled'', ABool True), (''output'', AString (v ''output'')),
              (''completeness'', case map_get correlation ''completeness'' of None \<Rightarrow> ANil | Some c \<Rightarrow> c)]))) 0 s
       | _ \<Rightarrow> (Inl Panic, s)))))"

definition decision_status :: "Decision \<Rightarrow> nat" where
  "decision_status decision =
     (if de_Decision decision = ''REVIEW'' then 2 else if de_Decision decision = ''REJECT'' then 3 else 0)"

definition verify_command :: "(string list \<Rightarrow> string list) \<Rightarrow> string list \<Rightarrow> os \<Rightarrow> outcome" where
  "verify_command order arguments s =
     with_options [''artifact'', ''events'', ''provenance'', ''policy'', ''bundle''] arguments s (\<lambda>v.
       attempt ''read inputs'' (ReadInputs (v ''artifact'') (v ''events'') (v ''provenance'') (v ''policy'') s) (\<lambda>inputs s.
       attempt ''load bundle'' (LoadBundle (v ''bundle'') s) (\<lambda>bundle s.
       attempt ''verify'' (Verify order inputs bundle, s) (\<lambda>decision s.
       printJSON (enc_decision decision) (decision_status decision) s))))"

text \<open>\<open>main\<close>, with \<open>os.Args\<close>.\<close>

definition rpf_main ::
  "(string list \<Rightarrow> string list) \<Rightarrow> (string list \<Rightarrow> string list) \<Rightarrow> string list \<Rightarrow> os \<Rightarrow> outcome" where
  "rpf_main order order' args s =
     (if length args < 2 then (Inl Usage, s)
      else
        (let command = args ! 1; arguments = drop 2 args in
         if command = ''assemble'' then assemble_command order order' arguments s
         else if command = ''verify-fixture'' then verify_command order arguments s
         else if command = ''validate-events'' then validateEvents arguments s
         else if command = ''graph-events'' then graphEvents order arguments s
         else if command = ''create-local-provenance'' then createLocalProvenance arguments s
         else (Inl (UnknownCommand command), s)))"
section \<open>Reading flags\<close>

text \<open>The two ways to write a flag with its value.\<close>

fun flag_text :: "bool \<times> string \<times> string \<Rightarrow> string list" where
  "flag_text (True, name, v) = [''--'' @ name @ ''='' @ v]"
| "flag_text (False, name, v) = [''--'' @ name, v]"

definition flag_name :: "string \<Rightarrow> bool" where
  "flag_name name \<longleftrightarrow> name \<noteq> [] \<and> hd name \<noteq> CHR ''-'' \<and> CHR ''='' \<notin> set name"

lemma key_of_flag:
  "CHR ''='' \<notin> set name \<Longrightarrow> takeWhile (\<lambda>c. c \<noteq> CHR ''='') (name @ CHR ''='' # v) = name"
  "CHR ''='' \<notin> set name \<Longrightarrow> takeWhile (\<lambda>c. c \<noteq> CHR ''='') name = name"
  by (induction name) auto

lemma parse_flag_text:
  assumes "flag_name name" "name \<in> set formal"
  shows "parse_flags formal actual (flag_text (joined, name, v) @ args) = parse_flags formal (map_put name v actual) args"
proof -
  have n: "name \<noteq> []" "hd name \<noteq> CHR ''-''" "hd name \<noteq> CHR ''=''" "CHR ''='' \<notin> set name"
    using assms(1) unfolding flag_name_def by (metis hd_in_set)+
  have "hd (name @ s) = hd name" for s using n(1) by simp
  with n assms(2) show ?thesis
    by (cases joined) (simp_all add: Let_def key_of_flag [OF n(4)] del: takeWhile_eq_all_conv)
qed

lemma parse_flags_text:
  assumes "\<forall>(joined, name, v) \<in> set flags. flag_name name \<and> name \<in> set formal"
  shows "parse_flags formal actual (concat (map flag_text flags) @ args) =
    parse_flags formal (fold (\<lambda>(k, v). map_put k v) (map snd flags) actual) args"
  using assms
proof (induction flags arbitrary: actual)
  case (Cons x flags)
  obtain joined name v where x: "x = (joined, name, v)" by (metis prod.exhaust)
  from Cons.prems have "flag_name name" "name \<in> set formal" by (simp_all add: x)
  from parse_flag_text [OF this, of actual joined v "concat (map flag_text flags) @ args"] Cons show ?case
    by (simp add: x)
qed simp

lemma flag_value_lit: "flag_value (map_lit xs) name = (case map_of (rev xs) name of None \<Rightarrow> [] | Some v \<Rightarrow> v)"
  by (simp add: flag_value_def map_get_lit)

section \<open>Exit statuses\<close>

lemma attempt_eq_Inr:
  "fst (attempt words m f) = Inr x \<longleftrightarrow> (\<exists>y s. m = (Inr y, s) \<and> fst (f y s) = Inr x)"
  by (cases m; cases "fst m") (auto simp: attempt_def)

lemma attempt_simps [simp]:
  "attempt words (Inl e, s) f = (Inl (Step words e), s)" "attempt words (Inr x, s) f = f x s"
  by (simp_all add: attempt_def)

lemma printJSON_ok [simp]: "numbers_ok value \<Longrightarrow> printJSON value status s = (Inr (status, value), s)"
  by (simp add: printJSON_def)

lemma with_options_eq_Inr:
  "fst (with_options names arguments s f) = Inr x \<longleftrightarrow>
   (\<exists>actual rest. parse_flags names [] arguments = Inr (actual, rest) \<and>
      (\<forall>name \<in> set names. flag_value actual name \<noteq> []) \<and> fst (f (flag_value actual)) = Inr x)"
  by (auto simp: with_options_def split: sum.splits prod.splits)

lemma decision_numbers [simp]: "numbers_ok (enc_decision d)"
  by (auto simp: enc_decision_def enc_reason_def enc_slice_def split: option.splits)

text \<open>The decision that \<open>verify-fixture\<close> comes to for its arguments.\<close>

definition decided :: "(string list \<Rightarrow> string list) \<Rightarrow> string list \<Rightarrow> os \<Rightarrow> Decision \<Rightarrow> bool" where
  "decided order arguments s d \<longleftrightarrow>
     (\<exists>actual rest inputs s1 bundle s2.
        parse_flags [''artifact'', ''events'', ''provenance'', ''policy'', ''bundle''] [] arguments = Inr (actual, rest) \<and>
        (\<forall>name \<in> {''artifact'', ''events'', ''provenance'', ''policy'', ''bundle''}. flag_value actual name \<noteq> []) \<and>
        ReadInputs (flag_value actual ''artifact'') (flag_value actual ''events'') (flag_value actual ''provenance'')
          (flag_value actual ''policy'') s = (Inr inputs, s1) \<and>
        LoadBundle (flag_value actual ''bundle'') s1 = (Inr bundle, s2) \<and> Verify order inputs bundle = Inr d)"

lemma verify_command_decided:
  "fst (verify_command order arguments s) = Inr x \<longleftrightarrow>
   (\<exists>d. decided order arguments s d \<and> x = (decision_status d, enc_decision d))"
  by (auto simp: verify_command_def with_options_eq_Inr attempt_eq_Inr decided_def)

lemma decided_values: "decided order arguments s d \<Longrightarrow> de_Decision d \<in> {''ALLOW'', ''REVIEW'', ''REJECT''}"
proof -
  assume "decided order arguments s d"
  then obtain inputs b where "Verify order inputs b = Inr d" by (auto simp: decided_def)
  then have "de_Decision d = verdict_name (worst (elems (de_Reasons d)))"
    unfolding Verify_iff by (auto simp: verified_def artifact_mismatch_def reason_verdict_def)
  then show ?thesis by (cases "worst (elems (de_Reasons d))") simp_all
qed

lemma exit_code_Inl: "e \<noteq> Panic \<Longrightarrow> exit_code (Inl e) = 4"
  by (cases e) (simp_all add: exit_code_def)

lemma attempt_no_panic:
  "(\<And>x s'. m = (Inr x, s') \<Longrightarrow> fst (f x s') \<noteq> Inl Panic) \<Longrightarrow> fst (attempt words m f) \<noteq> Inl Panic"
  by (cases m; cases "fst m") (auto simp: attempt_def)

lemma with_options_no_panic:
  "(\<And>v. fst (f v) \<noteq> Inl Panic) \<Longrightarrow> fst (with_options names arguments s f) \<noteq> Inl Panic"
  by (auto simp: with_options_def split: sum.splits)

lemma printJSON_no_panic: "fst (printJSON value status s) \<noteq> Inl Panic"
  by (simp add: printJSON_def)

lemmas no_panic = attempt_no_panic with_options_no_panic printJSON_no_panic

lemma verify_no_panic: "fst (verify_command order arguments s) \<noteq> Inl Panic"
  unfolding verify_command_def by (intro no_panic)

lemma exit_of_verify:
  "exit_code (fst (verify_command order arguments s)) = n \<longleftrightarrow>
   (\<exists>d. decided order arguments s d \<and> n = decision_status d) \<or>
   (\<nexists>d. decided order arguments s d) \<and> n = 4"
proof (cases "fst (verify_command order arguments s)")
  case (Inl e)
  then have "\<nexists>d. decided order arguments s d" using verify_command_decided [of order arguments s] by auto
  moreover have "exit_code (Inl e) = 4" using verify_no_panic [of order arguments s] Inl by (intro exit_code_Inl) auto
  ultimately show ?thesis using Inl by auto
next
  case (Inr x)
  then obtain d where d: "decided order arguments s d" "x = (decision_status d, enc_decision d)"
    using verify_command_decided by blast
  have "d' = d" if "decided order arguments s d'" for d'
  proof -
    from that d(1) show ?thesis unfolding decided_def by (elim exE conjE) simp
  qed
  with d(1) have "(\<exists>d'. decided order arguments s d' \<and> n = decision_status d') \<longleftrightarrow> n = decision_status d" by metis
  moreover have "exit_code (Inr x) = decision_status d" by (simp add: exit_code_def d(2))
  ultimately show ?thesis using d(1) Inr by auto
qed

end
