(* ===== verification/Cli_Run.thy ===== *)
theory Cli_Run
  imports Cli
begin

text \<open>
  The commands one after the other: what \<open>assemble\<close> writes, \<open>verify-fixture\<close> decides as \<open>Verify\<close> does
  on the bundle that was assembled.
\<close>

text \<open>The options of a command, each in one of the two forms.\<close>

definition option_args :: "(string \<Rightarrow> bool) \<Rightarrow> (string \<times> string) list \<Rightarrow> string list" where
  "option_args form values = concat (map flag_text (map (\<lambda>(name, v). (form name, name, v)) values))"

lemma parse_option_args:
  assumes "\<forall>(name, v) \<in> set values. flag_name name \<and> name \<in> set formal"
  shows "parse_flags formal [] (option_args form values) = Inr (map_lit values, [])"
proof -
  let ?flags = "map (\<lambda>(name, v). (form name, name, v)) values"
  have "parse_flags formal [] (concat (map flag_text ?flags) @ []) =
    parse_flags formal (fold (\<lambda>(k, v). map_put k v) (map snd ?flags) []) []"
    by (rule parse_flags_text) (use assms in auto)
  moreover have "map snd ?flags = values" by (induction "values") auto
  ultimately show ?thesis by (simp only: option_args_def map_lit_def append_Nil2) simp
qed

lemma with_option_args:
  assumes "\<forall>(name, v) \<in> set values. flag_name name \<and> v \<noteq> []" "distinct (map fst values)"
  shows "with_options (map fst values) (option_args form values) s f = f (flag_value (map_lit values))"
proof -
  have "parse_flags (map fst values) [] (option_args form values) = Inr (map_lit values, [])"
    by (rule parse_option_args) (use assms in force)
  moreover have "flag_value (map_lit values) name \<noteq> []" if "name \<in> set (map fst values)" for name
  proof -
    from that obtain v where v: "(name, v) \<in> set values" by auto
    then have "map_of (rev values) name = Some v" using assms(2) by (simp add: rev_map [symmetric])
    with v assms(1) show ?thesis by (auto simp: flag_value_lit)
  qed
  ultimately show ?thesis by (auto simp: with_options_def)
qed

text \<open>The files a run of \<open>assemble\<close> or \<open>verify-fixture\<close> is about.\<close>

record job =
  jb_artifact :: string
  jb_events :: string
  jb_provenance :: string
  jb_policy :: string
  jb_bundle :: string

definition job_values :: "job \<Rightarrow> string \<Rightarrow> (string \<times> string) list" where
  "job_values j directory =
     [(''artifact'', jb_artifact j), (''events'', jb_events j), (''provenance'', jb_provenance j),
      (''policy'', jb_policy j), (directory, jb_bundle j)]"

definition job_files :: "job \<Rightarrow> string set" where
  "job_files j = {jb_artifact j, jb_events j, jb_provenance j, jb_policy j}"

definition job_ok :: "job \<Rightarrow> bool" where
  "job_ok j \<longleftrightarrow> jb_bundle j \<noteq> [] \<and> [] \<notin> job_files j \<and> job_files j \<inter> bundle_paths (jb_bundle j) = {}"

lemma ReadInputs_same:
  assumes "quiet s" "quiet t" "ReadInputs a e p q s = (Inr inputs, s')" "\<forall>x \<in> {a, e, p, q}. os_files t x = os_files s x"
  shows "s' = s \<and> ReadInputs a e p q t = (Inr inputs, t)"
proof -
  have r: "ReadFile x u = (case os_files u x of None \<Rightarrow> (Inl io_error, u) | Some d \<Rightarrow> (Inr d, u))" if "quiet u" for x u
    using that by (simp add: ReadFile_def split: option.splits)
  show ?thesis
    using assms(3,4) by (auto simp: ReadInputs_def r [OF assms(1)] r [OF assms(2)] split: option.splits)
qed

lemma assemble_run:
  assumes order: "permutes order" "permutes order'" and j: "job_ok j" and q: "quiet s"
    and inputs: "ReadInputs (jb_artifact j) (jb_events j) (jb_provenance j) (jb_policy j) s = (Inr inputs, s0)"
    and b: "Assemble order inputs = Inr b"
  shows "\<exists>s' out. assemble_command order order' (option_args form (job_values j ''output'')) s = (Inr (0, out), s') \<and>
    WriteBundle order' (jb_bundle j) b s = (Inr (), s') \<and> quiet s'"
proof -
  obtain a where a: "assembles order inputs a b" using b Assemble_iff by blast
  from WriteBundle_quiet [OF order(1) a q] obtain s' where
    w: "WriteBundle order' (jb_bundle j) b s = (Inr (), s')" "quiet s'" by blast
  have s0: "s0 = s" using ReadInputs_same [OF q q inputs] by simp
  obtain m where m: "toMap (enc_correlation (as_correlation inputs a)) = Inr m"
    and trace: "bd_RuntimeTrace b = assemble_trace inputs (as_events a) (as_identity a) (as_graph a) m"
    using a by (auto simp: assembles_def)
  from toMap_correlation [OF m] obtain ms where ms: "normal (JObj ms)" "m = Some (map_vals any_of ms)" by blast
  have key: "map_get (elems (st_Predicate (bd_RuntimeTrace b))) CorrelationKey = Some (AMap (map_vals any_of ms))"
    by (simp add: trace assemble_trace_def ms(2) map_get_lit CorrelationKey_def)
  have comp: "numbers_ok (enc_any (case map_get (map_vals any_of ms) ''completeness'' of None \<Rightarrow> ANil | Some c \<Rightarrow> c))"
  proof (cases "map_get ms ''completeness''")
    case (Some c)
    then have "(''completeness'', c) \<in> set ms" by (simp add: map_get_def map_of_SomeD)
    then have "numbers_ok c" using ms(1) by (auto simp: normal_def)
    then show ?thesis using Some by (simp add: map_get_vals enc_any_any_of numbers_ok_sort_keys)
  qed (simp add: map_get_vals)
  have out: "numbers_ok (enc_any (AMap (map_lit [(''assembled'', ABool True), (''output'', AString (jb_bundle j)),
    (''completeness'', case map_get (map_vals any_of ms) ''completeness'' of None \<Rightarrow> ANil | Some c \<Rightarrow> c)])))"
    by (rule numbers_map_lit) (simp add: comp)
  have v: "\<forall>(name, v) \<in> set (job_values j ''output''). flag_name name \<and> v \<noteq> []" "distinct (map fst (job_values j ''output''))"
    using j by (auto simp: job_values_def flag_name_def job_ok_def job_files_def)
  have names: "map fst (job_values j ''output'') = [''artifact'', ''events'', ''provenance'', ''policy'', ''output'']"
    by (simp add: job_values_def)
  have vals: "flag_value (map_lit (job_values j ''output'')) ''artifact'' = jb_artifact j"
    "flag_value (map_lit (job_values j ''output'')) ''events'' = jb_events j"
    "flag_value (map_lit (job_values j ''output'')) ''provenance'' = jb_provenance j"
    "flag_value (map_lit (job_values j ''output'')) ''policy'' = jb_policy j"
    "flag_value (map_lit (job_values j ''output'')) ''output'' = jb_bundle j"
    by (simp_all add: flag_value_lit job_values_def)
  have "assemble_command order order' (option_args form (job_values j ''output'')) s =
    printJSON (enc_any (AMap (map_lit [(''assembled'', ABool True), (''output'', AString (jb_bundle j)),
      (''completeness'', case map_get (map_vals any_of ms) ''completeness'' of None \<Rightarrow> ANil | Some c \<Rightarrow> c)]))) 0 s'"
    unfolding assemble_command_def with_option_args [OF v, unfolded names] vals
    by (simp add: inputs s0 b w(1) key del: enc_any.simps)
  then show ?thesis using w out by (simp del: enc_any.simps)
qed

lemma verify_run:
  assumes j: "job_ok j" and inputs: "ReadInputs (jb_artifact j) (jb_events j) (jb_provenance j) (jb_policy j) s = (Inr inputs, s1)"
    and l: "LoadBundle (jb_bundle j) s1 = (Inr b, s2)" and v: "Verify order inputs b = Inr d"
  shows "verify_command order (option_args form (job_values j ''bundle'')) s = (Inr (decision_status d, enc_decision d), s2)"
proof -
  have opts: "\<forall>(name, v) \<in> set (job_values j ''bundle''). flag_name name \<and> v \<noteq> []" "distinct (map fst (job_values j ''bundle''))"
    using j by (auto simp: job_values_def flag_name_def job_ok_def job_files_def)
  have names: "map fst (job_values j ''bundle'') = [''artifact'', ''events'', ''provenance'', ''policy'', ''bundle'']"
    by (simp add: job_values_def)
  have vals: "flag_value (map_lit (job_values j ''bundle'')) ''artifact'' = jb_artifact j"
    "flag_value (map_lit (job_values j ''bundle'')) ''events'' = jb_events j"
    "flag_value (map_lit (job_values j ''bundle'')) ''provenance'' = jb_provenance j"
    "flag_value (map_lit (job_values j ''bundle'')) ''policy'' = jb_policy j"
    "flag_value (map_lit (job_values j ''bundle'')) ''bundle'' = jb_bundle j"
    by (simp_all add: flag_value_lit job_values_def)
  show ?thesis
    unfolding verify_command_def with_option_args [OF opts, unfolded names] vals by (simp add: inputs l v)
qed

lemma assemble_then_verify_run:
  assumes order: "permutes order" "permutes order'" and j: "job_ok j" and q: "quiet s"
    and inputs: "ReadInputs (jb_artifact j) (jb_events j) (jb_provenance j) (jb_policy j) s = (Inr inputs, s0)"
    and b: "Assemble order inputs = Inr b" "loadable (enc_graph (bd_Graph b))" "loadable (enc_manifest (bd_Manifest b))"
      "loadable (enc_statement (bd_RuntimeTrace b))"
  shows "\<exists>s' out d. assemble_command order order' (option_args form (job_values j ''output'')) s = (Inr (0, out), s') \<and>
    verify_command order (option_args form' (job_values j ''bundle'')) s' = (Inr (decision_status d, enc_decision d), s') \<and>
    Verify order inputs b = Inr d"
proof -
  from assemble_run [OF order j q inputs b(1)] obtain s' out where
    run: "assemble_command order order' (option_args form (job_values j ''output'')) s = (Inr (0, out), s')"
      "WriteBundle order' (jb_bundle j) b s = (Inr (), s')" "quiet s'" by blast
  have "os_files s' x = os_files s x" if "x \<in> job_files j" for x
    using WriteBundle_other [OF order(2) run(2)] that j by (auto simp: job_ok_def)
  then have read: "ReadInputs (jb_artifact j) (jb_events j) (jb_provenance j) (jb_policy j) s' = (Inr inputs, s')"
    using ReadInputs_same [OF q run(3) inputs] by (simp add: job_files_def)
  from stored_bundle_verifies [OF order b run(2,3) refl] obtain b' where
    b': "LoadBundle (jb_bundle j) s' = (Inr b', s')" "Verify order inputs b' = Verify order inputs b" by blast
  obtain a where a: "assembles order inputs a b" using b(1) Assemble_iff by blast
  from assembles_verifies [OF order(1,1) a] obtain d where d: "Verify order inputs b = Inr d" by blast
  from verify_run [OF j read b'(1)] d b'(2) run(1) show ?thesis by auto
qed

end
