(* ===== verification/Lab_Net.thy ===== *)
theory Lab_Net
  imports Cli
begin

text \<open>
  The network commands of the lab: \<open>rpf-authz-target\<close> and \<open>rpf-authz-proof\<close> (an authorization fixture
  and the client that shows its flaw), \<open>rpf-mock-server\<close> and \<open>rpf-local-connect\<close>. All of them refuse
  an address that is not a numeric loopback address. What the network answers is a parameter; so is
  the reading of IPv6 text (\<open>v6\<close>: whether it parses, and then whether it is loopback).
\<close>

datatype lab_error =
    Refusal string | CallFailed string | FlagsFailed string | DecodeFailed | UnexpectedMarker | UnexpectedAnswer

section \<open>netip.ParseAddrPort\<close>

datatype addr = IPv4 "nat list" | IPv6 bool

fun pieces :: "char \<Rightarrow> string \<Rightarrow> string list" where
  "pieces d [] = [[]]"
| "pieces d (c # s) =
     (if c = d then [] # pieces d s
      else (case pieces d s of [] \<Rightarrow> [[c]] | t # ts \<Rightarrow> (c # t) # ts))"

text \<open>A field of an IPv4 address: digits, no leading zero, at most 255.\<close>

definition parse_octet :: "string \<Rightarrow> nat option" where
  "parse_octet t =
     (if t \<noteq> [] \<and> list_all is_digit t \<and> (length t = 1 \<or> hd t \<noteq> CHR ''0'') \<and> digits_val t \<le> 255
      then Some (digits_val t) else None)"

definition parse_ipv4 :: "string \<Rightarrow> addr option" where
  "parse_ipv4 s =
     (let octets = map parse_octet (pieces (CHR ''.'') s) in
      if length octets = 4 \<and> None \<notin> set octets then Some (IPv4 (map the octets)) else None)"

text \<open>\<open>ParseAddr\<close> goes by the first of \<open>.\<close>, \<open>:\<close> and \<open>%\<close>.\<close>

definition ParseAddr :: "(string \<Rightarrow> bool option) \<Rightarrow> string \<Rightarrow> addr option" where
  "ParseAddr v6 s =
     (case dropWhile (\<lambda>c. c \<notin> set ''.:%'') s of
        [] \<Rightarrow> None
      | c # _ \<Rightarrow>
          if c = CHR ''.'' then parse_ipv4 s
          else if c = CHR '':'' then map_option IPv6 (v6 s)
          else None)"

definition parse_port :: "string \<Rightarrow> nat option" where
  "parse_port s = (if s \<noteq> [] \<and> list_all is_digit s \<and> digits_val s < 2 ^ 16 then Some (digits_val s) else None)"

text \<open>The text before and after the last colon.\<close>

definition split_port :: "string \<Rightarrow> (string \<times> string) option" where
  "split_port s =
     (if CHR '':'' \<notin> set s then None
      else
        (let port = rev (takeWhile (\<lambda>c. c \<noteq> CHR '':'') (rev s)) in
         Some (take (length s - length port - 1) s, port)))"

definition ParseAddrPort :: "(string \<Rightarrow> bool option) \<Rightarrow> string \<Rightarrow> (addr \<times> nat) option" where
  "ParseAddrPort v6 s =
     (case split_port s of
        None \<Rightarrow> None
      | Some (ip, port) \<Rightarrow>
          if ip = [] \<or> port = [] then None
          else
            (let bracketed = (hd ip = CHR ''['') in
             if bracketed \<and> (length ip < 2 \<or> last ip \<noteq> CHR '']'') then None
             else
               (case (parse_port port, ParseAddr v6 (if bracketed then butlast (tl ip) else ip)) of
                  (Some p, Some (IPv4 octets)) \<Rightarrow> if bracketed then None else Some (IPv4 octets, p)
                | (Some p, Some (IPv6 l)) \<Rightarrow> if bracketed then Some (IPv6 l, p) else None
                | _ \<Rightarrow> None)))"

definition IsLoopback :: "addr \<Rightarrow> bool" where
  "IsLoopback a = (case a of IPv4 octets \<Rightarrow> octets \<noteq> [] \<and> hd octets = 127 | IPv6 l \<Rightarrow> l)"

definition loopback_endpoint :: "(string \<Rightarrow> bool option) \<Rightarrow> string \<Rightarrow> bool" where
  "loopback_endpoint v6 address =
     (case ParseAddrPort v6 address of None \<Rightarrow> False | Some (a, _) \<Rightarrow> IsLoopback a)"

section \<open>The authorization fixture\<close>

definition targetIdentity :: string where "targetIdentity = ''rpf-authz-fixture-v1''"

record request =
  rq_TargetIdentity :: string
  rq_SessionRole :: string
  rq_AdapterRole :: string

record response =
  rs_Granted :: bool
  rs_Marker :: string
  rs_Reason :: string

definition zero_request :: request where
  "zero_request = \<lparr>rq_TargetIdentity = [], rq_SessionRole = [], rq_AdapterRole = []\<rparr>"

definition zero_response :: response where
  "zero_response = \<lparr>rs_Granted = False, rs_Marker = [], rs_Reason = []\<rparr>"

definition enc_request :: "request \<Rightarrow> json" where
  "enc_request r = JObj
     [(''target_identity'', JStr (rq_TargetIdentity r)), (''session_role'', JStr (rq_SessionRole r)),
      (''adapter_role'', JStr (rq_AdapterRole r))]"

definition dec_request :: "request decode" where
  "dec_request = dec_struct
     [(''target_identity'', field rq_TargetIdentity rq_TargetIdentity_update dec_string),
      (''session_role'', field rq_SessionRole rq_SessionRole_update dec_string),
      (''adapter_role'', field rq_AdapterRole rq_AdapterRole_update dec_string)]"

text \<open>The target leaves out an empty marker.\<close>

definition enc_response :: "response \<Rightarrow> json" where
  "enc_response r = JObj
     ([(''granted'', JBool (rs_Granted r))] @
      (if rs_Marker r = [] then [] else [(''marker'', JStr (rs_Marker r))]) @
      [(''reason'', JStr (rs_Reason r))])"

definition dec_response :: "response decode" where
  "dec_response = dec_struct
     [(''granted'', field rs_Granted rs_Granted_update dec_bool),
      (''marker'', field rs_Marker rs_Marker_update dec_string),
      (''reason'', field rs_Reason rs_Reason_update dec_string)]"

definition authorize :: "string \<Rightarrow> request \<Rightarrow> response" where
  "authorize mode input =
     (if rq_TargetIdentity input \<noteq> targetIdentity then zero_response\<lparr>rs_Reason := ''target_identity_mismatch''\<rparr>
      else
        (let role = (if mode = ''intentionally-vulnerable'' then rq_AdapterRole input else rq_SessionRole input) in
         if role \<noteq> ''builder-admin'' then zero_response\<lparr>rs_Reason := ''authorization_denied''\<rparr>
         else \<lparr>rs_Granted = True, rs_Marker = ''RPF_SYNTHETIC_ADMIN_MARKER'', rs_Reason = ''authorized''\<rparr>))"

text \<open>\<open>json.NewEncoder(w).Encode\<close>, and \<open>json.NewDecoder(r).Decode\<close> without unknown fields.\<close>

definition Encode :: "json \<Rightarrow> bytes option" where
  "Encode value = map_option (\<lambda>text. text @ [line_feed]) (json_marshal value)"

definition Decode_value :: "'a decode \<Rightarrow> 'a \<Rightarrow> bytes \<Rightarrow> 'a option" where
  "Decode_value dec zero raw = (case parse_json raw of None \<Rightarrow> None | Some (j, _) \<Rightarrow> dec j zero)"

text \<open>
  What the network does for a server: whether listening, the deadline and the reply succeed, and what
  the connection delivers, when there is one.
\<close>

record server_net =
  sv_listen :: bool
  sv_deadline :: bool
  sv_received :: "bytes option"
  sv_read_deadline :: bool
  sv_reply :: bool

text \<open>The part that both servers share: from the listener to the accepted connection.\<close>

definition accept_one :: "string \<Rightarrow> server_net \<Rightarrow> os \<Rightarrow> (lab_error + bytes) \<times> os" where
  "accept_one readyPath net s =
     (if \<not> sv_listen net then (Inl (CallFailed ''listen''), s)
      else
        (case OpenExclusive readyPath s of
           (Inl _, s) \<Rightarrow> (Inl (CallFailed ''ready''), s)
         | (Inr _, s) \<Rightarrow>
             (case plain_call s of
                (Inl _, s) \<Rightarrow> (Inl (CallFailed ''close''), s)
              | (Inr _, s) \<Rightarrow>
                  if \<not> sv_deadline net then (Inl (CallFailed ''deadline''), s)
                  else (case sv_received net of
                          None \<Rightarrow> (Inl (CallFailed ''accept''), s)
                        | Some raw \<Rightarrow> (Inr raw, s)))))"

text \<open>\<open>serve\<close> of the target: with the bytes it sends.\<close>

definition serve_target ::
  "(string \<Rightarrow> bool option) \<Rightarrow> string \<Rightarrow> string \<Rightarrow> string \<Rightarrow> server_net \<Rightarrow> os \<Rightarrow> (lab_error + bytes) \<times> os" where
  "serve_target v6 address mode readyPath net s =
     (if \<not> loopback_endpoint v6 address \<or> readyPath = [] then (Inl (Refusal ''address''), s)
      else if mode \<noteq> ''intentionally-vulnerable'' \<and> mode \<noteq> ''patched'' then (Inl (Refusal ''mode''), s)
      else
        (case accept_one readyPath net s of
           (Inl e, s) \<Rightarrow> (Inl e, s)
         | (Inr raw, s) \<Rightarrow>
             (case Decode_value dec_request zero_request raw of
                None \<Rightarrow> (Inl DecodeFailed, s)
              | Some input \<Rightarrow>
                  (case Encode (enc_response (authorize mode input)) of
                     None \<Rightarrow> (Inl (CallFailed ''encode''), s)
                   | Some reply \<Rightarrow> if sv_reply net then (Inr reply, s) else (Inl (CallFailed ''reply''), s)))))"

text \<open>The client: what it sends, and how it ends given the reply (\<open>None\<close>: it cannot be read).\<close>

definition proof_request :: request where
  "proof_request = \<lparr>rq_TargetIdentity = ''rpf-authz-fixture-v1'', rq_SessionRole = ''builder-reader'',
     rq_AdapterRole = ''builder-admin''\<rparr>"

definition prove ::
  "(string \<Rightarrow> bool option) \<Rightarrow> string \<Rightarrow> string \<Rightarrow> bool \<Rightarrow> (bytes \<Rightarrow> bytes option) \<Rightarrow> lab_error + response" where
  "prove v6 address expect dial peer =
     (if \<not> loopback_endpoint v6 address \<or> (expect \<noteq> ''grant'' \<and> expect \<noteq> ''deny'') then Inl (Refusal ''target'')
      else if \<not> dial then Inl (CallFailed ''dial'')
      else
        (case Encode (enc_request proof_request) of
           None \<Rightarrow> Inl (CallFailed ''encode'')
         | Some sent \<Rightarrow>
             (case peer sent of
                None \<Rightarrow> Inl (CallFailed ''read'')
              | Some reply \<Rightarrow>
                  (case Decode_value dec_response zero_response reply of
                     None \<Rightarrow> Inl DecodeFailed
                   | Some output \<Rightarrow>
                       if expect = ''grant'' \<and> (\<not> rs_Granted output \<or> rs_Marker output \<noteq> ''RPF_SYNTHETIC_ADMIN_MARKER'') then
                         Inl UnexpectedAnswer
                       else if expect = ''deny'' \<and> (rs_Granted output \<or> rs_Marker output \<noteq> []) then
                         Inl UnexpectedAnswer
                       else Inr output))))"

section \<open>The marker byte\<close>

definition local_connect :: "(string \<Rightarrow> bool option) \<Rightarrow> string \<Rightarrow> bool \<Rightarrow> bool \<Rightarrow> lab_error + bytes" where
  "local_connect v6 address dial writes =
     (if \<not> loopback_endpoint v6 address then Inl (Refusal ''target'')
      else if \<not> dial then Inl (CallFailed ''dial'')
      else if \<not> writes then Inl (CallFailed ''write'')
      else Inr [CHR 0x52])"

definition mock_serve ::
  "(string \<Rightarrow> bool option) \<Rightarrow> string \<Rightarrow> string \<Rightarrow> server_net \<Rightarrow> os \<Rightarrow> (lab_error + unit) \<times> os" where
  "mock_serve v6 address readyPath net s =
     (if \<not> loopback_endpoint v6 address \<or> readyPath = [] then (Inl (Refusal ''address''), s)
      else
        (case accept_one readyPath net s of
           (Inl e, s) \<Rightarrow> (Inl e, s)
         | (Inr raw, s) \<Rightarrow>
             if \<not> sv_read_deadline net then (Inl (CallFailed ''read deadline''), s)
             else
               (case raw of
                  [] \<Rightarrow> (Inl (CallFailed ''read''), s)
                | marker # _ \<Rightarrow> if marker \<noteq> CHR 0x52 then (Inl UnexpectedMarker, s) else (Inr (), s))))"

section \<open>The commands\<close>

text \<open>
  \<open>flag.Parse\<close> with default values: a bad flag ends the process with status 2, a request for help
  with status 0. A command that returns an error ends with status 1.
\<close>

definition flag_parse :: "(string \<times> string) list \<Rightarrow> string list \<Rightarrow> nat + (string \<Rightarrow> string)" where
  "flag_parse defaults args =
     (case parse_flags (map fst defaults) (map_lit defaults) args of
        Inl HelpRequested \<Rightarrow> Inl 0
      | Inl _ \<Rightarrow> Inl 2
      | Inr (actual, _) \<Rightarrow> Inr (flag_value actual))"

definition lab_status :: "lab_error + 'a \<Rightarrow> nat" where
  "lab_status r = (case r of Inl _ \<Rightarrow> 1 | Inr _ \<Rightarrow> 0)"

definition target_main :: "(string \<Rightarrow> bool option) \<Rightarrow> string list \<Rightarrow> server_net \<Rightarrow> os \<Rightarrow> nat \<times> os" where
  "target_main v6 args net s =
     (case flag_parse [(''listen'', ''127.0.0.1:18081''), (''mode'', []), (''ready-file'', [])] args of
        Inl status \<Rightarrow> (status, s)
      | Inr v \<Rightarrow>
          (case serve_target v6 (v ''listen'') (v ''mode'') (v ''ready-file'') net s of (r, s) \<Rightarrow> (lab_status r, s)))"

definition proof_main :: "(string \<Rightarrow> bool option) \<Rightarrow> string list \<Rightarrow> bool \<Rightarrow> (bytes \<Rightarrow> bytes option) \<Rightarrow> nat" where
  "proof_main v6 args dial peer =
     (case flag_parse [(''address'', ''127.0.0.1:18081''), (''expect'', [])] args of
        Inl status \<Rightarrow> status
      | Inr v \<Rightarrow> lab_status (prove v6 (v ''address'') (v ''expect'') dial peer))"

definition connect_main :: "(string \<Rightarrow> bool option) \<Rightarrow> string list \<Rightarrow> bool \<Rightarrow> bool \<Rightarrow> nat" where
  "connect_main v6 args dial writes =
     (case flag_parse [(''address'', ''127.0.0.1:18080'')] args of
        Inl status \<Rightarrow> status
      | Inr v \<Rightarrow> lab_status (local_connect v6 (v ''address'') dial writes))"

definition mock_main :: "(string \<Rightarrow> bool option) \<Rightarrow> string list \<Rightarrow> server_net \<Rightarrow> os \<Rightarrow> nat \<times> os" where
  "mock_main v6 args net s =
     (case flag_parse [(''listen'', ''127.0.0.1:18080''), (''ready-file'', [])] args of
        Inl status \<Rightarrow> (status, s)
      | Inr v \<Rightarrow> (case mock_serve v6 (v ''listen'') (v ''ready-file'') net s of (r, s) \<Rightarrow> (lab_status r, s)))"

section \<open>The exchange\<close>

lemma Encode_Decode:
  assumes "numbers_ok j"
  shows "Encode j = Some (marshal j @ [line_feed])" "Decode_value dec zero (marshal j @ [line_feed]) = dec (clean j) zero"
  using assms parse_marshal [OF assms, of "[line_feed]"]
  by (simp_all add: Encode_def Decode_value_def json_marshal_def line_feed_def)

lemma request_round_trip:
  "Encode (enc_request r) = Some (marshal (enc_request r) @ [line_feed])"
  "Decode_value dec_request zero_request (marshal (enc_request r) @ [line_feed]) =
     Some \<lparr>rq_TargetIdentity = sanitize (rq_TargetIdentity r), rq_SessionRole = sanitize (rq_SessionRole r),
       rq_AdapterRole = sanitize (rq_AdapterRole r)\<rparr>"
  by (subst Encode_Decode; simp add: enc_request_def dec_request_def decode_simps zero_request_def sanitize_ascii)+

lemma response_round_trip:
  "Encode (enc_response r) = Some (marshal (enc_response r) @ [line_feed])"
  "Decode_value dec_response zero_response (marshal (enc_response r) @ [line_feed]) =
     Some \<lparr>rs_Granted = rs_Granted r, rs_Marker = sanitize (rs_Marker r), rs_Reason = sanitize (rs_Reason r)\<rparr>"
  by (subst Encode_Decode; simp add: enc_response_def dec_response_def decode_simps zero_response_def sanitize_ascii)+

text \<open>What the fixture grants.\<close>

lemma authorize_grants:
  "rs_Granted (authorize mode r) \<longleftrightarrow> rq_TargetIdentity r = targetIdentity \<and>
     (if mode = ''intentionally-vulnerable'' then rq_AdapterRole r else rq_SessionRole r) = ''builder-admin''"
  "rs_Marker (authorize mode r) = (if rs_Granted (authorize mode r) then ''RPF_SYNTHETIC_ADMIN_MARKER'' else [])"
  by (simp_all add: authorize_def Let_def zero_response_def)
definition lab_net_ok :: "server_net \<Rightarrow> bool" where
  "lab_net_ok net \<longleftrightarrow> sv_listen net \<and> sv_deadline net \<and> sv_read_deadline net \<and> sv_reply net"

lemma accept_one_ok:
  assumes "lab_net_ok net" "quiet s" "os_files s ready = None" "sv_received net = Some raw"
  shows "accept_one ready net s = (Inr raw, put_file ready [] s)"
  using assms by (simp add: accept_one_def lab_net_ok_def OpenExclusive_def plain_call_def)

text \<open>The reply of the target to a request, as the network passes it on.\<close>

definition reply_to ::
  "(string \<Rightarrow> bool option) \<Rightarrow> string \<Rightarrow> string \<Rightarrow> string \<Rightarrow> server_net \<Rightarrow> os \<Rightarrow> bytes \<Rightarrow> bytes option" where
  "reply_to v6 address mode ready net s sent =
     (case fst (serve_target v6 address mode ready (net\<lparr>sv_received := Some sent\<rparr>) s) of
        Inl _ \<Rightarrow> None | Inr reply \<Rightarrow> Some reply)"

lemma proof_request_read:
  "Decode_value dec_request zero_request (marshal (enc_request proof_request) @ [line_feed]) = Some proof_request"
  unfolding request_round_trip(2) by (simp add: proof_request_def sanitize_ascii)

lemma response_clean: "\<lparr>rs_Granted = rs_Granted (authorize mode r), rs_Marker = sanitize (rs_Marker (authorize mode r)),
    rs_Reason = sanitize (rs_Reason (authorize mode r))\<rparr> = authorize mode r"
  by (simp add: authorize_def Let_def zero_response_def sanitize_ascii)

lemma reply_to_proof:
  assumes "loopback_endpoint v6 address" "ready \<noteq> []" "mode \<in> {''intentionally-vulnerable'', ''patched''}"
    "lab_net_ok net" "quiet s" "os_files s ready = None"
  shows "reply_to v6 address mode ready net s (marshal (enc_request proof_request) @ [line_feed]) =
    Some (marshal (enc_response (authorize mode proof_request)) @ [line_feed])"
proof -
  let ?sent = "marshal (enc_request proof_request) @ [line_feed]"
  have n: "lab_net_ok (net\<lparr>sv_received := Some ?sent\<rparr>)" using assms(4) by (simp add: lab_net_ok_def)
  from accept_one_ok [OF n assms(5,6), of ?sent]
  have "accept_one ready (net\<lparr>sv_received := Some ?sent\<rparr>) s = (Inr ?sent, put_file ready [] s)" by simp
  then show ?thesis
    using assms by (auto simp: reply_to_def serve_target_def proof_request_read response_round_trip(1) lab_net_ok_def)
qed

lemma proof_outcome:
  assumes "loopback_endpoint v6 address" "ready \<noteq> []" "mode \<in> {''intentionally-vulnerable'', ''patched''}"
    "lab_net_ok net" "quiet s" "os_files s ready = None" "expect \<in> {''grant'', ''deny''}"
  shows "(\<exists>output. prove v6 address expect True (reply_to v6 address mode ready net s) = Inr output) \<longleftrightarrow>
    (expect = ''grant'' \<longleftrightarrow> mode = ''intentionally-vulnerable'')"
proof -
  have p: "prove v6 address expect True (reply_to v6 address mode ready net s) =
    (let output = authorize mode proof_request in
     if expect = ''grant'' \<and> (\<not> rs_Granted output \<or> rs_Marker output \<noteq> ''RPF_SYNTHETIC_ADMIN_MARKER'') then Inl UnexpectedAnswer
     else if expect = ''deny'' \<and> (rs_Granted output \<or> rs_Marker output \<noteq> []) then Inl UnexpectedAnswer
     else Inr output)"
    using assms(1,7) reply_to_proof [OF assms(1-6)]
    by (auto simp: prove_def request_round_trip(1) response_round_trip(2) response_clean Let_def)
  show ?thesis
    unfolding p using assms(3,7)
    by (auto simp: authorize_def Let_def proof_request_def targetIdentity_def zero_response_def)
qed

section \<open>Only loopback\<close>

lemma digit_char_val: "is_digit c \<Longrightarrow> digit_char (digit_val c) = c"
proof -
  assume d: "is_digit c"
  then have "48 + digit_val c mod 10 = (of_char c :: nat)" by (auto simp: is_digit_of_char digit_val_def)
  then show ?thesis by (simp add: digit_char_def)
qed

lemma digit_val_less: "is_digit c \<Longrightarrow> digit_val c < 10"
  by (auto simp: is_digit_of_char digit_val_def)

text \<open>A number without leading zero is the decimal text of its value.\<close>

lemma digits_val_pos: "list_all is_digit t \<Longrightarrow> t \<noteq> [] \<Longrightarrow> hd t \<noteq> CHR ''0'' \<Longrightarrow> 0 < digits_val t"
proof (induction t rule: rev_induct)
  case (snoc c t)
  show ?case
  proof (cases "t = []")
    case True
    have "(of_char c :: nat) \<noteq> of_char CHR ''0''" using snoc.prems(3) True by (simp del: of_char_Char)
    then have "(of_char c :: nat) \<noteq> 48" by simp
    with snoc.prems(1) have "48 < (of_char c :: nat)" by (auto simp: is_digit_of_char)
    with True show ?thesis by (simp add: digits_val_def digit_val_def)
  next
    case False
    with snoc show ?thesis by (simp add: digits_val_snoc)
  qed
qed simp

lemma dec_nat_digits_val: "list_all is_digit t \<Longrightarrow> t \<noteq> [] \<Longrightarrow> length t = 1 \<or> hd t \<noteq> CHR ''0'' \<Longrightarrow> dec_nat (digits_val t) = t"
proof (induction t rule: rev_induct)
  case (snoc c t)
  have c: "digit_val c < 10" "digit_char (digit_val c) = c" using snoc.prems(1) digit_val_less digit_char_val by auto
  show ?case
  proof (cases "t = []")
    case True
    with c show ?thesis by (subst dec_nat.simps) (simp add: digits_val_def)
  next
    case False
    then have hd: "hd t \<noteq> CHR ''0''" using snoc.prems by simp
    with False snoc have IH: "dec_nat (digits_val t) = t" "0 < digits_val t"
      using digits_val_pos [of t] by simp_all
    have "digit_char (10 * digits_val t + digit_val c) = c" using c by (simp add: digit_char_def)
    then show ?thesis using IH c(1) by (subst dec_nat.simps) (simp add: digits_val_snoc)
  qed
qed simp

lemma parse_octet_Some: "parse_octet t = Some n \<Longrightarrow> t = dec_nat n \<and> n \<le> 255"
  using dec_nat_digits_val [of t] by (auto simp: parse_octet_def split: if_splits)

lemma pieces_nonempty [simp]: "pieces d s \<noteq> []"
  by (cases s) (auto split: list.split)

lemma pieces_hd: "pieces d s = t # u # ts \<Longrightarrow> \<exists>rest. s = t @ d # rest \<and> pieces d rest = u # ts"
proof (induction s arbitrary: t)
  case (Cons c s)
  show ?case
  proof (cases "c = d")
    case True
    with Cons.prems show ?thesis by auto
  next
    case False
    with Cons.prems obtain t' where "pieces d s = t' # u # ts" "t = c # t'" by (auto split: list.splits)
    with Cons.IH [of t'] show ?thesis by auto
  qed
qed simp

lemma parse_ipv4_first: "parse_ipv4 s = Some (IPv4 octets) \<Longrightarrow> octets \<noteq> [] \<and> (\<exists>rest. s = dec_nat (hd octets) @ CHR ''.'' # rest)"
proof -
  assume p: "parse_ipv4 s = Some (IPv4 octets)"
  then have l: "length (pieces (CHR ''.'') s) = 4" "None \<notin> set (map parse_octet (pieces (CHR ''.'') s))"
    and o: "octets = map the (map parse_octet (pieces (CHR ''.'') s))"
    by (auto simp: parse_ipv4_def Let_def split: if_splits)
  from l(1) obtain t u ts where t: "pieces (CHR ''.'') s = t # u # ts"
    by (cases "pieces (CHR ''.'') s"; cases "tl (pieces (CHR ''.'') s)") auto
  then obtain n where "parse_octet t = Some n" using l(2) by (cases "parse_octet t") auto
  with o t parse_octet_Some [of t n] pieces_hd [OF t] show ?thesis by auto
qed

lemma char_of_eqI: "of_char c = (n :: nat) \<Longrightarrow> char_of n = c"
  by auto

lemma dec_nat_127: "dec_nat 127 = ''127''"
proof -
  have "char_of (49 :: nat) = CHR ''1''" "char_of (50 :: nat) = CHR ''2''" "char_of (55 :: nat) = CHR ''7''"
    by (rule char_of_eqI, simp)+
  then show ?thesis
    by (subst dec_nat.simps, simp, subst dec_nat.simps, simp, subst dec_nat.simps) (simp add: digit_char_def)
qed

lemma split_port_Some: "split_port s = Some (ip, port) \<Longrightarrow> \<exists>rest. s = ip @ rest"
  by (auto simp: split_port_def Let_def split: if_splits intro: exI [of _ "drop (length s - _ - 1) s"] append_take_drop_id [symmetric])

text \<open>A numeric loopback endpoint is text that begins with \<open>127.\<close>, or bracketed IPv6 text.\<close>

lemma loopback_text:
  assumes "loopback_endpoint v6 address"
  shows "(\<exists>rest. address = ''127.'' @ rest) \<or> (\<exists>ip rest. address = ''['' @ ip @ '']'' @ rest \<and> v6 ip = Some True)"
proof -
  from assms obtain a n where p: "ParseAddrPort v6 address = Some (a, n)" "IsLoopback a"
    by (auto simp: loopback_endpoint_def split: option.splits prod.splits)
  from p(1) obtain ip port where s: "split_port address = Some (ip, port)" and ip: "ip \<noteq> []"
    by (auto simp: ParseAddrPort_def split: option.splits prod.splits if_splits)
  obtain rest where rest: "address = ip @ rest" using split_port_Some [OF s] by blast
  show ?thesis
  proof (cases a)
    case (IPv4 octets)
    with p(1) s have "ParseAddr v6 ip = Some (IPv4 octets)"
      by (auto simp: ParseAddrPort_def Let_def split: option.splits if_splits addr.splits)
    then have "parse_ipv4 ip = Some (IPv4 octets)" by (auto simp: ParseAddr_def split: list.splits if_splits)
    from parse_ipv4_first [OF this] p(2) IPv4 obtain r where "ip = dec_nat 127 @ CHR ''.'' # r"
      by (auto simp: IsLoopback_def)
    then show ?thesis by (simp add: rest dec_nat_127)
  next
    case (IPv6 l)
    with p(1) s have b: "hd ip = CHR ''[''" "2 \<le> length ip" "last ip = CHR '']''"
      "ParseAddr v6 (butlast (tl ip)) = Some (IPv6 l)"
      by (auto simp: ParseAddrPort_def Let_def split: option.splits if_splits addr.splits)
    have "ip = ''['' @ butlast (tl ip) @ '']''"
      using b(1-3) by (cases ip; cases "tl ip" rule: rev_cases) auto
    moreover have "v6 (butlast (tl ip)) = Some True"
      using b(4) p(2) IPv6 by (auto simp: ParseAddr_def IsLoopback_def parse_ipv4_def Let_def split: list.splits if_splits)
    ultimately show ?thesis using rest by (metis append.assoc)
  qed
qed

end
