(* ===== verification/Lab_Build.thy ===== *)
theory Lab_Build
  imports Lab_Net
begin

text \<open>
  The build commands of the lab: \<open>rpf-build-fixture\<close> (writes the synthetic artifact),
  \<open>rpf-package-fixture\<close> (reads the synthetic manifest) and \<open>rpf-cgroup-enter\<close> (moves itself into the
  lab's cgroup, drops its privileges and becomes the program to run).
\<close>

section \<open>The artifact\<close>

definition labOutputRoot :: string where "labOutputRoot = ''/src/build/out''"

definition isLabOutput :: "string \<Rightarrow> bool" where
  "isLabOutput path \<longleftrightarrow>
     IsAbs path \<and> Dir (Clean path) = labOutputRoot \<and>
     HasPrefix (Base (Clean path)) ''sensor-'' \<and> HasSuffix (Base (Clean path)) ''-artifact.txt''"

text \<open>What a path names; \<open>O_NOFOLLOW\<close> refuses a symbolic link.\<close>

datatype file_kind = Regular | Symlink | Special

definition Truncate :: "string \<Rightarrow> os \<Rightarrow> unit result \<times> os" where
  "Truncate path s =
     (case next_fault s of
        None \<Rightarrow> (Inr (), put_file path [] (called s))
      | Some _ \<Rightarrow> (Inl io_error, called s))"

definition open_existing :: "(string \<Rightarrow> file_kind) \<Rightarrow> string \<Rightarrow> os \<Rightarrow> unit result \<times> os" where
  "open_existing kind path s =
     (case next_fault s of
        Some _ \<Rightarrow> (Inl io_error, called s)
      | None \<Rightarrow>
          if kind path = Symlink \<or> (kind path = Regular \<and> os_files s path = None) then (Inl io_error, called s)
          else (Inr (), called s))"

definition writeArtifact :: "(string \<Rightarrow> file_kind) \<Rightarrow> string \<Rightarrow> os \<Rightarrow> unit result \<times> os" where
  "writeArtifact kind path s =
     io_then (open_existing kind path s) (\<lambda>_ s.
     io_then (plain_call s) (\<lambda>_ s.
       if kind path \<noteq> Regular then (Inl io_error, s)
       else
         io_then (Truncate path s) (\<lambda>_ s.
         io_then (Write path ''rpf-artifact-v1'' s) (\<lambda>_ s.
           plain_call s))))"

definition flags_error :: "flag_error \<Rightarrow> lab_error" where
  "flags_error e = FlagsFailed (case e of BadFlagSyntax t \<Rightarrow> t | HelpRequested \<Rightarrow> ''help''
     | FlagNotDefined t \<Rightarrow> t | FlagNeedsArgument t \<Rightarrow> t)"

text \<open>\<open>run\<close>; \<open>lab\<close> is the value of \<open>RPF_DISPOSABLE_LAB\<close>.\<close>

definition build_run :: "(string \<Rightarrow> file_kind) \<Rightarrow> string \<Rightarrow> string list \<Rightarrow> os \<Rightarrow> (lab_error + string) \<times> os" where
  "build_run kind lab arguments s =
     (case parse_flags [''artifact''] [] arguments of
        Inl e \<Rightarrow> (Inl (flags_error e), s)
      | Inr (actual, rest) \<Rightarrow>
          if rest \<noteq> [] \<or> \<not> isLabOutput (flag_value actual ''artifact'') then (Inl (Refusal ''artifact''), s)
          else if lab \<noteq> ''1'' then (Inl (Refusal ''lab''), s)
          else
            (case writeArtifact kind (flag_value actual ''artifact'') s of
               (Inl _, s) \<Rightarrow> (Inl (CallFailed ''write''), s)
             | (Inr _, s) \<Rightarrow> (Inr ''rpf-synthetic-build'', s)))"

section \<open>The package manifest\<close>

definition labManifest :: string where "labManifest = ''/src/lab/fixtures/synthetic-package-lock.json''"

text \<open>\<open>json.Valid\<close>: one value and white space.\<close>

definition json_Valid :: "bytes \<Rightarrow> bool" where
  "json_Valid data = (case parse_json data of None \<Rightarrow> False | Some (_, rest) \<Rightarrow> skip_ws rest = [])"

definition package_run :: "string \<Rightarrow> string list \<Rightarrow> os \<Rightarrow> (lab_error + string) \<times> os" where
  "package_run lab arguments s =
     (case parse_flags [''manifest''] [] arguments of
        Inl e \<Rightarrow> (Inl (flags_error e), s)
      | Inr (actual, rest) \<Rightarrow>
          if rest \<noteq> [] \<or> flag_value actual ''manifest'' \<noteq> labManifest then (Inl (Refusal ''manifest''), s)
          else if lab \<noteq> ''1'' then (Inl (Refusal ''lab''), s)
          else
            (case ReadFile (flag_value actual ''manifest'') s of
               (Inl _, s) \<Rightarrow> (Inl (CallFailed ''read''), s)
             | (Inr data, s) \<Rightarrow>
                 if \<not> json_Valid data then (Inl DecodeFailed, s)
                 else (Inr ''rpf-credential-independent-package-install'', s)))"

section \<open>Entering the cgroup\<close>

definition labUID :: nat where "labUID = 65534"

definition isDisposableLabCgroup :: "string \<Rightarrow> bool" where
  "isDisposableLabCgroup path \<longleftrightarrow> Dir path = ''/sys/fs/cgroup'' \<and> HasPrefix (Base path) ''rpf-''"

text \<open>\<open>filepath.Abs\<close> in a working directory.\<close>

definition Abs_path :: "string option \<Rightarrow> string \<Rightarrow> string option" where
  "Abs_path cwd path = (if IsAbs path then Some (Clean path) else map_option (\<lambda>d. Join d path) cwd)"

datatype system_call =
    WriteProcs string int | SetNoNewPrivs | Setgroups "nat list" | Setgid nat | Setuid nat
  | Exec string "string list" "string list"

text \<open>
  The calls done one after the other until one fails: the one that failed and those that were done.
  \<open>Exec\<close> does not return when it succeeds.
\<close>

fun perform :: "(system_call \<Rightarrow> bool) \<Rightarrow> system_call list \<Rightarrow> system_call option \<times> system_call list" where
  "perform succeeds [] = (None, [])"
| "perform succeeds (c # cs) =
     (if succeeds c then (case perform succeeds cs of (r, done_calls) \<Rightarrow> (r, c # done_calls)) else (Some c, []))"

datatype enter_error = EnterUsage | NotRoot | ResolveFailed | OutsidePrefix | TargetNotAbsolute | EnterCall system_call

record process_env =
  pe_euid :: nat
  pe_pid :: int
  pe_cwd :: "string option"
  pe_links :: "string \<Rightarrow> string option"
  pe_succeeds :: "system_call \<Rightarrow> bool"

definition enter_calls :: "process_env \<Rightarrow> string \<Rightarrow> string list \<Rightarrow> system_call list" where
  "enter_calls env cgroup program =
     [WriteProcs (Join cgroup ''cgroup.procs'') (pe_pid env), SetNoNewPrivs, Setgroups [], Setgid labUID, Setuid labUID,
      Exec (hd program) program [''HOME=/nonexistent'', ''LANG=C'', ''PATH=/usr/bin:/bin'', ''RPF_DISPOSABLE_LAB=1'']]"

definition enter_run :: "process_env \<Rightarrow> string list \<Rightarrow> enter_error option \<times> system_call list" where
  "enter_run env arguments =
     (if length arguments < 4 \<or> arguments ! 0 \<noteq> ''--cgroup'' \<or> arguments ! 2 \<noteq> ''--'' then (Some EnterUsage, [])
      else if pe_euid env \<noteq> 0 then (Some NotRoot, [])
      else
        (case pe_links env (arguments ! 1) of
           None \<Rightarrow> (Some ResolveFailed, [])
         | Some cgroup \<Rightarrow>
             if \<not> isDisposableLabCgroup cgroup then (Some OutsidePrefix, [])
             else if Abs_path (pe_cwd env) (arguments ! 3) \<noteq> Some (arguments ! 3) then (Some TargetNotAbsolute, [])
             else
               (case perform (pe_succeeds env) (enter_calls env cgroup (drop 3 arguments)) of
                  (r, calls) \<Rightarrow> (map_option EnterCall r, calls))))"

section \<open>The commands\<close>

definition build_main :: "(string \<Rightarrow> file_kind) \<Rightarrow> string \<Rightarrow> string list \<Rightarrow> os \<Rightarrow> nat \<times> os" where
  "build_main kind lab args s = (case build_run kind lab args s of (r, s) \<Rightarrow> (lab_status r, s))"

definition package_main :: "string \<Rightarrow> string list \<Rightarrow> os \<Rightarrow> nat \<times> os" where
  "package_main lab args s = (case package_run lab args s of (r, s) \<Rightarrow> (lab_status r, s))"

text \<open>\<open>None\<close>: the process has become the target.\<close>

definition enter_main :: "process_env \<Rightarrow> string list \<Rightarrow> nat option \<times> system_call list" where
  "enter_main env args = (case enter_run env args of (r, calls) \<Rightarrow> (map_option (\<lambda>_. 1) r, calls))"

section \<open>Files directly under a directory\<close>

text \<open>The pieces that \<open>Clean\<close> keeps of a rooted path: plain names.\<close>

lemma clean_loop_rooted:
  "\<forall>t \<in> set kept. plain t \<Longrightarrow> \<forall>t \<in> set ts. slash \<notin> set t \<Longrightarrow> \<forall>t \<in> set (clean_loop True kept ts). plain t"
proof (induction ts arbitrary: kept)
  case (Cons t ts)
  have tl: "\<forall>u \<in> set (tl kept). plain u" using Cons.prems(1) by (cases kept) simp_all
  consider "t = [] \<or> t = ''.''" | "t = ''..''" | "plain t" "t \<noteq> [] \<and> t \<noteq> ''.'' \<and> t \<noteq> ''..''"
    using Cons.prems(2) by (auto simp: plain_def)
  then show ?case
  proof cases
    case 1
    with Cons show ?thesis by auto
  next
    case 2
    with Cons.IH [OF Cons.prems(1)] Cons.IH [OF tl] Cons.prems(2) show ?thesis by simp
  next
    case 3
    with Cons.IH [of "t # kept"] Cons.prems show ?thesis by simp
  qed
qed simp

lemma segments_no_slash: "t \<in> set (segments s) \<Longrightarrow> slash \<notin> set t"
  by (induction s arbitrary: t) (auto split: if_splits list.splits)

lemma clean_loop_id: "\<forall>t \<in> set ts. plain t \<Longrightarrow> clean_loop rooted kept ts = rev kept @ ts"
  by (induction ts arbitrary: kept) (simp_all add: plain_def)

lemma Clean_rooted: "IsAbs path \<Longrightarrow> \<exists>ts. (\<forall>t \<in> set ts. plain t) \<and> Clean path = slash # join [slash] ts"
  using clean_loop_rooted [of "[]" "segments path"] segments_no_slash [of _ path] by (auto simp: Clean_def Let_def)

lemma segments_join: "\<forall>t \<in> set ts. slash \<notin> set t \<Longrightarrow> ts \<noteq> [] \<Longrightarrow> segments (join [slash] ts) = ts"
proof (induction ts)
  case (Cons t ts)
  then show ?case by (cases ts) (auto simp: join_Cons segments_plain segments_append)
qed simp

lemma Clean_plain: "\<forall>t \<in> set ts. plain t \<Longrightarrow> ts \<noteq> [] \<Longrightarrow> Clean (slash # join [slash] ts @ [slash]) = slash # join [slash] ts"
proof -
  assume p: "\<forall>t \<in> set ts. plain t" and ne: "ts \<noteq> []"
  have "segments (slash # join [slash] ts @ [slash]) = [] # segments (join [slash] ts @ slash # [])" by simp
  also have "\<dots> = [] # ts @ [[]]" using p ne by (simp only: segments_append segments_join plain_def) (simp add: plain_def segments_join)
  finally have s: "segments (slash # join [slash] ts @ [slash]) = [] # ts @ [[]]" .
  have "clean_loop True [] ([] # ts @ [[]]) = ts" using clean_loop_id [OF p, of True "[]"] by (simp add: clean_loop_append)
  with s show ?thesis by (simp add: Clean_def IsAbs_def)
qed

lemma last_piece: "slash \<notin> set t \<Longrightarrow> takeWhile (\<lambda>c. c \<noteq> slash) (rev (s @ slash # t)) = rev t"
  "slash \<notin> set t \<Longrightarrow> dropWhile (\<lambda>c. c \<noteq> slash) (rev (s @ slash # t)) = slash # rev s"
proof -
  assume t: "slash \<notin> set t"
  have "takeWhile (\<lambda>c. c \<noteq> slash) (rev t @ slash # rev s) = rev t @ takeWhile (\<lambda>c. c \<noteq> slash) (slash # rev s)"
    "dropWhile (\<lambda>c. c \<noteq> slash) (rev t @ slash # rev s) = dropWhile (\<lambda>c. c \<noteq> slash) (slash # rev s)"
    using t by (intro takeWhile_append2 dropWhile_append2; auto)+
  then show "takeWhile (\<lambda>c. c \<noteq> slash) (rev (s @ slash # t)) = rev t"
    "dropWhile (\<lambda>c. c \<noteq> slash) (rev (s @ slash # t)) = slash # rev s" by simp_all
qed

lemma Base_last: "plain t \<Longrightarrow> Base (s @ slash # t) = t"
proof -
  assume t: "plain t"
  then have "rev t \<noteq> []" "hd (rev t) \<noteq> slash" unfolding plain_def by (auto simp: hd_rev) (metis last_in_set)
  then have "dropWhile (\<lambda>c. c = slash) (rev (s @ slash # t)) = rev (s @ slash # t)"
    by (cases "rev t") simp_all
  moreover have "takeWhile (\<lambda>c. c \<noteq> slash) (rev (s @ slash # t)) = rev t" using t by (intro last_piece) (simp add: plain_def)
  ultimately show ?thesis using t by (simp add: Base_def Let_def plain_def del: rev_append)
qed

text \<open>
  A rooted clean path is the root, or its directory, a slash and its base, which is a plain name.
\<close>

lemma Clean_split:
  assumes "IsAbs path" "Dir (Clean path) = directory" "directory \<noteq> [slash]"
  shows "Clean path = directory @ slash # Base (Clean path) \<and> plain (Base (Clean path))"
proof -
  obtain ts where ts: "\<forall>t \<in> set ts. plain t" "Clean path = slash # join [slash] ts" using Clean_rooted [OF assms(1)] by blast
  show ?thesis
  proof (cases ts rule: rev_cases)
    case Nil
    then have "Clean path = [] @ slash # []" by (simp add: ts(2))
    then have "Dir (Clean path) = [slash]" unfolding Dir_def by (simp only: last_piece(2) list.set) (simp add: Clean_def IsAbs_def)
    with assms show ?thesis by simp
  next
    case (snoc us t)
    have t: "plain t" "slash \<notin> set t" using ts(1) snoc by (simp_all add: plain_def)
    show ?thesis
    proof (cases "us = []")
      case True
      then have c: "Clean path = [] @ slash # t" by (simp add: ts(2) snoc)
      have "Dir (Clean path) = [slash]" unfolding c Dir_def last_piece(2) [OF t(2)] by (simp add: Clean_def IsAbs_def)
      with assms show ?thesis by simp
    next
      case False
      have "join [slash] (us @ [t]) = join [slash] us @ slash # t"
        using False by (induction us) (auto simp: join_Cons)
      then have c: "Clean path = (slash # join [slash] us) @ slash # t" by (simp add: ts(2) snoc)
      have "Dir (Clean path) = Clean (slash # join [slash] us @ [slash])"
        unfolding c Dir_def last_piece(2) [OF t(2)] by simp
      also have "\<dots> = slash # join [slash] us" using ts(1) snoc False by (intro Clean_plain) auto
      finally have d: "directory = slash # join [slash] us" using assms(2) by simp
      have "Base (Clean path) = t" unfolding c by (rule Base_last [OF t(1)])
      then show ?thesis using c d t(1) by simp
    qed
  qed
qed

lemma isLabOutput_path:
  assumes "isLabOutput path"
  shows "\<exists>name. Clean path = ''/src/build/out/'' @ name \<and> plain name \<and> HasPrefix name ''sensor-'' \<and> HasSuffix name ''-artifact.txt''"
  using Clean_split [of path labOutputRoot] assms
  by (intro exI [of _ "Base (Clean path)"]) (simp add: isLabOutput_def labOutputRoot_def slash_def)

section \<open>What the artifact command changes\<close>

lemma writeArtifact_files:
  assumes "writeArtifact kind path s = (r, s')"
  shows "(\<forall>p. p \<noteq> path \<longrightarrow> os_files s' p = os_files s p) \<and>
    (os_files s' \<noteq> os_files s \<longrightarrow> kind path = Regular \<and> os_files s path \<noteq> None) \<and>
    (r = Inr () \<longrightarrow> os_files s' path = Some ''rpf-artifact-v1'')"
  using assms
  by (auto simp: writeArtifact_def open_existing_def Truncate_def Write_def plain_call_def Let_def put_file_def io_then_def
      split: option.splits fault.splits if_splits file_kind.splits)

lemma build_run_files:
  assumes "build_run kind lab arguments s = (r, s')"
  shows "(r = Inr out \<or> os_files s' \<noteq> os_files s \<longrightarrow> lab = ''1'') \<and>
    (\<exists>path. (os_files s' \<noteq> os_files s \<or> r = Inr out \<longrightarrow> isLabOutput path) \<and>
       (os_files s' \<noteq> os_files s \<longrightarrow> kind path = Regular \<and> os_files s path \<noteq> None) \<and>
       (\<forall>p. p \<noteq> path \<longrightarrow> os_files s' p = os_files s p) \<and> (r = Inr out \<longrightarrow> os_files s' path = Some ''rpf-artifact-v1''))"
proof (cases "parse_flags [''artifact''] [] arguments")
  case (Inl e)
  with assms show ?thesis by (auto simp: build_run_def)
next
  case (Inr x)
  obtain actual rest where x: "x = (actual, rest)" by fastforce
  let ?path = "flag_value actual ''artifact''"
  show ?thesis
  proof (cases "rest \<noteq> [] \<or> \<not> isLabOutput ?path \<or> lab \<noteq> ''1''")
    case True
    with assms Inr x show ?thesis by (auto simp: build_run_def split: if_splits)
  next
    case False
    obtain w s1 where w: "writeArtifact kind ?path s = (w, s1)" by fastforce
    have "s' = s1" "r = Inr out \<longrightarrow> w = Inr ()" using assms Inr x False w by (auto simp: build_run_def split: sum.splits)
    with writeArtifact_files [OF w] False show ?thesis by auto
  qed
qed

section \<open>Privileges are dropped before the program runs\<close>

lemma perform_done: "perform succeeds cs = (r, calls) \<Longrightarrow> \<exists>k \<le> length cs. calls = take k cs \<and> (r = None \<longleftrightarrow> k = length cs)"
proof (induction cs arbitrary: calls)
  case (Cons c cs)
  show ?case
  proof (cases "succeeds c")
    case True
    obtain calls' where c: "perform succeeds cs = (r, calls')" "calls = c # calls'"
      using Cons.prems True by (auto split: prod.splits)
    from Cons.IH [OF c(1)] obtain k where "k \<le> length cs" "calls' = take k cs" "r = None \<longleftrightarrow> k = length cs" by blast
    with c(2) show ?thesis by (intro exI [of _ "Suc k"]) simp
  next
    case False
    with Cons.prems show ?thesis by (intro exI [of _ 0]) auto
  qed
qed simp

lemma length_enter_calls: "length (enter_calls env cgroup program) = 6" by (simp add: enter_calls_def)

lemma enter_run_calls:
  assumes "enter_run env arguments = (r, calls)" "calls \<noteq> []"
  shows "\<exists>cgroup k. pe_euid env = 0 \<and> pe_links env (arguments ! 1) = Some cgroup \<and> isDisposableLabCgroup cgroup \<and>
    4 \<le> length arguments \<and> Abs_path (pe_cwd env) (arguments ! 3) = Some (arguments ! 3) \<and>
    k \<le> 6 \<and> calls = take k (enter_calls env cgroup (drop 3 arguments))"
proof -
  obtain cgroup where c: "pe_euid env = 0" "pe_links env (arguments ! 1) = Some cgroup" "isDisposableLabCgroup cgroup"
    "4 \<le> length arguments" "Abs_path (pe_cwd env) (arguments ! 3) = Some (arguments ! 3)"
    "\<exists>r. perform (pe_succeeds env) (enter_calls env cgroup (drop 3 arguments)) = (r, calls)"
    using assms by (auto simp: enter_run_def split: if_splits option.splits prod.splits)
  then obtain r' where "perform (pe_succeeds env) (enter_calls env cgroup (drop 3 arguments)) = (r', calls)" by blast
  from perform_done [OF this] obtain k where
    "k \<le> 6" "calls = take k (enter_calls env cgroup (drop 3 arguments))"
    unfolding length_enter_calls by blast
  with c(1-5) show ?thesis by blast
qed

lemma enter_exec:
  assumes "enter_run env arguments = (r, calls)" "Exec target argv environment \<in> set calls"
  shows "\<exists>cgroup. isDisposableLabCgroup cgroup \<and> pe_euid env = 0 \<and> target = arguments ! 3 \<and> argv = drop 3 arguments \<and>
    calls = [WriteProcs (Join cgroup ''cgroup.procs'') (pe_pid env), SetNoNewPrivs, Setgroups [], Setgid labUID,
      Setuid labUID, Exec target argv environment]"
proof -
  from assms(2) have "calls \<noteq> []" by auto
  from enter_run_calls [OF assms(1) this] obtain cgroup k where
    c: "pe_euid env = 0" "isDisposableLabCgroup cgroup" "4 \<le> length arguments" "k \<le> 6"
      "calls = take k (enter_calls env cgroup (drop 3 arguments))" by blast
  have "k = 6"
  proof (rule ccontr)
    assume "k \<noteq> 6"
    with c(4) have "k \<le> 5" by simp
    then have "set calls \<subseteq> set (take 5 (enter_calls env cgroup (drop 3 arguments)))"
      unfolding c(5) by (rule set_take_subset_set_take)
    with assms(2) show False by (auto simp: enter_calls_def)
  qed
  then have "calls = enter_calls env cgroup (drop 3 arguments)" using c(5) by (simp add: enter_calls_def)
  with assms(2) c show ?thesis by (auto simp: enter_calls_def hd_drop_conv_nth)
qed

end
