(* ===== verification/Command_Claims.thy ===== *)
theory Command_Claims
  imports Cli_Run Lab_Build Demo_Files
begin

text \<open>
  The properties of the commands: what an exit status means, what the commands do one after the other,
  and what keeps the commands of the lab inside it.
\<close>

section \<open>The verifier's commands\<close>


text \<open>C15: \<open>rpf assemble\<close> and then \<open>rpf verify-fixture\<close> on the same files: when the bundle can be assembled
  and its documents keep the reader's limits, both commands succeed, and the second prints and exits
  with the decision of \<open>Verify\<close> on the bundle that was assembled, in whichever form the options are given.\<close>

theorem assemble_then_verify:
  assumes "permutes order" "permutes order'" "job_ok j" "quiet s"
    "ReadInputs (jb_artifact j) (jb_events j) (jb_provenance j) (jb_policy j) s = (Inr inputs, s0)"
    "Assemble order inputs = Inr b" "loadable (enc_graph (bd_Graph b))" "loadable (enc_manifest (bd_Manifest b))"
    "loadable (enc_statement (bd_RuntimeTrace b))"
  shows "\<exists>s' out d. rpf_main order order' ([''rpf'', ''assemble''] @ option_args form (job_values j ''output'')) s = (Inr (0, out), s') \<and>
    rpf_main order order' ([''rpf'', ''verify-fixture''] @ option_args form' (job_values j ''bundle'')) s' =
      (Inr (decision_status d, enc_decision d), s') \<and>
    Verify order inputs b = Inr d"
  using assemble_then_verify_run [OF assms, of form form'] by (simp add: rpf_main_def)

definition demo_job :: job where
  "demo_job = \<lparr>jb_artifact = ''a'', jb_events = ''e'', jb_provenance = ''p'', jb_policy = ''q'', jb_bundle = ''out''\<rparr>"

definition demo_job_os :: os where
  "demo_job_os = put_file ''a'' demo_artifact (put_file ''e'' demo_stream (put_file ''p'' demo_provenance
     (put_file ''q'' demo_policy_bytes empty_os)))"

lemma demo_job_read: "quiet demo_job_os \<and> ReadInputs ''a'' ''e'' ''p'' ''q'' demo_job_os = (Inr demo_inputs, demo_job_os)"
proof -
  have q: "quiet demo_job_os" by (simp add: demo_job_os_def)
  have r: "ReadFile x demo_job_os = (Inr d, demo_job_os)" if "os_files demo_job_os x = Some d" for x d
    using q that by (rule ReadFile_quiet)
  have "os_files demo_job_os ''a'' = Some demo_artifact" "os_files demo_job_os ''e'' = Some demo_stream"
    "os_files demo_job_os ''p'' = Some demo_provenance" "os_files demo_job_os ''q'' = Some demo_policy_bytes"
    by (simp_all add: demo_job_os_def put_file_def)
  moreover have "Base ''a'' = ''a''" by code_simp
  ultimately show ?thesis using q by (simp add: ReadInputs_def r demo_inputs_def)
qed

lemma demo_job_ok: "job_ok demo_job"
proof -
  have "x \<notin> bundle_paths ''out''" if "x \<in> {''a'', ''e'', ''p'', ''q''}" for x
  proof -
    have "length (Join ''out'' manifest_name) > 1" "length (temporary (Join ''out'' manifest_name)) > 1"
      "length (Join ''out'' graph_name) > 1" "length (temporary (Join ''out'' graph_name)) > 1"
      "length (Join ''out'' trace_name) > 1" "length (temporary (Join ''out'' trace_name)) > 1"
      by code_simp+
    moreover have "length x = 1" using that by auto
    ultimately show ?thesis by (auto simp: bundle_paths_def)
  qed
  then show ?thesis by (simp add: job_ok_def demo_job_def job_files_def)
qed

lemma assemble_then_verify_witness:
  "\<exists>s' out. rpf_main (\<lambda>ks. ks) rev ([''rpf'', ''assemble''] @ option_args (\<lambda>_. True) (job_values demo_job ''output'')) demo_job_os =
      (Inr (0, out), s') \<and>
    fst (rpf_main (\<lambda>ks. ks) rev ([''rpf'', ''verify-fixture''] @ option_args (\<lambda>_. False) (job_values demo_job ''bundle'')) s') =
      Inr (0, enc_decision \<lparr>de_Decision = ''ALLOW'', de_Completeness = ''complete'', de_Reasons = Some []\<rparr>)"
proof -
  have l: "loadable (enc_graph (bd_Graph demo_bundle))" "loadable (enc_manifest (bd_Manifest demo_bundle))"
    using demo_graph_loadable demo_manifest_loadable by (simp_all add: demo_manifest demo_bundle_graph)
  have r: "permutes rev" by (simp add: permutes_def)
  have i: "ReadInputs (jb_artifact demo_job) (jb_events demo_job) (jb_provenance demo_job) (jb_policy demo_job) demo_job_os =
    (Inr demo_inputs, demo_job_os)" using demo_job_read by (simp add: demo_job_def)
  have q: "quiet demo_job_os" using demo_job_read by blast
  from assemble_then_verify [OF permutes_id r demo_job_ok q i demo_bundle l demo_trace_loadable, of "\<lambda>_. True" "\<lambda>_. False"]
  show ?thesis using demo_allow by (auto simp: decision_status_def)
qed

section \<open>The commands of the lab\<close>

text \<open>C40: the authorization fixture shows its flaw: against the target the client's expectation \<open>grant\<close> is
  met exactly when the target is in its vulnerable mode, and \<open>deny\<close> exactly when it is patched.\<close>

theorem authorization_proof:
  assumes "loopback_endpoint v6 address" "ready \<noteq> []" "mode \<in> {''intentionally-vulnerable'', ''patched''}"
    "lab_net_ok net" "quiet s" "os_files s ready = None" "expect \<in> {''grant'', ''deny''}"
  shows "(\<exists>output. prove v6 address expect True (reply_to v6 address mode ready net s) = Inr output) \<longleftrightarrow>
    (expect = ''grant'' \<longleftrightarrow> mode = ''intentionally-vulnerable'')"
  using assms by (rule proof_outcome)

definition demo_net :: server_net where
  "demo_net = \<lparr>sv_listen = True, sv_deadline = True, sv_received = None, sv_read_deadline = True, sv_reply = True\<rparr>"

lemma authorization_proof_witness:
  "(\<exists>output. prove (\<lambda>_. None) ''127.0.0.1:18081'' ''grant'' True
      (reply_to (\<lambda>_. None) ''127.0.0.1:18081'' ''intentionally-vulnerable'' ''/r'' demo_net empty_os) = Inr output) \<and>
   (\<nexists>output. prove (\<lambda>_. None) ''127.0.0.1:18081'' ''grant'' True
      (reply_to (\<lambda>_. None) ''127.0.0.1:18081'' ''patched'' ''/r'' demo_net empty_os) = Inr output)"
proof -
  have d: "digits_val ''18081'' = 18081" "digits_val ''127'' = 127" "digits_val ''0'' = 0" "digits_val ''1'' = 1"
    by (simp_all add: digits_val_def digit_val_def)
  have l: "loopback_endpoint (\<lambda>_. None) ''127.0.0.1:18081''"
    by (simp add: loopback_endpoint_def ParseAddrPort_def split_port_def Let_def parse_port_def d is_digit_def
        ParseAddr_def parse_ipv4_def parse_octet_def IsLoopback_def)
  have n: "lab_net_ok demo_net" by (simp add: lab_net_ok_def demo_net_def)
  have f: "os_files empty_os ''/r'' = None" by (simp add: empty_os_def)
  note p = authorization_proof [OF l _ _ n quiet_empty f]
  show ?thesis using p [of "''intentionally-vulnerable''" "''grant''"] p [of "''patched''" "''grant''"] by simp
qed

text \<open>C38: \<open>rpf-cgroup-enter\<close> runs the program only as the last of its calls, after it has entered a cgroup of
  the lab, given up new privileges and dropped its groups, group and user, and only with root's start.\<close>

theorem privileges_dropped:
  assumes "enter_main env arguments = (r, calls)" "Exec target argv environment \<in> set calls"
  shows "\<exists>cgroup. isDisposableLabCgroup cgroup \<and> pe_euid env = 0 \<and> target = arguments ! 3 \<and> argv = drop 3 arguments \<and>
    calls = [WriteProcs (Join cgroup ''cgroup.procs'') (pe_pid env), SetNoNewPrivs, Setgroups [], Setgid 65534,
      Setuid 65534, Exec target argv environment]"
  using enter_exec [of env arguments _ calls target argv environment] assms
  by (auto simp: enter_main_def labUID_def split: prod.splits)

definition demo_root :: process_env where
  "demo_root = \<lparr>pe_euid = 0, pe_pid = 5, pe_cwd = Some ''/'', pe_links = (\<lambda>_. Some ''/sys/fs/cgroup/rpf-a''),
     pe_succeeds = (\<lambda>_. True)\<rparr>"

lemma privileges_dropped_witness:
  "\<exists>cgroup environment calls. isDisposableLabCgroup cgroup \<and>
     enter_main demo_root [''--cgroup'', ''c'', ''--'', ''/bin/cc'', ''x''] = (None, calls) \<and>
     calls = [WriteProcs (Join cgroup ''cgroup.procs'') 5, SetNoNewPrivs, Setgroups [], Setgid 65534, Setuid 65534,
       Exec ''/bin/cc'' [''/bin/cc'', ''x''] environment]"
proof -
  have c: "isDisposableLabCgroup ''/sys/fs/cgroup/rpf-a''" "Abs_path (Some ''/'') ''/bin/cc'' = Some ''/bin/cc''"
    by code_simp+
  obtain r calls where m: "enter_main demo_root [''--cgroup'', ''c'', ''--'', ''/bin/cc'', ''x''] = (r, calls)" by fastforce
  then have "r = None" "Exec ''/bin/cc'' [''/bin/cc'', ''x'']
      [''HOME=/nonexistent'', ''LANG=C'', ''PATH=/usr/bin:/bin'', ''RPF_DISPOSABLE_LAB=1''] \<in> set calls"
    using c by (auto simp: enter_main_def enter_run_def enter_calls_def demo_root_def)
  with privileges_dropped [OF m this(2)] m show ?thesis by (auto simp: demo_root_def)
qed



end
