(* ===== verification/Demo_Run.thy ===== *)
theory Demo_Run
  imports Demo_Collector
begin

text \<open>
  The stream of \<open>Demo_Collector\<close> at the verifier: it is parsed, assembled with the provenance and the
  policy of \<open>Demo\<close>, and allowed. The chain is complete from the bytes of the kernel's records to the
  decision.
\<close>

definition demo_entries :: "demo_entry list" where
  "demo_entries = [demo_starts, demo_executes, demo_opens, demo_hashes, demo_ends]"

section \<open>The events\<close>

lemma norm_demo_seen: "norm_process demo_seen = demo_seen"
  by (simp add: norm_process_def norm_executable_def demo_seen_def path_only_def ProcessKey_eq sanitize_ascii)

lemma norm_demo_build: "norm_build (build_scope demo_settings) = build_scope demo_settings"
  by (simp add: norm_build_def norm_source_def build_scope_def demo_settings_def sanitize_ascii)

lemma demo_event_fields:
  assumes "demo_event (t, process, operation, resource) e"
  shows "ev_MonotonicNS e = of_nat t" "ev_Process e = process" "ev_Operation e = operation"
    "ev_Resource e = norm_map (Some (map_lit resource))" "ev_Build e = build_scope demo_settings"
proof -
  from assms obtain n c where c: "demo_chain n c" and
    e: "e = sent c (observation ''2026-01-01T00:00:00Z'' (of_nat t) process operation resource ''success'')" and
    r: "(operation, resource) \<in> demo_resources" "process \<in> {None, Some demo_seen}"
    by (auto simp: demo_event_def)
  have "sanitize operation = operation" using r(1) by (auto simp: demo_resources_def sanitize_ascii)
  moreover have "map_option norm_process process = process" using r(2) by (auto simp: norm_demo_seen)
  ultimately show "ev_MonotonicNS e = of_nat t" "ev_Process e = process" "ev_Operation e = operation"
    "ev_Resource e = norm_map (Some (map_lit resource))"
    by (simp_all add: e)
  show "ev_Build e = build_scope demo_settings" using c by (simp add: e sent_def demo_chain_def norm_demo_build)
qed

lemma demo_event_limits:
  assumes "demo_event x e"
  shows "length (line e) < maxEventBytes \<and> shape_ok (canon (enc_event e))"
proof -
  obtain t process operation resource where x: "x = (t, process, operation, resource)" by (metis prod.exhaust)
  from assms obtain n c where c: "demo_chain n c" "n < 8" and
    e: "e = sent c (observation ''2026-01-01T00:00:00Z'' (of_nat t) process operation resource ''success'')" and
    r: "(operation, resource) \<in> demo_resources" "process = None \<or> process = Some demo_seen" "t < 10"
    by (auto simp: demo_event_def x)
  let ?o = "observation ''2026-01-01T00:00:00Z'' (of_nat t) process operation resource ''success''"
  have "event_ok (Chain.appended c ?o)"
    using r(1) by (auto simp: event_ok_def Chain.appended_def Let_def set_hash_def stamp_def observation_def zero_event_def
        enc_map_def map_lit_def demo_resources_def loss_resource_def zero_counters_def)
  moreover have "small (maxEventBytes - 1) (enc_event (Chain.appended c ?o))"
  proof -
    have "of_nat n + 1 = (of_nat (Suc n) :: uint64)" by simp
    moreover have n: "Suc n < 10" using c by simp
    ultimately have seq: "length (dec_nat (unat (ch_sequence c + 1))) = 1" and
      time: "length (dec_nat (unat (of_nat t :: uint64))) = 1"
      using c length_dec_small [OF n] length_dec_small [OF r(3)] by (simp_all add: demo_chain_def add.commute)
    show ?thesis
      using r(1,2) c seq time
      by (auto simp: demo_resources_def demo_chain_def observed_sizes length_digit Chain.appended_def Let_def set_hash_def)
  qed
  ultimately show ?thesis using small_line by (simp add: e sent_def)
qed

section \<open>The stream\<close>

definition demo_observed_run :: "Event list \<Rightarrow> bool" where
  "demo_observed_run es \<longleftrightarrow> list_all2 demo_event demo_entries es"

lemma demo_run_events:
  assumes "demo_observed_run es"
  obtains e1 e2 e3 e4 e5 where "es = [e1, e2, e3, e4, e5]" "demo_event demo_starts e1" "demo_event demo_executes e2"
    "demo_event demo_opens e3" "demo_event demo_hashes e4" "demo_event demo_ends e5"
  using assms by (auto simp: demo_observed_run_def demo_entries_def list_all2_Cons1)

lemma demo_run_parses:
  assumes w: "written (build_scope demo_settings) source chain es (render es)" and es: "demo_observed_run es"
  shows "ParseEventStream (render es) = Inr es"
proof (rule written_parses [OF w])
  obtain e1 e2 e3 e4 e5 where e: "es = [e1, e2, e3, e4, e5]" "demo_event demo_starts e1" "demo_event demo_executes e2"
    "demo_event demo_opens e3" "demo_event demo_hashes e4" "demo_event demo_ends e5"
    using es by (elim demo_run_events)
  have l: "\<forall>e \<in> set es. length (line e) < maxEventBytes \<and> shape_ok (canon (enc_event e))"
    using demo_event_limits [OF e(2)] demo_event_limits [OF e(3)] demo_event_limits [OF e(4)]
      demo_event_limits [OF e(5)] demo_event_limits [OF e(6)] by (simp add: e(1))
  show "es \<noteq> []" "sorted (map ev_MonotonicNS es)"
    using demo_event_fields(1) [OF e(2)] demo_event_fields(1) [OF e(3)] demo_event_fields(1) [OF e(4)]
      demo_event_fields(1) [OF e(5)] demo_event_fields(1) [OF e(6)] by (simp_all add: e(1))
  have n: "length es = 5" by (simp add: e(1))
  with l show "writer_limits es" by (simp add: writer_limits_def maxEvents_def)
  from l e(1) show "length (render es) \<le> maxDocumentBytes"
    by (simp add: render_def maxEventBytes_def maxDocumentBytes_def)
qed

lemma demo_run_observed: "demo_observed_run es \<Longrightarrow> verifyArtifactObservation es (Digest demo_artifact) = Inr ()"
proof (elim demo_run_events)
  fix e1 e2 e3 e4 e5
  assume e: "es = [e1, e2, e3, e4, e5]" "demo_event demo_starts e1" "demo_event demo_executes e2"
    "demo_event demo_opens e3" "demo_event demo_hashes e4"
  have "resource_get e4 ''sha256'' = Some (AString (Digest demo_artifact))"
    by (simp add: resource_get_def demo_event_fields(4) [OF e(5)] norm_map_get sanitize_ascii)
  then show ?thesis by (simp add: e(1) demo_event_fields [OF e(2)] demo_event_fields [OF e(3)] demo_event_fields [OF e(4)]
      demo_event_fields [OF e(5)] as_string_def)
qed

section \<open>The decision\<close>

definition run_inputs :: "Event list \<Rightarrow> Inputs" where
  "run_inputs es = demo_inputs\<lparr>ip_EventBytes := render es\<rparr>"

definition run_assembly :: "Event list \<Rightarrow> assembly" where
  "run_assembly es = made es demo_policy (norm_statement demo_statement) demo_identity (graph_of es)"

lemma demo_run_allowed:
  assumes w: "written (build_scope demo_settings) source chain es (render es)" and es: "demo_observed_run es"
  shows "\<exists>b. Assemble (\<lambda>ks. ks) (run_inputs es) = Inr b \<and>
    Verify (\<lambda>ks. ks) (run_inputs es) b = Inr \<lparr>de_Decision = ''ALLOW'', de_Completeness = ''complete'', de_Reasons = Some []\<rparr>"
proof -
  obtain e1 e2 e3 e4 e5 where e: "es = [e1, e2, e3, e4, e5]" "demo_event demo_starts e1" "demo_event demo_executes e2"
    "demo_event demo_opens e3" "demo_event demo_hashes e4" "demo_event demo_ends e5"
    using es by (elim demo_run_events)
  note fields = demo_event_fields [OF e(2)] demo_event_fields [OF e(3)] demo_event_fields [OF e(4)]
    demo_event_fields [OF e(5)] demo_event_fields [OF e(6)]
  let ?a = "run_assembly es"
  have parse: "inputs_parse (run_inputs es) ?a"
    using demo_inputs_parse demo_run_parses [OF w es]
    by (simp add: inputs_parse_def run_inputs_def run_assembly_def demo_assembly_def)
  have cons: "consistent (run_inputs es) ?a"
    using demo_consistent demo_run_observed [OF es]
    by (simp add: consistent_def run_inputs_def run_assembly_def demo_assembly_def e(1) fields demo_inputs_def
        demo_events_def demo_build_def)
  have graph: "graphable es"
    by (simp add: graphable_def e(1) fields demo_seen_def path_only_def ProcessKey_eq)
  have loss: "lossFromFinalEvent e5 = zero_loss"
    using lossFromFinalEvent_sent [of e5 zero_counters 0] fields
    by (simp add: zero_loss_def zero_counters_def reported_def)
  have complete: "completeness (as_manifest (run_inputs es) ?a) = ''complete''"
    by (simp add: completeness_cases lost_def as_manifest_def assemble_manifest_def run_assembly_def e(1) loss fields
        zero_loss_def)
  have small: "small maxDocumentBytes (enc_correlation (as_correlation (run_inputs es) ?a))"
    using complete
    by (simp add: as_correlation_def assemble_correlation_def as_graphHash_def zero_correlation_def correlation_sizes
        run_inputs_def)
      (simp add: run_assembly_def demo_identity_eq length_digit)
  obtain b where b: "assembles (\<lambda>ks. ks) (run_inputs es) ?a b"
    using assembles_ex_iff [OF permutes_id, of "run_inputs es" ?a] parse cons graph small_length [OF small]
      small_shape [OF small]
    by (auto simp: correlation_fits_def run_assembly_def)
  have m: "bd_Manifest b = as_manifest (run_inputs es) ?a" by (rule assembles_manifest [OF b])
  have "policy_reasons (as_policy ?a) (as_identity ?a) (completeness (bd_Manifest b)) = []"
    "behaviorReasons (as_events ?a) (as_policy ?a) = []"
    unfolding policy_reasons_Nil behaviorReasons_Nil m complete
    by (simp_all add: run_assembly_def demo_identity_eq demo_policy_def policy_allows_def event_allowed_def
        e(1) fields demo_seen_def path_only_def)
  with assembles_verifies [OF permutes_id permutes_id b] b show ?thesis
    by (auto simp: m complete Assemble_iff)
qed

end
