(* ===== verification/Spec2Isabelle.thy ===== *)
theory Spec2Isabelle
  imports Sensor_Claims Command_Claims Demo_Run
begin

text \<open>
  A verification development for the runtime provenance firewall, a Go program that records what a
  build does and decides whether its artifact may be used.

  \<^bold>\<open>The program.\<close> \<open>rpf-sensor\<close> (\<open>cmd/rpf-sensor\<close>) attaches BPF programs to the cgroup of a build through
  \<open>internal/sensor\<close>, turns the records of the kernel into events and appends them to a hash chained
  JSON Lines file (\<open>chain.go\<close>). \<open>rpf\<close> (\<open>cmd/rpf\<close>) reads that file (\<open>evidence.go\<close>, \<open>parse.go\<close>), builds the
  execution graph, assembles a bundle of graph, manifest and runtime trace (\<open>verify.go\<close>), and verifies a
  bundle against artifact, events, provenance and policy: \<open>ALLOW\<close>, \<open>REVIEW\<close> or \<open>REJECT\<close>. The other commands
  are the fixtures of a disposable lab.

  \<^bold>\<open>Theories and sources.\<close>
  \<^item> \<open>Prelude\<close>, \<open>Go_Map\<close>, \<open>Paths\<close>: results and errors, decimal text, Go maps as sorted association lists
    behind the locale \<open>finite_map\<close>, \<open>path/filepath\<close>.
  \<^item> \<open>Sha256\<close>, \<open>Json_Text\<close>, \<open>Json\<close>, \<open>Token\<close>, \<open>Decode\<close>: what the source uses of \<open>crypto/sha256\<close>, of UTF-8
    and of \<open>encoding/json\<close>: writing and parsing values, the token stream of a decoder, and decoding into
    structs, with the locale \<open>codec\<close> for what an encoder and a decoder promise each other.
  \<^item> \<open>Canon\<close>, \<open>Parse\<close>: \<open>parse.go\<close>, canonical text and strict documents.
  \<^item> \<open>Model\<close>, \<open>Codecs\<close>: \<open>model.go\<close>, a record with encoder and decoder per struct; every one of them is an
    interpretation of \<open>codec\<close>.
  \<^item> \<open>Evidence\<close>, \<open>Graph\<close>: \<open>evidence.go\<close>, the stream and its chain (an interpretation of the locale
    \<open>hash_chain\<close> of \<open>Hash_Chain\<close>), the graph and its closed form.
  \<^item> \<open>Chain\<close>: \<open>chain.go\<close>; the relation \<open>written\<close> is everything that calls of \<open>Append\<close> can produce.
  \<^item> \<open>Verify\<close>, \<open>Verdict\<close>, \<open>Binding\<close>, \<open>Limits\<close>, \<open>Local\<close>, \<open>Files\<close>: \<open>verify.go\<close> and \<open>local_provenance.go\<close>; the
    verdicts as a linear order, what a bundle is bound to, size bounds that the limits of the strict
    decoder need, and the bundle's files.
  \<^item> \<open>Kernel_Sensor\<close>: \<open>internal/sensor/sensor_linux.go\<close>; \<open>Open\<close> and \<open>Close\<close> give the list of what they
    acquire and release.
  \<^item> \<open>Collector\<close>, \<open>Collector_Run\<close>, \<open>Collector_Facts\<close>: \<open>cmd/rpf-sensor\<close>; a \<open>handle_*\<close> definition per kind of
    kernel record, the step relation \<open>collecting\<close> of the loop and its invariant \<open>sound\<close>.
  \<^item> \<open>Cli\<close>, \<open>Cli_Run\<close>: \<open>cmd/rpf\<close>, string flags as Go's package \<open>flag\<close> reads them included.
  \<^item> \<open>Lab_Net\<close>, \<open>Lab_Build\<close>: the seven commands of the lab.
  \<^item> \<open>Demo\<close>, \<open>Demo_Files\<close>, \<open>Demo_Collector\<close>, \<open>Demo_Run\<close>: concrete runs, the witnesses of the properties; the
    last one goes from the bytes of the kernel's records to the decision \<open>ALLOW\<close>.
  \<^item> \<open>Sensor_Claims\<close>, \<open>Command_Claims\<close> and this theory: the properties.

  \<^bold>\<open>State and errors.\<close> Words keep their width (\<open>uint64\<close>, \<open>uint32\<close>). An error is a value of \<open>gerr\<close> on the
  left of a sum; a receiver that a method changes is passed and returned. The file system is the record
  \<open>os\<close>: the contents of regular files and, for each call to come, whether it fails and how many bytes a
  failing write still writes; permissions, directories and links are not in it. A failed call is one
  error, whatever its text. Go iterates over a map in an order it does not promise: such a loop takes the
  order as a parameter, a permutation of the keys. \<open>fatal\<close> and \<open>fail\<close> end the process and are the left
  side of a sum; the text they print is not modelled, its cause is.

  \<^bold>\<open>What is shown.\<close> Across the program: an \<open>ALLOW\<close> for a stream of the collector means that every record the
  kernel delivered is in it and that nothing was lost (\<open>allowed_run\<close>). For the verifier: exactly when it allows, what a bundle that is not rejected commits
  to, that a bundle just assembled verifies, also through files and through the two commands. For the
  stream: what the parser accepts, that the last hash commits to the whole stream unless two texts with
  one SHA-256 digest are at hand, and that what \<open>Append\<close> wrote is read back. For the strict documents:
  what they are, that canonical text is a fixed point, that the recursion ends. For the collector: that
  it ends when its context is done, that the file is a written stream at every moment and at most its
  last line is cut, that every event is attributed, that nothing is missing when the loss counter is
  zero, and what it hands to the verifier. For sensor and lab: resources are balanced, records are
  decoded as they are laid out, privileges are dropped first, writes stay in their directory. SHA-256 is
  the concrete function; nothing is assumed about collisions.

  \<^bold>\<open>Bounds and fuel.\<close> The JSON parser and \<open>walkJSON\<close> recurse with fuel \<open>2 * length + 1\<close>, as each call reads at
  least one byte; \<open>walkJSON_terminates\<close> shows that it suffices, and \<open>parse_fuel\<close> the same for the parser.
  \<open>Read\<close> and \<open>collect\<close> recurse over the rounds of polling that the environment gives; \<open>None\<close> means that the
  program still waits after the last of them, and \<open>sensor_main_returns\<close> is the claim that it does not.

  \<^bold>\<open>Parameters.\<close> The BPF library and the loaded object (\<open>ebpf\<close>), the rounds of the ring buffer, the
  clocks, the files that the build leaves and the per-CPU counters (\<open>environment\<close>), what the network and
  the system calls answer in the lab, and the reading of IPv6 text (\<open>v6\<close>).

  \<^bold>\<open>Not modelled.\<close> The BPF program itself, C code that the kernel runs; the parsing of the flags of
  \<open>rpf-sensor\<close>, whose values are the record \<open>settings\<close>; the nesting limit of 10000 of \<open>encoding/json\<close>, as the
  limit of 16 of \<open>walkJSON\<close> comes first on every path but the decoding of the fixture's messages; the
  reuse of a slice's backing array, which no code can observe here; the branch of \<open>uintResource\<close> for
  floating point numbers, which strict decoding with \<open>UseNumber\<close> never produces; the printed text of the
  fixtures; tests, documents and lab scripts.
\<close>

section \<open>The decision\<close>

text \<open>C2: \<open>Verify\<close> says \<open>ALLOW\<close> exactly when the inputs parse, the bundle names the artifact's digest and
  agrees with the one recomputed from the inputs (graph, manifest and trace, and the identity in the
  provenance), the evidence is complete, the policy admits provider, builder and repository, and it
  allows every event.\<close>

theorem Verify_allows:
  assumes "permutes order"
  shows "(\<exists>d. Verify order inputs b = Inr d \<and> de_Decision d = ''ALLOW'') \<longleftrightarrow>
    (\<exists>a r. assembles order inputs a r \<and> artifact_bound inputs b \<and> bundle_matches b r \<and>
       identity_matches (as_identity a) (bd_Manifest b) \<and> completeness (bd_Manifest b) = ''complete'' \<and>
       policy_allows (as_policy a) (as_identity a) \<and> (\<forall>e \<in> set (as_events a). event_allowed (as_policy a) e))"
proof -
  have "(\<exists>d. Verify order inputs b = Inr d \<and> de_Decision d = ''ALLOW'') \<longleftrightarrow>
      (\<exists>a r. artifact_bound inputs b \<and> assembles order inputs a r \<and> de_Decision (verified a b r) = ''ALLOW'')"
    unfolding Verify_iff by (auto simp: artifact_mismatch_def)
  also have "\<dots> \<longleftrightarrow> (\<exists>a r. assembles order inputs a r \<and> artifact_bound inputs b \<and> bundle_matches b r \<and>
       identity_matches (as_identity a) (bd_Manifest b) \<and> completeness (bd_Manifest b) = ''complete'' \<and>
       policy_allows (as_policy a) (as_identity a) \<and> (\<forall>e \<in> set (as_events a). event_allowed (as_policy a) e))"
    using verified_ALLOW by (auto simp: assembles_def)
  finally show ?thesis .
qed

lemma Verify_allows_witness:
  "\<exists>a r. assembles (\<lambda>ks. ks) demo_inputs a r \<and> artifact_bound demo_inputs demo_bundle \<and> bundle_matches demo_bundle r \<and>
     completeness (bd_Manifest demo_bundle) = ''complete''"
  using Verify_allows [OF permutes_id, of demo_inputs demo_bundle] demo_allow by auto

text \<open>C10: the decision of \<open>Verify\<close> is the greatest verdict among the reasons it lists.\<close>

theorem Verify_decides_worst:
  assumes "Verify order inputs b = Inr d"
  shows "de_Decision d = verdict_name (worst (elems (de_Reasons d)))"
  using assms unfolding Verify_iff
  by (auto simp: verified_def artifact_mismatch_def reason_verdict_def)

lemma Verify_decides_worst_witness: "\<exists>d. Verify (\<lambda>ks. ks) demo_inputs demo_bundle = Inr d \<and>
    de_Decision d = verdict_name (worst (elems (de_Reasons d)))"
  using Verify_decides_worst [OF demo_allow] demo_allow by blast

text \<open>C5: a bundle made by \<open>Assemble\<close> verifies against the same inputs with no reason of integrity or
  identity: what remains are the policy's reasons and those of the behaviour.\<close>

theorem Assemble_then_Verify:
  assumes "permutes order" "permutes order'" "Assemble order inputs = Inr b"
  shows "\<exists>events policy provenance identity.
     ParseEventStream (ip_EventBytes inputs) = Inr events \<and> decodePolicy (ip_PolicyBytes inputs) = Inr policy \<and>
     decodeStatement (ip_ProvenanceBytes inputs) = Inr provenance \<and> provenanceIdentity provenance = Inr identity \<and>
     (let rs = policy_reasons policy identity (completeness (bd_Manifest b)) @ behaviorReasons events policy in
      Verify order' inputs b = Inr \<lparr>de_Decision = verdict_name (worst rs),
        de_Completeness = completeness (bd_Manifest b), de_Reasons = Some rs\<rparr>)"
proof -
  obtain a where a: "assembles order inputs a b" using assms(3) Assemble_iff by blast
  from assembles_verifies [OF assms(1,2) a] a show ?thesis
    by (intro exI [of _ "as_events a"] exI [of _ "as_policy a"] exI [of _ "as_provenance a"] exI [of _ "as_identity a"])
      (simp add: assembles_def inputs_parse_def Let_def)
qed

lemma Assemble_then_Verify_witness: "\<exists>events. ParseEventStream demo_stream = Inr events"
  using Assemble_then_Verify [OF permutes_id permutes_id demo_bundle] by (auto simp: demo_inputs_def)

text \<open>C3: a bundle that is not rejected commits to the inputs: its manifest holds the digests of the
  artifact, the event stream, the policy and the graph of the events, the range of sequence numbers,
  the losses and the lifecycle.\<close>

theorem not_rejected_commits:
  assumes "permutes order" "Verify order inputs b = Inr d" "de_Decision d \<noteq> ''REJECT''"
  shows "\<exists>events. ParseEventStream (ip_EventBytes inputs) = Inr events \<and> commits (bd_Manifest b) inputs events"
  using not_reject_commits [OF assms] by (auto simp: inputs_parse_def)

lemma not_rejected_commits_witness:
  "\<exists>events. ParseEventStream (ip_EventBytes demo_inputs) = Inr events \<and> commits (bd_Manifest demo_bundle) demo_inputs events"
  by (rule not_rejected_commits [OF permutes_id demo_allow]) simp

text \<open>C4: one bundle cannot be accepted for two different builds: if it is not rejected for two sets of
  inputs, artifact, event stream, policy and provenance have the same digests in both.\<close>

theorem same_bundle_same_inputs:
  assumes "permutes order" "Verify order i1 b = Inr d1" "de_Decision d1 \<noteq> ''REJECT''"
    "Verify order i2 b = Inr d2" "de_Decision d2 \<noteq> ''REJECT''"
  shows "Digest (ip_ArtifactBytes i1) = Digest (ip_ArtifactBytes i2) \<and>
    Digest (ip_EventBytes i1) = Digest (ip_EventBytes i2) \<and>
    Digest (ip_PolicyBytes i1) = Digest (ip_PolicyBytes i2) \<and>
    Digest (ip_ProvenanceBytes i1) = Digest (ip_ProvenanceBytes i2)"
  using not_reject_commits [OF assms(1-3)] not_reject_commits [OF assms(1,4,5)] same_bundle_provenance [OF assms(2-5)]
  by (auto simp: commits_def)

lemma same_bundle_same_inputs_witness: "Digest (ip_ProvenanceBytes demo_inputs) = Digest (ip_ProvenanceBytes demo_inputs)"
  using same_bundle_same_inputs [OF permutes_id demo_allow _ demo_allow] by simp

text \<open>C20: if the inputs parse and the bundle names another artifact digest, the answer is \<open>REJECT\<close>, before
  anything else is compared.\<close>

theorem wrong_artifact_rejected:
  assumes "ParseEventStream (ip_EventBytes inputs) = Inr events" "decodePolicy (ip_PolicyBytes inputs) = Inr policy"
    "decodeStatement (ip_ProvenanceBytes inputs) = Inr provenance" "provenanceIdentity provenance = Inr identity"
    "ar_SHA256 (mf_Artifact (bd_Manifest b)) \<noteq> Digest (ip_ArtifactBytes inputs)"
  shows "\<exists>d. Verify order inputs b = Inr d \<and> de_Decision d = ''REJECT''"
  using assms Verify_mismatch [of inputs "made events policy provenance identity zero_graph" b order]
  by (simp add: inputs_parse_def artifact_bound_def artifact_mismatch_def)

lemma wrong_artifact_rejected_witness: "\<exists>d. Verify (\<lambda>ks. ks) demo_inputs no_bundle = Inr d \<and> de_Decision d = ''REJECT''"
proof (rule wrong_artifact_rejected)
  show "ParseEventStream (ip_EventBytes demo_inputs) = Inr demo_events" by (simp add: demo_inputs_def demo_parses)
  show "decodePolicy (ip_PolicyBytes demo_inputs) = Inr demo_policy" by (simp add: demo_inputs_def demo_decodePolicy)
  show "decodeStatement (ip_ProvenanceBytes demo_inputs) = Inr (norm_statement demo_statement)"
    by (simp add: demo_inputs_def demo_provenance_def demo_round_trip)
  show "provenanceIdentity (norm_statement demo_statement) = Inr demo_identity" by (rule demo_round_trip)
  show "ar_SHA256 (mf_Artifact (bd_Manifest no_bundle)) \<noteq> Digest (ip_ArtifactBytes demo_inputs)"
    using no_bundle_unbound by (simp add: artifact_bound_def)
qed

text \<open>C19: evidence that is not complete is never allowed, and the policy's choice for it is a lower bound
  of the decision.\<close>

theorem incomplete_not_allowed:
  assumes "Verify order inputs b = Inr d" "de_Completeness d \<noteq> ''complete''"
  shows "de_Decision d \<noteq> ''ALLOW'' \<and>
    (\<forall>policy. decodePolicy (ip_PolicyBytes inputs) = Inr policy \<and> po_IncompleteDecision policy = ''REJECT'' \<longrightarrow>
       de_Decision d = ''REJECT'')"
proof -
  have "de_Decision (verified a b r) \<noteq> ''ALLOW'' \<and>
      (po_IncompleteDecision (as_policy a) = ''REJECT'' \<longrightarrow> de_Decision (verified a b r) = ''REJECT'')"
    if a: "inputs_parse inputs a" and c: "completeness (bd_Manifest b) \<noteq> ''complete''" for a r
  proof -
    have "\<exists>x \<in> set (verify_reasons a b r). re_Effect x = po_IncompleteDecision (as_policy a)"
      using c by (auto simp: verify_reasons_def policy_reasons_def)
    then show ?thesis
      using verified_ALLOW [OF a, of b r] c by (auto simp: verified_def worst_Reject)
  qed
  with assms show ?thesis
    unfolding Verify_iff
    by (auto simp: assembles_def inputs_parse_def verified_def artifact_mismatch_def)
qed

lemma incomplete_not_allowed_witness: "de_Decision (artifact_mismatch no_bundle) \<noteq> ''ALLOW''"
  using incomplete_not_allowed [OF no_bundle_rejected] no_bundle_unknown by (simp add: artifact_mismatch_def)

section \<open>From the kernel to the decision\<close>





section \<open>Completeness\<close>

text \<open>C33: without wrap-around in the sum of the five counters, a manifest is complete exactly when the
  sensor started and finalized, all counters were read and all five are zero.\<close>

theorem complete_iff_lossless:
  assumes "unat (ls_KernelReserve (mf_Loss m)) + unat (ls_KernelCorrelation (mf_Loss m)) + unat (ls_Decode (mf_Loss m)) +
    unat (ls_Queue (mf_Loss m)) + unat (ls_Persistence (mf_Loss m)) < 2 ^ 64"
  shows "completeness m = ''complete'' \<longleftrightarrow>
    lc_Started (mf_Lifecycle m) \<and> lc_Finalized (mf_Lifecycle m) \<and>
    mf_Loss m = \<lparr>ls_KernelReserve = 0, ls_KernelCorrelation = 0, ls_Decode = 0, ls_Queue = 0, ls_Persistence = 0,
      ls_CounterReadError = False\<rparr>"
  using lost_zero [OF assms] by (cases "mf_Loss m") (auto simp: completeness_cases)

lemma complete_iff_lossless_witness: "completeness zero_manifest \<noteq> ''complete''"
  using complete_iff_lossless [of zero_manifest] by (simp add: zero_manifest_def zero_loss_def zero_lifecycle_def)


section \<open>The event stream\<close>

text \<open>C6: \<open>ParseEventStream\<close> accepts exactly the streams within the size limit whose lines are, up to
  white space around them, the canonical lines of valid events, at most \<open>maxEvents\<close>, that form a chain:
  each event carries its own digest and the digest of the event before it, the sequence counts from 1,
  build and sensor stay the same and the clock does not go back.\<close>

theorem ParseEventStream_accepts:
  "ParseEventStream raw = Inr es \<longleftrightarrow>
   raw \<noteq> [] \<and> length raw \<le> maxDocumentBytes \<and> list_all2 line_of (raw_lines raw) es \<and>
   length es \<le> maxEvents \<and> chain_ok es"
  by (rule ParseEventStream_iff)

text \<open>C35: an accepted stream written again line by line is accepted with the same events, and so is every
  non-empty beginning of it: the chain alone does not show that a stream was cut.\<close>

theorem ParseEventStream_prefixes:
  assumes "ParseEventStream raw = Inr es" "length raw < maxDocumentBytes" "0 < k"
  shows "ParseEventStream (render (take k es)) = Inr (take k es)"
proof (rule ParseEventStream_render)
  have es: "list_all2 line_of (raw_lines raw) es" "length es \<le> maxEvents" "chain_ok es"
    using assms(1) by (simp_all add: ParseEventStream_iff)
  show "\<forall>e \<in> set (take k es). valid_event e \<and> length (line e) < maxEventBytes"
    using parsed_line [OF assms(1)] by (meson in_set_takeD)
  show "chain_ok (take k es)" using es(3) assms(3) by (rule chain_ok_take)
  show "length (take k es) \<le> maxEvents" using es(2) by simp
  show "length (render (take k es)) \<le> maxDocumentBytes"
    using length_render_take [of k es] length_render_parsed [OF es(1)] assms(2) by simp
qed

lemma ParseEventStream_prefixes_witness: "ParseEventStream (render [event1, event2]) = Inr [event1, event2]"
  using ParseEventStream_prefixes [OF demo_parses demo_short, of 2] by (simp add: demo_events_def)

text \<open>C11: the hash of the last event commits to the whole stream: two accepted streams that end in the
  same event hash have the same events, or among their events are two whose hashed bodies differ and
  have the same SHA-256 digest.\<close>

theorem last_hash_commits:
  assumes "ParseEventStream raw = Inr es" "ParseEventStream raw' = Inr es'"
    "in_EventHash (ev_Integrity (last es)) = in_EventHash (ev_Integrity (last es'))"
  shows "es = es' \<or> (\<exists>x \<in> set es. \<exists>y \<in> set es'.
    hash_material x \<noteq> hash_material y \<and> Digest (hash_material x) = Digest (hash_material y))"
  using log.same_end [of zeroHash 1 es es'] assms
  by (auto simp: ParseEventStream_iff chain_ok_def log.collision_def)

lemma last_hash_commits_witness: "demo_events = demo_events \<or>
    (\<exists>x \<in> set demo_events. \<exists>y \<in> set demo_events.
      hash_material x \<noteq> hash_material y \<and> Digest (hash_material x) = Digest (hash_material y))"
  by (rule last_hash_commits [OF demo_parses demo_parses]) (rule refl)

text \<open>What \<open>validateEvent\<close> accepts.\<close>

theorem validateEvent_accepts:
  "validateEvent e = Inr u \<longleftrightarrow>
   ev_SchemaVersion e = EventSchema \<and> ev_EventID e \<noteq> [] \<and>
   bs_BuildID (ev_Build e) \<noteq> [] \<and> bs_RunID (ev_Build e) \<noteq> [] \<and> bs_BootID (ev_Build e) \<noteq> [] \<and>
   bs_CgroupID (ev_Build e) \<noteq> 0 \<and> bs_CgroupPathHash (ev_Build e) \<noteq> [] \<and>
   src_Repository (bs_Source (ev_Build e)) \<noteq> [] \<and> src_Revision (bs_Source (ev_Build e)) \<noteq> [] \<and>
   ev_Sequence e \<noteq> 0 \<and> ev_MonotonicNS e \<noteq> 0 \<and> ev_Operation e \<in> set allowedOperations \<and>
   sn_Name (ev_Sensor e) \<noteq> [] \<and> sn_Version (ev_Sensor e) \<noteq> [] \<and> sn_ConfigDigest (ev_Sensor e) \<noteq> [] \<and>
   (ev_Operation e = ''process_exec'' \<longrightarrow> ev_Process e \<noteq> None) \<and>
   (\<forall>p. ev_Process e = Some p \<longrightarrow> \<not> process_incomplete p)"
  by (rule validateEvent_ok_iff)

lemma validateEvent_accepts_witness: "validateEvent (Chain.appended chain1 draft2) = Inr () \<and> ev_Process (Chain.appended chain1 draft2) \<noteq> None"
  using validateEvent_accepts [of "Chain.appended chain1 draft2" "()"] demo_valid(2) by (simp add: draft_defs)

section \<open>Strict documents\<close>

text \<open>C29: \<open>canonical\<close> fails exactly when a number is not a JSON number, and else writes the text of
  the normal form: keys sorted and unique, all text valid UTF-8.\<close>

theorem canonical_writes_normal_form:
  "canonical value = Inr raw \<longleftrightarrow> numbers_ok value \<and> raw = marshal (canon value)"
  by (rule canonical_ok_iff)

text \<open>C30: canonical text is a fixed point: it is one JSON value, that value is canonical already, and no
  other value in normal form has the same text.\<close>

theorem canonical_fixed_point:
  assumes "canonical value = Inr raw"
  shows "\<exists>!j. normal j \<and> marshal j = raw \<and> parse_json raw = Some (j, []) \<and> canonical j = Inr raw"
proof -
  have n: "normal (canon value)" "raw = marshal (canon value)" using assms by (simp_all add: canonical_ok_iff)
  show ?thesis
  proof (rule ex1I [of _ "canon value"])
    show "normal (canon value) \<and> marshal (canon value) = raw \<and> parse_json raw = Some (canon value, []) \<and>
        canonical (canon value) = Inr raw"
      using parse_normal [OF n(1), of "[]"] canonical_normal [OF n(1)] n by simp
    show "j = canon value"
      if "normal j \<and> marshal j = raw \<and> parse_json raw = Some (j, []) \<and> canonical j = Inr raw" for j
      using that marshal_inject [OF _ n(1), of j] n(2) by blast
  qed
qed

lemma canonical_fixed_point_witness: "\<exists>j. parse_json (marshal (canon (enc_policy demo_policy))) = Some (j, [])"
  using canonical_fixed_point [OF policy_codec.canonical_enc [OF TrueI], of demo_policy] by blast

text \<open>C27: \<open>decodeStrict\<close> accepts exactly the documents within the size limit that are one JSON value
  within the limits on depth, values and strings and without duplicate keys, and that the
  destination type takes.\<close>

theorem decodeStrict_accepts:
  "decodeStrict dec raw dst limit = Inr v \<longleftrightarrow>
   raw \<noteq> [] \<and> length raw \<le> limit \<and>
   (\<exists>j rest. parse_json raw = Some (j, rest) \<and> skip_ws rest = [] \<and> shape_ok j \<and> dec j dst = Some v)"
  by (rule decodeStrict_ok_iff)

text \<open>C28: the recursion of \<open>walkJSON\<close> never runs out of fuel.\<close>

theorem walkJSON_terminates:
  "walkJSON (2 * length raw + 1) (NewDecoder raw) depth n \<noteq> Inl (ParseErr FuelExhausted)"
  using walk_fuel [of "NewDecoder raw" "2 * length raw + 1" depth n] by (simp add: NewDecoder_def)

text \<open>The policies that \<open>decodePolicy\<close> accepts: a strict document of the right schema that names a
  provider and at least one builder, artifact producer and repository, and whose answer to incomplete
  evidence is \<open>REVIEW\<close> or \<open>REJECT\<close>, never \<open>ALLOW\<close>.\<close>

theorem decodePolicy_accepts:
  "decodePolicy raw = Inr policy \<longleftrightarrow>
   decodeStrict dec_policy raw zero_policy maxDocumentBytes = Inr policy \<and>
   po_SchemaVersion policy = ''0.1'' \<and> po_IncompleteDecision policy \<in> {''REVIEW'', ''REJECT''} \<and>
   po_ExpectedProvider policy \<noteq> [] \<and> elems (po_AllowedBuilderIDs policy) \<noteq> [] \<and>
   elems (po_AllowedArtifactProducers policy) \<noteq> [] \<and> elems (po_AllowedRepositories policy) \<noteq> []"
  by (rule decodePolicy_ok_iff)

section \<open>The writer\<close>

text \<open>A failing \<open>Append\<close> leaves the chain as it was.\<close>

theorem Append_fails_unchanged:
  assumes "Append (Some chain) event = (Inl err, chain')"
  shows "chain' = Some chain"
  using assms by (rule Append_error)

lemma Append_fails_unchanged_witness:
  "snd (Append (Some chain0) (draft1\<lparr>ev_EventID := ''x''\<rparr>)) = Some chain0"
  using Append_fails_unchanged [of chain0 "draft1\<lparr>ev_EventID := ''x''\<rparr>" "ChainErr CallerSuppliedFields" "Some chain0"]
  by (simp add: Append_def owned_fields_set_def)

text \<open>C8: what a reader gets from a writer. Whatever calls of \<open>Append\<close> are made, failing ones between
  them, the lines returned parse to the events written, as long as the caller's clock does not go back
  and the events keep the reader's limits.\<close>

theorem written_stream_parses:
  assumes "written build sensor chain es raw" "writer_limits es" "es \<noteq> []"
    "sorted (map ev_MonotonicNS es)" "length raw \<le> maxDocumentBytes"
  shows "ParseEventStream raw = Inr es"
  using assms by (rule written_parses)

lemma written_stream_parses_witness: "\<exists>raw. ParseEventStream raw = Inr demo_events"
proof -
  obtain raw where w: "written demo_build demo_sensor chain4 demo_events raw" using demo_written by blast
  then have "raw = demo_stream" using written_state [OF w] by (simp add: demo_stream_def)
  then show ?thesis
    using written_stream_parses [OF w demo_limits _ demo_sorted] demo_length by (auto simp: demo_events_def)
qed

text \<open>C36: \<open>ProcessKey\<close> tells processes apart: two complete identities with the same key are the same, or
  their key materials are two texts with the same SHA-256 digest.\<close>

theorem ProcessKey_separates:
  assumes "ProcessKey b n t s = ProcessKey b' n' t' s'" "ProcessKey b n t s \<noteq> []"
  shows "(b, n, t, s) = (b', n', t', s') \<or>
    key_material b n t s \<noteq> key_material b' n' t' s' \<and>
    Digest (key_material b n t s) = Digest (key_material b' n' t' s')"
  using assms key_material_inject [of b n t s b' n' t' s'] by (auto simp: ProcessKey_eq split: if_splits)

lemma ProcessKey_separates_witness: "ProcessKey ''b'' 1 2 3 \<noteq> [] \<and> (''b'', 1, 2, 3) = (''b'', 1::uint64, 2::uint32, 3::uint64)"
  using ProcessKey_separates [OF refl, of "''b''" 1 2 3] by (auto simp: ProcessKey_eq)

section \<open>The graph\<close>



text \<open>C26: the result does not depend on the order in which Go iterates over the node map, errors included.\<close>

theorem BuildGraph_deterministic:
  assumes "permutes order" "permutes order'"
  shows "BuildGraph order es = BuildGraph order' es"
proof (cases "graph_loop es [] []")
  case (Inl e)
  then show ?thesis by (cases es) (simp_all add: BuildGraph_def del: graph_loop.simps)
next
  case (Inr r)
  then have "graphable es" by (simp add: graph_loop_iff graphable_iff)
  then have "es \<noteq> [] \<Longrightarrow> ?thesis"
    using BuildGraph_spec [OF assms(1), of es] BuildGraph_spec [OF assms(2), of es] by metis
  then show ?thesis by (cases "es = []") (simp_all add: BuildGraph_def)
qed

lemma BuildGraph_deterministic_witness: "BuildGraph rev demo_events = BuildGraph (\<lambda>ks. ks) demo_events"
  by (rule BuildGraph_deterministic) (simp_all add: permutes_def)

section \<open>Assembly and the local provenance\<close>

text \<open>C31: when \<open>Assemble\<close> succeeds: the inputs parse, provenance, events and artifact agree on build, run,
  source and digest, the events have a graph, and the correlation record keeps the strict limits.\<close>

theorem Assemble_succeeds:
  assumes "permutes order"
  shows "(\<exists>b. Assemble order inputs = Inr b) \<longleftrightarrow>
    (\<exists>a. inputs_parse inputs a \<and> consistent inputs a \<and> graphable (as_events a) \<and>
       as_graph a = graph_of (as_events a) \<and> correlation_fits (as_correlation inputs a))"
proof -
  have "(\<exists>b. Assemble order inputs = Inr b) \<longleftrightarrow> (\<exists>a b. assembles order inputs a b)"
    by (auto simp: Assemble_iff)
  then show ?thesis by (simp add: assembles_ex_iff [OF assms])
qed

lemma Assemble_succeeds_witness: "\<exists>a. inputs_parse demo_inputs a \<and> consistent demo_inputs a"
  using Assemble_succeeds [OF permutes_id, of demo_inputs] demo_bundle by blast

text \<open>C32: the statement that \<open>CreateLocalFixtureProvenance\<close> makes, written to a file and read back, names
  the build of the first event, the local builder and the source, and the artifact's digest.\<close>

theorem local_provenance_round_trip:
  assumes "CreateLocalFixtureProvenance name artifact events repository revision = Inr st"
    "identity_ready events" "statement_fits st"
  shows "decodeStatement (document st) = Inr (norm_statement st) \<and>
    provenanceIdentity (norm_statement st) = Inr (norm_correlation (local_identity (hd events) repository revision)) \<and>
    subjectMatches (elems (st_Subject (norm_statement st))) (sanitize name) (Digest artifact)"
  using local_round_trip [OF assms] by blast

lemma local_provenance_round_trip_witness: "provenanceIdentity (norm_statement demo_statement) = Inr demo_identity"
  using local_provenance_round_trip [OF demo_create demo_ready demo_fits] by (simp add: demo_norm_identity)

section \<open>Files\<close>

text \<open>C14: a bundle that was assembled, written with \<open>WriteBundle\<close> and read back with \<open>LoadBundle\<close> gets the
  same answer from \<open>Verify\<close>, for every order in which the three files are written, provided that each
  document keeps the limits of the strict decoder.\<close>

theorem bundle_files_round_trip:
  assumes "permutes order" "permutes order'" "Assemble order inputs = Inr b"
    "loadable (enc_graph (bd_Graph b))" "loadable (enc_manifest (bd_Manifest b))" "loadable (enc_statement (bd_RuntimeTrace b))"
    "WriteBundle order' directory b s = (Inr (), s')" "quiet t" "os_files t = os_files s'"
  shows "\<exists>b'. LoadBundle directory t = (Inr b', t) \<and> Verify order inputs b' = Verify order inputs b"
  using assms by (rule stored_bundle_verifies)

lemma bundle_files_round_trip_witness:
  "\<exists>b' t. LoadBundle ''out'' t = (Inr b', t) \<and> Verify (\<lambda>ks. ks) demo_inputs b' = Verify (\<lambda>ks. ks) demo_inputs demo_bundle"
proof -
  obtain s where s: "WriteBundle (\<lambda>ks. ks) ''out'' demo_bundle empty_os = (Inr (), s)" "quiet s"
    using demo_WriteBundle by blast
  have l: "loadable (enc_graph (bd_Graph demo_bundle))" "loadable (enc_manifest (bd_Manifest demo_bundle))"
    using demo_graph_loadable demo_manifest_loadable by (simp_all add: demo_manifest demo_bundle_graph)
  show ?thesis
    using bundle_files_round_trip [OF permutes_id permutes_id demo_bundle l demo_trace_loadable s(1) s(2) refl] by blast
qed

text \<open>C17: whatever calls fail, \<open>WriteBundle\<close> replaces each of the three files as a whole or leaves it as it
  was; and when it succeeds all three are the canonical documents.\<close>

theorem WriteBundle_replaces_whole_files:
  assumes "permutes order" "WriteBundle order directory b s = (r, s')" "name \<in> {manifest_name, graph_name, trace_name}"
  shows "(os_files s' (Join directory name) = os_files s (Join directory name) \<or>
      os_files s' (Join directory name) = Some (stored (bundle_files b) name)) \<and>
    (r = Inr () \<longrightarrow> os_files s' (Join directory name) = Some (stored (bundle_files b) name))"
  using WriteBundle_files [OF assms] by blast

lemma WriteBundle_replaces_whole_files_witness:
  "\<exists>s :: os. os_files s (Join ''out'' graph_name) = Some (stored (bundle_files demo_bundle) graph_name)"
proof -
  obtain s where "WriteBundle (\<lambda>ks. ks) ''out'' demo_bundle empty_os = (Inr (), s)" using demo_WriteBundle by blast
  from WriteBundle_replaces_whole_files [OF permutes_id this, of graph_name] show ?thesis by auto
qed

text \<open>C18: \<open>WriteCanonicalExclusive\<close> creates a new file with the canonical document and a newline, or fails;
  it never changes a file that exists, and a failure of one call, wherever it happens, leaves no file
  behind.\<close>

theorem WriteCanonicalExclusive_all_or_nothing:
  assumes "WriteCanonicalExclusive path value s = (r, s')"
  shows "(r = Inr () \<longrightarrow> os_files s path = None \<and> os_files s' = (os_files s)(path := Some (document_of value))) \<and>
    (r \<noteq> Inr () \<and> (os_files s path \<noteq> None \<or> failures s \<le> 1) \<longrightarrow> os_files s' = os_files s)"
proof (cases r)
  case (Inl e)
  then show ?thesis using WriteCanonicalExclusive_error [of path "value" s e s'] assms by auto
next
  case (Inr u)
  then show ?thesis using WriteCanonicalExclusive_ok [of path "value" s s'] assms by simp
qed

lemma WriteCanonicalExclusive_all_or_nothing_witness:
  "os_files (snd (WriteCanonicalExclusive ''f'' (JBool True) (empty_os\<lparr>os_faults := [None, Some (Broken 2)]\<rparr>))) ''f'' = None"
proof -
  let ?s = "empty_os\<lparr>os_faults := [None, Some (Broken 2)]\<rparr>"
  obtain r s' where w: "WriteCanonicalExclusive ''f'' (JBool True) ?s = (r, s')" by force
  moreover have "failures ?s \<le> 1" by (simp add: failures_def)
  moreover have "r \<noteq> Inr ()"
    using w by (auto simp: WriteCanonicalExclusive_def canonical_eq OpenExclusive_def Write_def next_fault_def called_def
        empty_os_def put_file_def Let_def)
  ultimately have "os_files s' = os_files ?s" using WriteCanonicalExclusive_all_or_nothing [OF w] by blast
  then show ?thesis using w by (simp add: empty_os_def)
qed

end
